theory Spec2Isabelle
  imports Complex_Main "HOL-Library.Word" "HOL-Library.Monad_Syntax"
begin

unbundle bit_operations_syntax

section \<open>Numbers\<close>

text \<open>
  The simulation computes in C++ \<^verbatim>\<open>float\<close>.  The model idealises a float as a real
  number (no rounding, no overflow, no signed zero) and adds one value \<open>NaN\<close> for the
  result of an operation that has no real value: a quotient with divisor zero or the
  square root of a negative number.  Arithmetic propagates \<open>NaN\<close>; every ordered
  comparison with \<open>NaN\<close> is false, as in IEEE 754.  (IEEE 754 gives an infinity for
  \<open>a / 0\<close> with \<open>a \<noteq> 0\<close>; the model does not tell it from \<open>NaN\<close>.)
\<close>

datatype flt = Fin real | NaN

fun fneg :: "flt \<Rightarrow> flt" where
  "fneg (Fin a) = Fin (- a)"
| "fneg NaN = NaN"

fun fadd :: "flt \<Rightarrow> flt \<Rightarrow> flt" where
  "fadd (Fin a) (Fin b) = Fin (a + b)"
| "fadd _ _ = NaN"

fun fsub :: "flt \<Rightarrow> flt \<Rightarrow> flt" where
  "fsub (Fin a) (Fin b) = Fin (a - b)"
| "fsub _ _ = NaN"

fun fmul :: "flt \<Rightarrow> flt \<Rightarrow> flt" where
  "fmul (Fin a) (Fin b) = Fin (a * b)"
| "fmul _ _ = NaN"

fun fdiv :: "flt \<Rightarrow> flt \<Rightarrow> flt" where
  "fdiv (Fin a) (Fin b) = (if b = 0 then NaN else Fin (a / b))"
| "fdiv _ _ = NaN"

fun fsqrt :: "flt \<Rightarrow> flt" where
  "fsqrt (Fin a) = (if a < 0 then NaN else Fin (sqrt a))"
| "fsqrt NaN = NaN"

fun fabs :: "flt \<Rightarrow> flt" where
  "fabs (Fin a) = Fin \<bar>a\<bar>"
| "fabs NaN = NaN"

fun fless :: "flt \<Rightarrow> flt \<Rightarrow> bool" where
  "fless (Fin a) (Fin b) = (a < b)"
| "fless _ _ = False"

fun fle :: "flt \<Rightarrow> flt \<Rightarrow> bool" where
  "fle (Fin a) (Fin b) = (a \<le> b)"
| "fle _ _ = False"

definition fgreater :: "flt \<Rightarrow> flt \<Rightarrow> bool" where
  "fgreater a b = fless b a"

definition fge :: "flt \<Rightarrow> flt \<Rightarrow> bool" where
  "fge a b = fle b a"

text \<open>\<^verbatim>\<open>std::min(a, b)\<close> is \<^verbatim>\<open>(b < a) ? b : a\<close> and \<^verbatim>\<open>std::max(a, b)\<close> is
  \<^verbatim>\<open>(a < b) ? b : a\<close>.\<close>

definition fmin :: "flt \<Rightarrow> flt \<Rightarrow> flt" where
  "fmin a b = (if fless b a then b else a)"

definition fmax :: "flt \<Rightarrow> flt \<Rightarrow> flt" where
  "fmax a b = (if fless a b then b else a)"

text \<open>\<^verbatim>\<open>std::atan2(y, x)\<close> of the C library, by its mathematical definition.\<close>

definition atan2_real :: "real \<Rightarrow> real \<Rightarrow> real" where
  "atan2_real b a =
     (if 0 < a then arctan (b / a)
      else if a < 0 \<and> 0 \<le> b then arctan (b / a) + pi
      else if a < 0 then arctan (b / a) - pi
      else if 0 < b then pi / 2
      else if b < 0 then - pi / 2
      else 0)"

fun fatan2 :: "flt \<Rightarrow> flt \<Rightarrow> flt" where
  "fatan2 (Fin b) (Fin a) = Fin (atan2_real b a)"
| "fatan2 _ _ = NaN"

record WasmVector2D =
  vec_x :: flt
  vec_y :: flt

definition Vector2D :: "flt \<Rightarrow> flt \<Rightarrow> WasmVector2D" where
  "Vector2D a b = \<lparr>vec_x = a, vec_y = b\<rparr>"

section \<open>Components (WasmComponents.h)\<close>

record WasmTransformComponent =
  position :: WasmVector2D
  velocity :: WasmVector2D
  rotation :: flt

datatype VehicleType = Car | Truck | Bus | Motorcycle

record WasmVehicleComponent =
  maxSpeed :: flt
  currentSpeed :: flt
  targetSpeed :: flt
  veh_length :: flt
  veh_width :: flt
  acceleration :: flt
  braking :: flt
  veh_type :: VehicleType

record WasmPathFollowingComponent =
  path :: "(nat \<times> nat) list"
  currentPathIndex :: nat
  distanceAlongCurrentSegment :: flt

record WasmBoundsComponent =
  b_width :: flt
  b_height :: flt
  keepInBounds :: bool

record WasmCollisionComponent =
  radius :: flt
  colliding :: bool
  collidingWith :: "nat list"

datatype Shape = Circle | Rectangle | Triangle | Custom

record WasmRenderableComponent =
  shape :: Shape
  color :: "flt list"
  scale :: flt
  visible :: bool
  vertices :: "WasmVector2D list"

datatype SignalState = Green | Yellow | Red

record WasmTrafficSignalComponent =
  sig_state :: SignalState
  timeRemaining :: flt
  greenDuration :: flt
  yellowDuration :: flt
  redDuration :: flt

text \<open>A component pool stores pointers to the base class \<^verbatim>\<open>WasmComponent\<close>; the
  model's base class is the sum of the component classes.\<close>

datatype component =
    Transform WasmTransformComponent
  | Vehicle WasmVehicleComponent
  | PathFollowing WasmPathFollowingComponent
  | Bounds WasmBoundsComponent
  | Collision WasmCollisionComponent
  | Renderable WasmRenderableComponent
  | TrafficSignal WasmTrafficSignalComponent
  | Selectable bool

datatype ctype =
  TTransform | TVehicle | TPathFollowing | TBounds | TCollision | TRenderable
  | TTrafficSignal | TSelectable

fun ctype_of :: "component \<Rightarrow> ctype" where
  "ctype_of (Transform _) = TTransform"
| "ctype_of (Vehicle _) = TVehicle"
| "ctype_of (PathFollowing _) = TPathFollowing"
| "ctype_of (Bounds _) = TBounds"
| "ctype_of (Collision _) = TCollision"
| "ctype_of (Renderable _) = TRenderable"
| "ctype_of (TrafficSignal _) = TTrafficSignal"
| "ctype_of (Selectable _) = TSelectable"

text \<open>The constructors with their default arguments.\<close>

definition new_Transform :: "WasmVector2D \<Rightarrow> WasmVector2D \<Rightarrow> WasmTransformComponent" where
  "new_Transform p v = \<lparr>position = p, velocity = v, rotation = Fin 0\<rparr>"

definition new_Vehicle :: "WasmVehicleComponent" where
  "new_Vehicle = \<lparr>maxSpeed = Fin 100, currentSpeed = Fin 0, targetSpeed = Fin 0,
     veh_length = Fin 4, veh_width = Fin 2, acceleration = Fin 0, braking = Fin 0,
     veh_type = Car\<rparr>"

definition new_Collision :: "flt \<Rightarrow> WasmCollisionComponent" where
  "new_Collision r = \<lparr>radius = r, colliding = False, collidingWith = []\<rparr>"

definition new_Renderable :: "WasmRenderableComponent" where
  "new_Renderable = \<lparr>shape = Rectangle, color = [Fin (2 / 10), Fin (6 / 10), Fin (8 / 10), Fin 1],
     scale = Fin 1, visible = True, vertices = []\<rparr>"

definition new_Bounds :: "flt \<Rightarrow> flt \<Rightarrow> WasmBoundsComponent" where
  "new_Bounds w h = \<lparr>b_width = w, b_height = h, keepInBounds = True\<rparr>"

definition new_PathFollowing :: "WasmPathFollowingComponent" where
  "new_PathFollowing = \<lparr>path = [], currentPathIndex = 0, distanceAlongCurrentSegment = Fin 0\<rparr>"

section \<open>The entity store (WasmECS.h, WasmECS.cpp)\<close>

text \<open>
  \<^verbatim>\<open>WasmComponentRegistry::getComponentID<T>()\<close> numbers the component types with a
  static counter, in the order in which the program first asks for each: a one-to-one
  numbering below \<^verbatim>\<open>MAX_COMPONENTS = 32\<close>.  The model fixes the numbering that the
  facade produces when \<^verbatim>\<open>initialize\<close>, \<^verbatim>\<open>createVehicle\<close>, \<^verbatim>\<open>update\<close> and
  \<^verbatim>\<open>createPath\<close> are first called in this order.
\<close>

fun getComponentID :: "ctype \<Rightarrow> nat" where
  "getComponentID TBounds = 0"
| "getComponentID TTransform = 1"
| "getComponentID TVehicle = 2"
| "getComponentID TCollision = 3"
| "getComponentID TRenderable = 4"
| "getComponentID TTrafficSignal = 5"
| "getComponentID TPathFollowing = 6"
| "getComponentID TSelectable = 7"

text \<open>\<^verbatim>\<open>WasmComponentMask = std::bitset<32>\<close>.\<close>

type_synonym WasmComponentMask = "32 word"

text \<open>A typed pool: slot \<open>e\<close> holds the component of entity \<open>e\<close>; \<open>None\<close> is the null
  \<^verbatim>\<open>unique_ptr\<close> with \<^verbatim>\<open>m_componentExists[e] = false\<close>.\<close>

type_synonym pool = "component option list"

definition pool_createComponent :: "nat \<Rightarrow> component \<Rightarrow> pool \<Rightarrow> pool" where
  "pool_createComponent e c p =
     (let p1 = (if e \<ge> length p then p @ replicate (e + 1 - length p) None else p)
      in p1[e := Some c])"

definition pool_getComponent :: "nat \<Rightarrow> pool \<Rightarrow> component option" where
  "pool_getComponent e p = (if e < length p then p ! e else None)"

definition pool_removeComponent :: "nat \<Rightarrow> pool \<Rightarrow> pool" where
  "pool_removeComponent e p = (if e < length p then p[e := None] else p)"

text \<open>The systems registered with the world are closures; the model names them.  The
  path-following closure captures a pointer to a road network (\<open>None\<close> is the null
  pointer).\<close>

datatype system =
  MovementSystem | BoundsSystem | CollisionSystem | TrafficSignalSystem
  | PathFollowingSystem "nat option"

record WasmWorld =
  m_entities :: "nat list"
  m_entityMasks :: "WasmComponentMask list"
  m_freeEntities :: "nat list"
  m_entityCount :: nat
  m_componentPools :: "pool option list"
  m_systems :: "system list"

definition WasmWorld_new :: WasmWorld where
  "WasmWorld_new = \<lparr>m_entities = [], m_entityMasks = [], m_freeEntities = [],
     m_entityCount = 0, m_componentPools = [], m_systems = []\<rparr>"

text \<open>\<^verbatim>\<open>size_t\<close> has 32 bits on the WebAssembly target.\<close>

definition SIZE_MAX :: nat where
  "SIZE_MAX = 2 ^ 32 - 1"

text \<open>
  \<^verbatim>\<open>createEntity\<close>.  Writing the mask of a recycled identifier that lies outside
  \<^verbatim>\<open>m_entityMasks\<close> is undefined behaviour: \<open>None\<close>.  Identifiers are \<^verbatim>\<open>uint32_t\<close>;
  the model counts them in \<open>nat\<close> (a store of \<open>2^32\<close> entities does not fit the target's
  memory).  The counter \<^verbatim>\<open>m_entityCount\<close> is a \<^verbatim>\<open>size_t\<close>: \<^verbatim>\<open>m_entityCount++\<close> wraps from
  \<^verbatim>\<open>SIZE_MAX\<close> to 0, as \<^verbatim>\<open>m_entityCount--\<close> in \<^verbatim>\<open>destroyEntity\<close> wraps from 0 to
  \<^verbatim>\<open>SIZE_MAX\<close>.
\<close>

definition createEntity :: "WasmWorld \<Rightarrow> (nat \<times> WasmWorld) option" where
  "createEntity w =
     (if m_freeEntities w \<noteq> [] then
        (let e = last (m_freeEntities w) in
         if e < length (m_entityMasks w) then
           Some (e, w\<lparr>m_freeEntities := butlast (m_freeEntities w),
                      m_entityMasks := (m_entityMasks w)[e := 0],
                      m_entityCount := (if m_entityCount w = SIZE_MAX then 0
                                        else m_entityCount w + 1)\<rparr>)
         else None)
      else
        (let e = length (m_entities w) in
         Some (e, w\<lparr>m_entities := m_entities w @ [e],
                    m_entityMasks := m_entityMasks w @ [0],
                    m_entityCount := (if m_entityCount w = SIZE_MAX then 0
                                      else m_entityCount w + 1)\<rparr>)))"

definition entityExists :: "WasmWorld \<Rightarrow> nat \<Rightarrow> bool" where
  "entityExists w e = (e < length (m_entities w) \<and> m_entityMasks w ! e \<noteq> 0)"

text \<open>The loop of \<^verbatim>\<open>destroyEntity\<close> over the pools: pool \<open>c\<close> drops the entity's
  component when bit \<open>c\<close> of the entity's mask is set and the pool is allocated.\<close>

definition removeFromPools :: "WasmComponentMask \<Rightarrow> nat \<Rightarrow> pool option list \<Rightarrow> pool option list" where
  "removeFromPools msk e pools =
     map (\<lambda>(c, p). case p of None \<Rightarrow> None
            | Some q \<Rightarrow> if bit msk c then Some (pool_removeComponent e q) else Some q)
         (zip [0..<length pools] pools)"

definition destroyEntity :: "nat \<Rightarrow> WasmWorld \<Rightarrow> WasmWorld" where
  "destroyEntity e w =
     (if \<not> entityExists w e then w
      else w\<lparr>m_componentPools := removeFromPools (m_entityMasks w ! e) e (m_componentPools w),
             m_entityMasks := (m_entityMasks w)[e := 0],
             m_freeEntities := m_freeEntities w @ [e],
             m_entityCount := (if m_entityCount w = 0 then SIZE_MAX else m_entityCount w - 1)\<rparr>)"

text \<open>
  \<^verbatim>\<open>addComponent<T>(entity, args...)\<close>.  \<open>dbg\<close> tells whether \<^verbatim>\<open>assert\<close> is compiled
  in (no \<^verbatim>\<open>NDEBUG\<close>); a failed assertion aborts: \<open>None\<close>.  Without the assertion, an
  entity outside \<^verbatim>\<open>m_entityMasks\<close> is undefined behaviour: \<open>None\<close> too.
\<close>

definition addComponent :: "bool \<Rightarrow> nat \<Rightarrow> component \<Rightarrow> WasmWorld \<Rightarrow> WasmWorld option" where
  "addComponent dbg e c w =
     (let cid = getComponentID (ctype_of c) in
      if dbg \<and> \<not> entityExists w e then None
      else if e \<ge> length (m_entityMasks w) then None
      else
        (let pools1 = (if cid \<ge> length (m_componentPools w)
                       then m_componentPools w @ replicate (cid + 1 - length (m_componentPools w)) None
                       else m_componentPools w);
             pools2 = (if pools1 ! cid = None then pools1[cid := Some []] else pools1)
         in Some (w\<lparr>m_entityMasks := (m_entityMasks w)[e := set_bit cid (m_entityMasks w ! e)],
                    m_componentPools := pools2[cid := Some (pool_createComponent e c (the (pools2 ! cid)))]\<rparr>)))"

text \<open>
  \<^verbatim>\<open>getComponent<T>(entity)\<close>: the three assertions when compiled in; without them a
  missing pool or a missing component is a null pointer dereferenced: \<open>None\<close>.
\<close>

definition getComponent :: "bool \<Rightarrow> ctype \<Rightarrow> nat \<Rightarrow> WasmWorld \<Rightarrow> component option" where
  "getComponent dbg t e w =
     (let cid = getComponentID t in
      if dbg \<and> \<not> (entityExists w e \<and> bit (m_entityMasks w ! e) cid) then None
      else if cid \<ge> length (m_componentPools w) then None
      else case m_componentPools w ! cid of
             None \<Rightarrow> None
           | Some p \<Rightarrow> pool_getComponent e p)"

definition hasComponent :: "ctype \<Rightarrow> nat \<Rightarrow> WasmWorld \<Rightarrow> bool" where
  "hasComponent t e w =
     (if \<not> entityExists w e then False else bit (m_entityMasks w ! e) (getComponentID t))"

definition removeComponent :: "ctype \<Rightarrow> nat \<Rightarrow> WasmWorld \<Rightarrow> WasmWorld" where
  "removeComponent t e w =
     (let cid = getComponentID t in
      if \<not> entityExists w e then w
      else
        (let w1 = w\<lparr>m_entityMasks := (m_entityMasks w)[e := unset_bit cid (m_entityMasks w ! e)]\<rparr>
         in if cid < length (m_componentPools w1) then
              (case m_componentPools w1 ! cid of
                 None \<Rightarrow> w1
               | Some p \<Rightarrow> w1\<lparr>m_componentPools := (m_componentPools w1)[cid := Some (pool_removeComponent e p)]\<rparr>)
            else w1))"

definition requiredMask :: "ctype list \<Rightarrow> WasmComponentMask" where
  "requiredMask ts = fold (\<lambda>t m. set_bit (getComponentID t) m) ts 0"

definition getEntitiesWith :: "ctype list \<Rightarrow> WasmWorld \<Rightarrow> nat list" where
  "getEntitiesWith ts w =
     filter (\<lambda>i. (m_entityMasks w ! i) AND requiredMask ts = requiredMask ts)
            [0..<length (m_entityMasks w)]"

definition registerSystem :: "system \<Rightarrow> WasmWorld \<Rightarrow> WasmWorld" where
  "registerSystem s w = w\<lparr>m_systems := m_systems w @ [s]\<rparr>"

definition getEntityCount :: "WasmWorld \<Rightarrow> nat" where
  "getEntityCount w = m_entityCount w"

text \<open>The two phases of the recycling scenario: create \<open>n\<close> entities one after the
  other, and destroy a list of entities one after the other.\<close>

fun createEntities :: "nat \<Rightarrow> WasmWorld \<Rightarrow> (nat list \<times> WasmWorld) option" where
  "createEntities 0 w = Some ([], w)"
| "createEntities (Suc n) w =
     (case createEntity w of None \<Rightarrow> None
      | Some (e, w1) \<Rightarrow>
          (case createEntities n w1 of None \<Rightarrow> None
           | Some (es, w2) \<Rightarrow> Some (e # es, w2)))"

fun destroyEntities :: "nat list \<Rightarrow> WasmWorld \<Rightarrow> WasmWorld" where
  "destroyEntities [] w = w"
| "destroyEntities (e # es) w = destroyEntities es (destroyEntity e w)"

section \<open>The road network (WasmRoadNetwork.h, WasmRoadNetwork.cpp)\<close>

text \<open>
  The network owns its segments and intersections in two hash maps keyed by identifier
  and never removes a single one of them.  A pointer to a segment or to an intersection
  is modelled by the identifier under which the map holds the object, and the null
  pointer by \<open>None\<close>.  A hash map is an association list; its order stands for the
  unspecified iteration order of \<^verbatim>\<open>std::unordered_map\<close>.
\<close>

datatype WasmLaneType = Driving | Parking | Bike | BusLane

record WasmLaneConnection =
  roadId :: nat
  laneId :: nat

record WasmLane =
  lane_id :: nat
  lane_parent :: nat
  lane_width :: flt
  lane_type :: WasmLaneType

record WasmRoadSegment =
  seg_id :: nat
  m_startPoint :: WasmVector2D
  m_endPoint :: WasmVector2D
  m_length :: flt
  m_lanes :: "WasmLane list"
  m_startIntersection :: "nat option"
  m_endIntersection :: "nat option"

record WasmIntersection =
  int_id :: nat
  m_position :: WasmVector2D
  m_connectedRoads :: "nat list"
  m_connections :: "(string \<times> WasmLaneConnection list) list"

record WasmRoadNetwork =
  m_roadSegments :: "(nat \<times> WasmRoadSegment) list"
  m_intersections :: "(nat \<times> WasmIntersection) list"
  m_nextRoadId :: nat
  m_nextIntersectionId :: nat

text \<open>\<^verbatim>\<open>m[k] = v\<close> on a hash map: replace the value of an existing key, or add the
  key.\<close>

fun umap_put :: "'k \<Rightarrow> 'v \<Rightarrow> ('k \<times> 'v) list \<Rightarrow> ('k \<times> 'v) list" where
  "umap_put k v [] = [(k, v)]"
| "umap_put k v ((k', v') # kvs) =
     (if k' = k then (k, v) # kvs else (k', v') # umap_put k v kvs)"

definition WasmRoadSegment_new :: "nat \<Rightarrow> WasmVector2D \<Rightarrow> WasmVector2D \<Rightarrow> WasmRoadSegment" where
  "WasmRoadSegment_new i startPoint endPoint =
     (let dx = fsub (vec_x endPoint) (vec_x startPoint);
          dy = fsub (vec_y endPoint) (vec_y startPoint)
      in \<lparr>seg_id = i, m_startPoint = startPoint, m_endPoint = endPoint,
          m_length = fsqrt (fadd (fmul dx dx) (fmul dy dy)),
          m_lanes = [], m_startIntersection = None, m_endIntersection = None\<rparr>)"

definition addLane :: "flt \<Rightarrow> WasmLaneType \<Rightarrow> WasmRoadSegment \<Rightarrow> nat \<times> WasmRoadSegment" where
  "addLane width type seg =
     (let l = length (m_lanes seg)
      in (l, seg\<lparr>m_lanes := m_lanes seg @
                   [\<lparr>lane_id = l, lane_parent = seg_id seg, lane_width = width, lane_type = type\<rparr>]\<rparr>))"

definition getLaneCount :: "WasmRoadSegment \<Rightarrow> nat" where
  "getLaneCount seg = length (m_lanes seg)"

definition getPointAtDistance :: "WasmRoadSegment \<Rightarrow> flt \<Rightarrow> WasmVector2D" where
  "getPointAtDistance seg distance =
     (let d = fmax (Fin 0) (fmin distance (m_length seg));
          t = fdiv d (m_length seg);
          px = fadd (vec_x (m_startPoint seg))
                 (fmul (fsub (vec_x (m_endPoint seg)) (vec_x (m_startPoint seg))) t);
          py = fadd (vec_y (m_startPoint seg))
                 (fmul (fsub (vec_y (m_endPoint seg)) (vec_y (m_startPoint seg))) t)
      in Vector2D px py)"

definition getDirectionAtDistance :: "WasmRoadSegment \<Rightarrow> flt \<Rightarrow> WasmVector2D" where
  "getDirectionAtDistance seg distance =
     (let dx = fsub (vec_x (m_endPoint seg)) (vec_x (m_startPoint seg));
          dy = fsub (vec_y (m_endPoint seg)) (vec_y (m_startPoint seg));
          len = fsqrt (fadd (fmul dx dx) (fmul dy dy))
      in if fgreater len (Fin (1 / 10000)) then Vector2D (fdiv dx len) (fdiv dy len)
         else Vector2D dx dy)"

text \<open>\<^verbatim>\<open>std::to_string\<close> of an unsigned number: its decimal digits.\<close>

definition digit_char :: "nat \<Rightarrow> char" where
  "digit_char d = ''0123456789'' ! d"

fun to_string :: "nat \<Rightarrow> string" where
  "to_string n = (if n < 10 then [digit_char n] else to_string (n div 10) @ [digit_char (n mod 10)])"

declare to_string.simps [simp del]

definition connectionKey :: "nat \<Rightarrow> nat \<Rightarrow> string" where
  "connectionKey r l = to_string r @ ''_'' @ to_string l"

definition connectRoad :: "nat \<Rightarrow> WasmIntersection \<Rightarrow> WasmIntersection" where
  "connectRoad r i = i\<lparr>m_connectedRoads := m_connectedRoads i @ [r]\<rparr>"

text \<open>The other half of \<^verbatim>\<open>WasmIntersection::connectRoad\<close>: the segment's reference to
  the intersection.\<close>

definition attachIntersection :: "nat \<Rightarrow> bool \<Rightarrow> WasmRoadSegment \<Rightarrow> WasmRoadSegment" where
  "attachIntersection i isStart seg =
     (if isStart then seg\<lparr>m_startIntersection := Some i\<rparr>
      else seg\<lparr>m_endIntersection := Some i\<rparr>)"

definition defineConnection :: "nat \<Rightarrow> nat \<Rightarrow> nat \<Rightarrow> nat \<Rightarrow> WasmIntersection \<Rightarrow> WasmIntersection" where
  "defineConnection inRoadId inLaneId outRoadId outLaneId i =
     (let key = connectionKey inRoadId inLaneId;
          connection = \<lparr>roadId = outRoadId, laneId = outLaneId\<rparr>;
          conns = (if map_of (m_connections i) key = None
                   then umap_put key [] (m_connections i) else m_connections i)
      in i\<lparr>m_connections := umap_put key (the (map_of conns key) @ [connection]) conns\<rparr>)"

definition WasmRoadNetwork_new :: WasmRoadNetwork where
  "WasmRoadNetwork_new = \<lparr>m_roadSegments = [], m_intersections = [],
     m_nextRoadId = 0, m_nextIntersectionId = 0\<rparr>"

definition getRoadSegment :: "WasmRoadNetwork \<Rightarrow> nat \<Rightarrow> WasmRoadSegment option" where
  "getRoadSegment net i = map_of (m_roadSegments net) i"

definition getIntersection :: "WasmRoadNetwork \<Rightarrow> nat \<Rightarrow> WasmIntersection option" where
  "getIntersection net i = map_of (m_intersections net) i"

text \<open>The identifiers are \<^verbatim>\<open>uint32_t\<close> counters; the model counts in \<open>nat\<close>.
  \<^verbatim>\<open>static_cast<uint32_t>(-1)\<close> is the value for "no such object".\<close>

definition INVALID_ID :: nat where
  "INVALID_ID = 4294967295"

definition createRoadSegment :: "flt \<Rightarrow> flt \<Rightarrow> flt \<Rightarrow> flt \<Rightarrow> WasmRoadNetwork \<Rightarrow> nat \<times> WasmRoadNetwork" where
  "createRoadSegment startX startY endX endY net =
     (let i = m_nextRoadId net;
          roadSegment = WasmRoadSegment_new i (Vector2D startX startY) (Vector2D endX endY);
          roadSegment1 = snd (addLane (Fin (35 / 10)) Driving roadSegment)
      in (i, net\<lparr>m_nextRoadId := i + 1,
                 m_roadSegments := umap_put i roadSegment1 (m_roadSegments net)\<rparr>))"

definition createIntersection :: "flt \<Rightarrow> flt \<Rightarrow> WasmRoadNetwork \<Rightarrow> nat \<times> WasmRoadNetwork" where
  "createIntersection px py net =
     (let i = m_nextIntersectionId net
      in (i, net\<lparr>m_nextIntersectionId := i + 1,
                 m_intersections := umap_put i
                   \<lparr>int_id = i, m_position = Vector2D px py, m_connectedRoads = [],
                    m_connections = []\<rparr> (m_intersections net)\<rparr>))"

text \<open>The two nested loops of \<^verbatim>\<open>connectWithIntersection\<close> over the lanes.\<close>

definition defineAllConnections :: "nat \<Rightarrow> nat \<Rightarrow> nat \<Rightarrow> nat \<Rightarrow> WasmIntersection \<Rightarrow> WasmIntersection" where
  "defineAllConnections road1Id n1 road2Id n2 i =
     fold (\<lambda>lane1 i1.
             fold (\<lambda>lane2 i2.
                     defineConnection road2Id lane2 road1Id lane1
                       (defineConnection road1Id lane1 road2Id lane2 i2))
                  [0..<n2] i1)
          [0..<n1] i"

text \<open>Writing through a pointer to a segment or to an intersection changes the object
  in the network's map.\<close>

definition updateRoadSegment :: "nat \<Rightarrow> (WasmRoadSegment \<Rightarrow> WasmRoadSegment) \<Rightarrow> WasmRoadNetwork \<Rightarrow> WasmRoadNetwork" where
  "updateRoadSegment r f net =
     (case getRoadSegment net r of None \<Rightarrow> net
      | Some seg \<Rightarrow> net\<lparr>m_roadSegments := umap_put r (f seg) (m_roadSegments net)\<rparr>)"

definition updateIntersection :: "nat \<Rightarrow> (WasmIntersection \<Rightarrow> WasmIntersection) \<Rightarrow> WasmRoadNetwork \<Rightarrow> WasmRoadNetwork" where
  "updateIntersection i f net =
     (case getIntersection net i of None \<Rightarrow> net
      | Some x \<Rightarrow> net\<lparr>m_intersections := umap_put i (f x) (m_intersections net)\<rparr>)"

definition connectWithIntersection :: "nat \<Rightarrow> bool \<Rightarrow> nat \<Rightarrow> bool \<Rightarrow> WasmRoadNetwork \<Rightarrow> nat \<times> WasmRoadNetwork" where
  "connectWithIntersection road1Id road1End road2Id road2End net =
     (case (getRoadSegment net road1Id, getRoadSegment net road2Id) of
        (Some road1, Some road2) \<Rightarrow>
          (let p1 = (if road1End then m_endPoint road1 else m_startPoint road1);
               p2 = (if road2End then m_endPoint road2 else m_startPoint road2);
               midpoint = Vector2D (fdiv (fadd (vec_x p1) (vec_x p2)) (Fin 2))
                                   (fdiv (fadd (vec_y p1) (vec_y p2)) (Fin 2));
               (intersectionId, net1) = createIntersection (vec_x midpoint) (vec_y midpoint) net;
               net2 = updateRoadSegment road1Id (attachIntersection intersectionId (\<not> road1End))
                        (updateIntersection intersectionId (connectRoad road1Id) net1);
               net3 = updateRoadSegment road2Id (attachIntersection intersectionId (\<not> road2End))
                        (updateIntersection intersectionId (connectRoad road2Id) net2);
               net4 = updateIntersection intersectionId
                        (defineAllConnections road1Id (getLaneCount road1) road2Id (getLaneCount road2))
                        net3
           in (intersectionId, net4))
      | _ \<Rightarrow> (INVALID_ID, net))"

text \<open>The distance of the point \<open>(px, py)\<close> to a segment, as \<^verbatim>\<open>findNearestRoadSegment\<close>
  computes it in the body of its loop.\<close>

definition pointDistance :: "flt \<Rightarrow> flt \<Rightarrow> flt \<Rightarrow> flt \<Rightarrow> flt" where
  "pointDistance px py qx qy =
     fsqrt (fadd (fmul (fsub px qx) (fsub px qx)) (fmul (fsub py qy) (fsub py qy)))"

definition segmentDistance :: "flt \<Rightarrow> flt \<Rightarrow> WasmRoadSegment \<Rightarrow> flt" where
  "segmentDistance px py road =
     (let start = m_startPoint road; endp = m_endPoint road;
          roadVec = Vector2D (fsub (vec_x endp) (vec_x start)) (fsub (vec_y endp) (vec_y start));
          roadLength = fsqrt (fadd (fmul (vec_x roadVec) (vec_x roadVec))
                                   (fmul (vec_y roadVec) (vec_y roadVec)))
      in if fless roadLength (Fin (1 / 10000)) then pointDistance px py (vec_x start) (vec_y start)
         else
           (let roadDir = Vector2D (fdiv (vec_x roadVec) roadLength) (fdiv (vec_y roadVec) roadLength);
                pointVec = Vector2D (fsub px (vec_x start)) (fsub py (vec_y start));
                projection = fadd (fmul (vec_x pointVec) (vec_x roadDir))
                                  (fmul (vec_y pointVec) (vec_y roadDir))
            in if fless projection (Fin 0) then pointDistance px py (vec_x start) (vec_y start)
               else if fgreater projection roadLength then pointDistance px py (vec_x endp) (vec_y endp)
               else
                 (let projPoint = Vector2D (fadd (vec_x start) (fmul (vec_x roadDir) projection))
                                           (fadd (vec_y start) (fmul (vec_y roadDir) projection))
                  in pointDistance px py (vec_x projPoint) (vec_y projPoint))))"

definition findNearestRoadSegment :: "flt \<Rightarrow> flt \<Rightarrow> flt \<Rightarrow> WasmRoadNetwork \<Rightarrow> nat" where
  "findNearestRoadSegment px py maxDistance net =
     snd (fold (\<lambda>(i, road) (nearestDistance, nearestId).
                  (let distance = segmentDistance px py road
                   in if fless distance nearestDistance then (distance, i)
                      else (nearestDistance, nearestId)))
               (m_roadSegments net) (maxDistance, INVALID_ID))"

section \<open>The systems (WasmTrafficSimulation.cpp)\<close>

text \<open>A system holds references to components and writes through them; the model
  reads a component with \<^verbatim>\<open>getComponent\<close> and writes it back into its slot.\<close>

definition putComponent :: "nat \<Rightarrow> component \<Rightarrow> WasmWorld \<Rightarrow> WasmWorld" where
  "putComponent e c w =
     (let cid = getComponentID (ctype_of c) in
      if cid < length (m_componentPools w) then
        (case m_componentPools w ! cid of
           None \<Rightarrow> w
         | Some p \<Rightarrow> w\<lparr>m_componentPools := (m_componentPools w)[cid := Some (p[e := Some c])]\<rparr>)
      else w)"

definition getTransform :: "bool \<Rightarrow> nat \<Rightarrow> WasmWorld \<Rightarrow> WasmTransformComponent option" where
  "getTransform dbg e w =
     (case getComponent dbg TTransform e w of Some (Transform t) \<Rightarrow> Some t | _ \<Rightarrow> None)"

definition getVehicle :: "bool \<Rightarrow> nat \<Rightarrow> WasmWorld \<Rightarrow> WasmVehicleComponent option" where
  "getVehicle dbg e w =
     (case getComponent dbg TVehicle e w of Some (Vehicle v) \<Rightarrow> Some v | _ \<Rightarrow> None)"

definition getPathFollowing :: "bool \<Rightarrow> nat \<Rightarrow> WasmWorld \<Rightarrow> WasmPathFollowingComponent option" where
  "getPathFollowing dbg e w =
     (case getComponent dbg TPathFollowing e w of Some (PathFollowing f) \<Rightarrow> Some f | _ \<Rightarrow> None)"

definition getBounds :: "bool \<Rightarrow> nat \<Rightarrow> WasmWorld \<Rightarrow> WasmBoundsComponent option" where
  "getBounds dbg e w =
     (case getComponent dbg TBounds e w of Some (Bounds b) \<Rightarrow> Some b | _ \<Rightarrow> None)"

definition getCollision :: "bool \<Rightarrow> nat \<Rightarrow> WasmWorld \<Rightarrow> WasmCollisionComponent option" where
  "getCollision dbg e w =
     (case getComponent dbg TCollision e w of Some (Collision c) \<Rightarrow> Some c | _ \<Rightarrow> None)"

definition getTrafficSignal :: "bool \<Rightarrow> nat \<Rightarrow> WasmWorld \<Rightarrow> WasmTrafficSignalComponent option" where
  "getTrafficSignal dbg e w =
     (case getComponent dbg TTrafficSignal e w of Some (TrafficSignal g) \<Rightarrow> Some g | _ \<Rightarrow> None)"

text \<open>A loop over a list whose body may abort.\<close>

fun forEach :: "('a \<Rightarrow> 's \<Rightarrow> 's option) \<Rightarrow> 'a list \<Rightarrow> 's \<Rightarrow> 's option" where
  "forEach f [] s = Some s"
| "forEach f (a # as) s = (case f a s of None \<Rightarrow> None | Some s1 \<Rightarrow> forEach f as s1)"

subsection \<open>Movement\<close>

definition moveTransform :: "flt \<Rightarrow> WasmTransformComponent \<Rightarrow> WasmTransformComponent" where
  "moveTransform dt t =
     (let p = Vector2D (fadd (vec_x (position t)) (fmul (vec_x (velocity t)) dt))
                       (fadd (vec_y (position t)) (fmul (vec_y (velocity t)) dt))
      in t\<lparr>position := p,
           rotation := (if fgreater (fabs (vec_x (velocity t))) (Fin (1 / 10))
                           \<or> fgreater (fabs (vec_y (velocity t))) (Fin (1 / 10))
                        then fatan2 (vec_y (velocity t)) (vec_x (velocity t))
                        else rotation t)\<rparr>)"

definition movementSystem :: "bool \<Rightarrow> flt \<Rightarrow> WasmWorld \<Rightarrow> WasmWorld option" where
  "movementSystem dbg dt w =
     forEach (\<lambda>e w1. case getTransform dbg e w1 of None \<Rightarrow> None
                | Some t \<Rightarrow> Some (putComponent e (Transform (moveTransform dt t)) w1))
             (getEntitiesWith [TTransform] w) w"

subsection \<open>Bounds\<close>

text \<open>The search for the global bounds component: the first identifier below the
  entity count that exists and has a bounds component.  The outer \<open>None\<close> is an abort,
  the inner one the null pointer.\<close>

definition findGlobalBounds :: "bool \<Rightarrow> WasmWorld \<Rightarrow> WasmBoundsComponent option option" where
  "findGlobalBounds dbg w =
     (case find (\<lambda>i. entityExists w i \<and> hasComponent TBounds i w) [0..<getEntityCount w] of
        None \<Rightarrow> Some None
      | Some i \<Rightarrow> (case getBounds dbg i w of None \<Rightarrow> None | Some b \<Rightarrow> Some (Some b)))"

definition clampAxis :: "flt \<Rightarrow> flt \<Rightarrow> flt \<Rightarrow> flt \<times> flt" where
  "clampAxis p v limit =
     (if fless p (Fin 0) then (Fin 0, fmul (fneg v) (Fin (1 / 2)))
      else if fgreater p limit then (limit, fmul (fneg v) (Fin (1 / 2)))
      else (p, v))"

definition clampTransform :: "WasmBoundsComponent \<Rightarrow> WasmTransformComponent \<Rightarrow> WasmTransformComponent" where
  "clampTransform b t =
     (let (px, vx) = clampAxis (vec_x (position t)) (vec_x (velocity t)) (b_width b);
          (py, vy) = clampAxis (vec_y (position t)) (vec_y (velocity t)) (b_height b)
      in t\<lparr>position := Vector2D px py, velocity := Vector2D vx vy\<rparr>)"

definition boundsSystem :: "bool \<Rightarrow> flt \<Rightarrow> WasmWorld \<Rightarrow> WasmWorld option" where
  "boundsSystem dbg dt w =
     (case findGlobalBounds dbg w of
        None \<Rightarrow> None
      | Some None \<Rightarrow> Some w
      | Some (Some globalBounds) \<Rightarrow>
          if \<not> keepInBounds globalBounds then Some w
          else forEach (\<lambda>e w1.
                  case getTransform dbg e w1 of None \<Rightarrow> None
                  | Some t \<Rightarrow>
                     (case getVehicle dbg e w1 of None \<Rightarrow> None
                      | Some v \<Rightarrow> Some (putComponent e (Transform (clampTransform globalBounds t)) w1)))
                 (getEntitiesWith [TTransform, TVehicle] w) w)"

subsection \<open>Path following\<close>

definition hasReachedDestination :: "WasmPathFollowingComponent \<Rightarrow> bool" where
  "hasReachedDestination f = (path f = [] \<or> currentPathIndex f \<ge> length (path f))"

definition setPath :: "(nat \<times> nat) list \<Rightarrow> WasmPathFollowingComponent \<Rightarrow> WasmPathFollowingComponent" where
  "setPath newPath f = f\<lparr>path := newPath, currentPathIndex := 0, distanceAlongCurrentSegment := Fin 0\<rparr>"

definition calculateSteeringForce :: "WasmVector2D \<Rightarrow> WasmVector2D \<Rightarrow> WasmVector2D \<Rightarrow> flt \<Rightarrow> WasmVector2D" where
  "calculateSteeringForce currentPos currentVel targetPos maxSpd =
     (let dx = fsub (vec_x targetPos) (vec_x currentPos);
          dy = fsub (vec_y targetPos) (vec_y currentPos);
          distance = fsqrt (fadd (fmul dx dx) (fmul dy dy))
      in if fless distance (Fin (1 / 10000)) then Vector2D (Fin 0) (Fin 0)
         else Vector2D (fsub (fmul (fdiv dx distance) maxSpd) (vec_x currentVel))
                       (fsub (fmul (fdiv dy distance) maxSpd) (vec_y currentVel)))"

text \<open>The part of the loop body after the road segment and the target distance are
  known: steer, limit the speed, advance along the segment.\<close>

definition steerAlong :: "flt \<Rightarrow> WasmRoadSegment \<Rightarrow> flt
    \<Rightarrow> WasmTransformComponent \<times> WasmVehicleComponent \<times> WasmPathFollowingComponent
    \<Rightarrow> WasmTransformComponent \<times> WasmVehicleComponent \<times> WasmPathFollowingComponent" where
  "steerAlong dt road targetDistance tvf =
     (case tvf of (t, v, f) \<Rightarrow>
       (let targetPosition = getPointAtDistance road targetDistance;
            steeringForce = calculateSteeringForce (position t) (velocity t) targetPosition (maxSpeed v);
            vx1 = fadd (vec_x (velocity t)) (fmul (vec_x steeringForce) dt);
            vy1 = fadd (vec_y (velocity t)) (fmul (vec_y steeringForce) dt);
            speed = fsqrt (fadd (fmul vx1 vx1) (fmul vy1 vy1));
            vel = (if fgreater speed (maxSpeed v)
                   then (let scale = fdiv (maxSpeed v) speed
                         in Vector2D (fmul vx1 scale) (fmul vy1 scale))
                   else Vector2D vx1 vy1)
        in (t\<lparr>velocity := vel\<rparr>,
            v\<lparr>currentSpeed := speed, targetSpeed := maxSpeed v\<rparr>,
            f\<lparr>distanceAlongCurrentSegment :=
                 fadd (distanceAlongCurrentSegment f) (fmul speed dt)\<rparr>)))"

definition followPath :: "WasmRoadNetwork \<Rightarrow> flt
    \<Rightarrow> WasmTransformComponent \<times> WasmVehicleComponent \<times> WasmPathFollowingComponent
    \<Rightarrow> WasmTransformComponent \<times> WasmVehicleComponent \<times> WasmPathFollowingComponent" where
  "followPath net dt tvf =
     (case tvf of (t, v, f) \<Rightarrow>
       if hasReachedDestination f then (t, v\<lparr>targetSpeed := Fin 0\<rparr>, f)
       else
         (case getRoadSegment net (fst (path f ! currentPathIndex f)) of
            None \<Rightarrow> (t, v, f\<lparr>currentPathIndex := currentPathIndex f + 1\<rparr>)
          | Some road \<Rightarrow>
             (let lookAheadDistance = fadd (fmul (currentSpeed v) (Fin 2)) (Fin 5);
                  targetDistance = fadd (distanceAlongCurrentSegment f) lookAheadDistance
              in if fgreater targetDistance (m_length road) then
                   (let f1 = f\<lparr>currentPathIndex := currentPathIndex f + 1\<rparr>
                    in if hasReachedDestination f1 then (t, v\<lparr>targetSpeed := Fin 0\<rparr>, f1)
                       else
                         (let f2 = f1\<lparr>distanceAlongCurrentSegment := Fin 0\<rparr>
                          in case getRoadSegment net (fst (path f2 ! currentPathIndex f2)) of
                               None \<Rightarrow> (t, v, f2)
                             | Some road2 \<Rightarrow> steerAlong dt road2 lookAheadDistance (t, v, f2)))
                 else steerAlong dt road targetDistance (t, v, f))))"

definition pathFollowingSystem :: "bool \<Rightarrow> flt \<Rightarrow> WasmRoadNetwork option \<Rightarrow> WasmWorld \<Rightarrow> WasmWorld option" where
  "pathFollowingSystem dbg dt roadNetwork w =
     (case roadNetwork of
        None \<Rightarrow> Some w
      | Some net \<Rightarrow>
          forEach (\<lambda>e w1.
              case getTransform dbg e w1 of None \<Rightarrow> None
              | Some t \<Rightarrow>
                 (case getVehicle dbg e w1 of None \<Rightarrow> None
                  | Some v \<Rightarrow>
                     (case getPathFollowing dbg e w1 of None \<Rightarrow> None
                      | Some f \<Rightarrow>
                         (case followPath net dt (t, v, f) of (t1, v1, f1) \<Rightarrow>
                            Some (putComponent e (PathFollowing f1)
                                   (putComponent e (Vehicle v1)
                                     (putComponent e (Transform t1) w1)))))))
            (getEntitiesWith [TTransform, TVehicle, TPathFollowing] w) w)"

subsection \<open>Collision\<close>

definition resetCollision :: "bool \<Rightarrow> nat \<Rightarrow> WasmWorld \<Rightarrow> WasmWorld option" where
  "resetCollision dbg e w =
     (case getCollision dbg e w of None \<Rightarrow> None
      | Some c \<Rightarrow> Some (putComponent e (Collision (c\<lparr>colliding := False, collidingWith := []\<rparr>)) w))"

text \<open>The test of one pair: the squared distance of the centres against the squared
  sum of the radii.\<close>

definition overlapping :: "WasmTransformComponent \<Rightarrow> WasmTransformComponent
    \<Rightarrow> WasmCollisionComponent \<Rightarrow> WasmCollisionComponent \<Rightarrow> bool" where
  "overlapping tA tB cA cB =
     (let dx = fsub (vec_x (position tB)) (vec_x (position tA));
          dy = fsub (vec_y (position tB)) (vec_y (position tA));
          distanceSquared = fadd (fmul dx dx) (fmul dy dy);
          minDistance = fadd (radius cA) (radius cB)
      in fless distanceSquared (fmul minDistance minDistance))"

text \<open>The response to a detected pair: the transforms after the separation and, when
  \<open>both\<close> entities are vehicles, after the exchange of the velocities.\<close>

definition collisionResponse :: "bool \<Rightarrow> WasmTransformComponent \<Rightarrow> WasmTransformComponent
    \<Rightarrow> WasmCollisionComponent \<Rightarrow> WasmCollisionComponent
    \<Rightarrow> WasmTransformComponent \<times> WasmTransformComponent" where
  "collisionResponse both tA tB cA cB =
     (let dx = fsub (vec_x (position tB)) (vec_x (position tA));
          dy = fsub (vec_y (position tB)) (vec_y (position tA));
          distanceSquared = fadd (fmul dx dx) (fmul dy dy);
          minDistance = fadd (radius cA) (radius cB);
          distance = fsqrt distanceSquared;
          overlap = fsub minDistance distance;
          nx = fdiv dx distance;
          ny = fdiv dy distance;
          separationX = fmul (fmul nx overlap) (Fin (1 / 2));
          separationY = fmul (fmul ny overlap) (Fin (1 / 2));
          pA = Vector2D (fsub (vec_x (position tA)) separationX) (fsub (vec_y (position tA)) separationY);
          pB = Vector2D (fadd (vec_x (position tB)) separationX) (fadd (vec_y (position tB)) separationY);
          damp = (\<lambda>u. Vector2D (fmul (vec_x u) (Fin (9 / 10))) (fmul (vec_y u) (Fin (9 / 10))))
      in if both
         then (tA\<lparr>position := pA, velocity := damp (velocity tB)\<rparr>,
               tB\<lparr>position := pB, velocity := damp (velocity tA)\<rparr>)
         else (tA\<lparr>position := pA\<rparr>, tB\<lparr>position := pB\<rparr>))"

definition collidePair :: "bool \<Rightarrow> nat \<Rightarrow> nat \<Rightarrow> WasmWorld \<Rightarrow> WasmWorld option" where
  "collidePair dbg a b w =
     (case getTransform dbg a w of None \<Rightarrow> None | Some tA \<Rightarrow>
     (case getTransform dbg b w of None \<Rightarrow> None | Some tB \<Rightarrow>
     (case getCollision dbg a w of None \<Rightarrow> None | Some cA \<Rightarrow>
     (case getCollision dbg b w of None \<Rightarrow> None | Some cB \<Rightarrow>
        (if overlapping tA tB cA cB then
          (let cA1 = cA\<lparr>colliding := True, collidingWith := collidingWith cA @ [b]\<rparr>;
               cB1 = cB\<lparr>colliding := True, collidingWith := collidingWith cB @ [a]\<rparr>;
               (tA1, tB1) = collisionResponse (hasComponent TVehicle a w \<and> hasComponent TVehicle b w)
                              tA tB cA cB
           in Some (putComponent b (Transform tB1)
                     (putComponent a (Transform tA1)
                       (putComponent b (Collision cB1)
                         (putComponent a (Collision cA1) w)))))
        else Some w)))))"

text \<open>The nested loops over the pairs \<open>i < j\<close> of the query result.\<close>

fun collidePairs :: "bool \<Rightarrow> nat list \<Rightarrow> WasmWorld \<Rightarrow> WasmWorld option" where
  "collidePairs dbg [] w = Some w"
| "collidePairs dbg (a # rest) w =
     (case forEach (collidePair dbg a) rest w of None \<Rightarrow> None
      | Some w1 \<Rightarrow> collidePairs dbg rest w1)"

definition collisionSystem :: "bool \<Rightarrow> flt \<Rightarrow> WasmWorld \<Rightarrow> WasmWorld option" where
  "collisionSystem dbg dt w =
     (let entities = getEntitiesWith [TTransform, TCollision] w
      in case forEach (resetCollision dbg) entities w of None \<Rightarrow> None
         | Some w1 \<Rightarrow> collidePairs dbg entities w1)"

subsection \<open>Traffic signals\<close>

definition signal_update :: "flt \<Rightarrow> WasmTrafficSignalComponent \<Rightarrow> WasmTrafficSignalComponent" where
  "signal_update dt g =
     (let g1 = g\<lparr>timeRemaining := fsub (timeRemaining g) dt\<rparr>
      in if fle (timeRemaining g1) (Fin 0) then
           (case sig_state g1 of
              Green \<Rightarrow> g1\<lparr>sig_state := Yellow, timeRemaining := yellowDuration g1\<rparr>
            | Yellow \<Rightarrow> g1\<lparr>sig_state := Red, timeRemaining := redDuration g1\<rparr>
            | Red \<Rightarrow> g1\<lparr>sig_state := Green, timeRemaining := greenDuration g1\<rparr>)
         else g1)"

definition trafficSignalSystem :: "bool \<Rightarrow> flt \<Rightarrow> WasmWorld \<Rightarrow> WasmWorld option" where
  "trafficSignalSystem dbg dt w =
     forEach (\<lambda>e w1. case getTrafficSignal dbg e w1 of None \<Rightarrow> None
                | Some g \<Rightarrow> Some (putComponent e (TrafficSignal (signal_update dt g)) w1))
             (getEntitiesWith [TTrafficSignal] w) w"

subsection \<open>The tick\<close>

text \<open>Road networks live outside the simulation and are reached through pointers: a
  heap maps the address of a network to the network.  Calling through a pointer that
  addresses no network is undefined behaviour: \<open>None\<close>.\<close>

type_synonym heap = "nat \<Rightarrow> WasmRoadNetwork option"

definition runSystem :: "bool \<Rightarrow> heap \<Rightarrow> flt \<Rightarrow> system \<Rightarrow> WasmWorld \<Rightarrow> WasmWorld option" where
  "runSystem dbg h dt sys w =
     (case sys of
        MovementSystem \<Rightarrow> movementSystem dbg dt w
      | BoundsSystem \<Rightarrow> boundsSystem dbg dt w
      | CollisionSystem \<Rightarrow> collisionSystem dbg dt w
      | TrafficSignalSystem \<Rightarrow> trafficSignalSystem dbg dt w
      | PathFollowingSystem None \<Rightarrow> pathFollowingSystem dbg dt None w
      | PathFollowingSystem (Some p) \<Rightarrow>
          (case h p of None \<Rightarrow> None | Some net \<Rightarrow> pathFollowingSystem dbg dt (Some net) w))"

definition WasmWorld_update :: "bool \<Rightarrow> heap \<Rightarrow> flt \<Rightarrow> WasmWorld \<Rightarrow> WasmWorld option" where
  "WasmWorld_update dbg h dt w = forEach (runSystem dbg h dt) (m_systems w) w"

section \<open>The facade (WasmTrafficSimulation.h, WasmTrafficSimulation.cpp)\<close>

record WasmTrafficSimulation =
  m_world :: WasmWorld
  m_roadNetwork :: "nat option"
  m_width :: flt
  m_height :: flt
  m_keepInBounds :: bool

definition setupSystems :: "WasmTrafficSimulation \<Rightarrow> WasmTrafficSimulation" where
  "setupSystems s =
     s\<lparr>m_world := registerSystem TrafficSignalSystem
                    (registerSystem CollisionSystem
                      (registerSystem BoundsSystem
                        (registerSystem MovementSystem (m_world s))))\<rparr>"

definition WasmTrafficSimulation_new :: WasmTrafficSimulation where
  "WasmTrafficSimulation_new =
     setupSystems \<lparr>m_world = WasmWorld_new, m_roadNetwork = None,
                   m_width = Fin 800, m_height = Fin 600, m_keepInBounds = True\<rparr>"

definition initialize :: "bool \<Rightarrow> flt \<Rightarrow> flt \<Rightarrow> WasmTrafficSimulation \<Rightarrow> WasmTrafficSimulation option" where
  "initialize dbg width height s =
     (case createEntity (m_world s) of None \<Rightarrow> None
      | Some (e, w1) \<Rightarrow>
         (case addComponent dbg e (Bounds (new_Bounds width height)) w1 of None \<Rightarrow> None
          | Some w2 \<Rightarrow> Some (s\<lparr>m_width := width, m_height := height, m_world := w2\<rparr>)))"

definition createVehicle :: "bool \<Rightarrow> flt \<Rightarrow> flt \<Rightarrow> flt \<Rightarrow> flt \<Rightarrow> WasmTrafficSimulation
    \<Rightarrow> (nat \<times> WasmTrafficSimulation) option" where
  "createVehicle dbg px py vx vy s =
     (case createEntity (m_world s) of None \<Rightarrow> None
      | Some (e, w1) \<Rightarrow>
         (case addComponent dbg e (Transform (new_Transform (Vector2D px py) (Vector2D vx vy))) w1 of
            None \<Rightarrow> None
          | Some w2 \<Rightarrow>
             (case addComponent dbg e (Vehicle new_Vehicle) w2 of None \<Rightarrow> None
              | Some w3 \<Rightarrow>
                 (case addComponent dbg e (Collision (new_Collision (Fin 2))) w3 of None \<Rightarrow> None
                  | Some w4 \<Rightarrow>
                     (case addComponent dbg e (Renderable new_Renderable) w4 of None \<Rightarrow> None
                      | Some w5 \<Rightarrow> Some (e, s\<lparr>m_world := w5\<rparr>))))))"

definition getVehicleCount :: "WasmTrafficSimulation \<Rightarrow> nat" where
  "getVehicleCount s =
     length (filter (\<lambda>e. entityExists (m_world s) e
                          \<and> hasComponent TTransform e (m_world s)
                          \<and> hasComponent TVehicle e (m_world s))
                    [0..<getEntityCount (m_world s)])"

definition getVehiclePosition :: "bool \<Rightarrow> nat \<Rightarrow> WasmTrafficSimulation \<Rightarrow> WasmVector2D option" where
  "getVehiclePosition dbg e s =
     (if entityExists (m_world s) e \<and> hasComponent TTransform e (m_world s)
      then map_option position (getTransform dbg e (m_world s))
      else Some (Vector2D (Fin 0) (Fin 0)))"

definition getVehicleVelocity :: "bool \<Rightarrow> nat \<Rightarrow> WasmTrafficSimulation \<Rightarrow> WasmVector2D option" where
  "getVehicleVelocity dbg e s =
     (if entityExists (m_world s) e \<and> hasComponent TTransform e (m_world s)
      then map_option velocity (getTransform dbg e (m_world s))
      else Some (Vector2D (Fin 0) (Fin 0)))"

definition update :: "bool \<Rightarrow> heap \<Rightarrow> flt \<Rightarrow> WasmTrafficSimulation \<Rightarrow> WasmTrafficSimulation option" where
  "update dbg h dt s =
     (case WasmWorld_update dbg h dt (m_world s) of None \<Rightarrow> None
      | Some w \<Rightarrow> Some (s\<lparr>m_world := w\<rparr>))"

definition setKeepInBounds :: "bool \<Rightarrow> bool \<Rightarrow> WasmTrafficSimulation \<Rightarrow> WasmTrafficSimulation option" where
  "setKeepInBounds dbg k s =
     (case forEach (\<lambda>e w. if entityExists w e \<and> hasComponent TBounds e w
                           then (case getBounds dbg e w of None \<Rightarrow> None
                                 | Some b \<Rightarrow> Some (putComponent e (Bounds (b\<lparr>keepInBounds := k\<rparr>)) w))
                           else Some w)
                   [0..<getEntityCount (m_world s)] (m_world s) of
        None \<Rightarrow> None
      | Some w \<Rightarrow> Some (s\<lparr>m_keepInBounds := k, m_world := w\<rparr>))"

definition setRoadNetwork :: "nat option \<Rightarrow> WasmTrafficSimulation \<Rightarrow> WasmTrafficSimulation" where
  "setRoadNetwork roadNetwork s =
     s\<lparr>m_roadNetwork := roadNetwork,
       m_world := registerSystem (PathFollowingSystem roadNetwork) (m_world s)\<rparr>"

text \<open>The loop of \<^verbatim>\<open>clear\<close>: its bound \<^verbatim>\<open>getEntityCount()\<close> is read again at every
  round.\<close>

function clearFrom :: "nat \<Rightarrow> WasmWorld \<Rightarrow> WasmWorld" where
  "clearFrom i w =
     (if i < getEntityCount w
      then clearFrom (i + 1) (if entityExists w i then destroyEntity i w else w)
      else w)"
  by pat_completeness auto
termination
  by (relation "measure (\<lambda>(i, w). getEntityCount w - i)")
     (auto simp: getEntityCount_def destroyEntity_def)

declare clearFrom.simps [simp del]

definition clear :: "WasmTrafficSimulation \<Rightarrow> WasmTrafficSimulation" where
  "clear s = s\<lparr>m_world := clearFrom 0 (m_world s)\<rparr>"

definition reserveVehicles :: "nat \<Rightarrow> WasmTrafficSimulation \<Rightarrow> WasmTrafficSimulation option" where
  "reserveVehicles n s =
     (case createEntities n (m_world s) of None \<Rightarrow> None
      | Some (es, w) \<Rightarrow> Some (s\<lparr>m_world := destroyEntities es w\<rparr>))"

subsection \<open>Route search (\<^verbatim>\<open>findPath\<close>, \<^verbatim>\<open>createPath\<close>)\<close>

text \<open>
  A search node.  The \<^verbatim>\<open>parent\<close> pointer addresses a node that \<open>nodeMap\<close> owns; the
  map holds one node for each key and never replaces it, so the pointer is modelled by
  the key.  The open set is a \<^verbatim>\<open>std::priority_queue\<close> of copies of nodes whose top
  is a node of least \<open>fScore\<close>; which of several least nodes is on top is left to the
  library, and the model takes the one pushed first.
\<close>

record Node =
  n_roadId :: nat
  gScore :: flt
  fScore :: flt
  parent :: "nat option"

definition pq_top :: "Node list \<Rightarrow> Node" where
  "pq_top q = fold (\<lambda>n best. if fless (fScore n) (fScore best) then n else best) (tl q) (hd q)"

definition pq_pop :: "Node list \<Rightarrow> Node list" where
  "pq_pop q = remove1 (pq_top q) q"

definition midpoint :: "WasmRoadSegment \<Rightarrow> WasmVector2D" where
  "midpoint road =
     Vector2D (fdiv (fadd (vec_x (m_startPoint road)) (vec_x (m_endPoint road))) (Fin 2))
              (fdiv (fadd (vec_y (m_startPoint road)) (vec_y (m_endPoint road))) (Fin 2))"

definition heuristic :: "WasmVector2D \<Rightarrow> WasmRoadSegment \<Rightarrow> flt" where
  "heuristic endMidpoint road =
     (let dx = fsub (vec_x (midpoint road)) (vec_x endMidpoint);
          dy = fsub (vec_y (midpoint road)) (vec_y endMidpoint)
      in fsqrt (fadd (fmul dx dx) (fmul dy dy)))"

definition sharesIntersection :: "WasmRoadSegment \<Rightarrow> WasmRoadSegment \<Rightarrow> bool" where
  "sharesIntersection road neighbor =
     ((m_startIntersection road \<noteq> None \<and> m_startIntersection road = m_startIntersection neighbor)
      \<or> (m_startIntersection road \<noteq> None \<and> m_startIntersection road = m_endIntersection neighbor)
      \<or> (m_endIntersection road \<noteq> None \<and> m_endIntersection road = m_startIntersection neighbor)
      \<or> (m_endIntersection road \<noteq> None \<and> m_endIntersection road = m_endIntersection neighbor))"

type_synonym frontier = "Node list \<times> (nat \<Rightarrow> flt option) \<times> (nat \<Rightarrow> Node option)"

text \<open>The body of the loop over \<open>neighborId\<close>.  (\<^verbatim>\<open>gScores[current.roadId]\<close> and
  \<^verbatim>\<open>nodeMap[current.roadId]\<close> would add a default entry for a missing key; the
  current segment always has both.)\<close>

definition relax :: "WasmRoadNetwork \<Rightarrow> WasmRoadSegment \<Rightarrow> nat \<Rightarrow> WasmVector2D \<Rightarrow> nat set
    \<Rightarrow> nat \<Rightarrow> frontier \<Rightarrow> frontier" where
  "relax net road cur endMidpoint closedSet neighborId st =
     (case st of (openSet, gScores, nodeMap) \<Rightarrow>
       if neighborId = cur then st
       else
         (case getRoadSegment net neighborId of
            None \<Rightarrow> st
          | Some neighbor \<Rightarrow>
              if \<not> sharesIntersection road neighbor then st
              else if neighborId \<in> closedSet then st
              else
                (let tentativeGScore =
                       fadd (case gScores cur of None \<Rightarrow> Fin 0 | Some g \<Rightarrow> g) (m_length road)
                 in if (case gScores neighborId of None \<Rightarrow> False | Some g \<Rightarrow> fge tentativeGScore g)
                    then st
                    else
                      (let parentPtr = (if nodeMap cur = None then None else Some cur);
                           f = fadd tentativeGScore (heuristic endMidpoint neighbor);
                           node = (case nodeMap neighborId of
                                     None \<Rightarrow> \<lparr>n_roadId = neighborId, gScore = tentativeGScore,
                                              fScore = f, parent = parentPtr\<rparr>
                                   | Some n \<Rightarrow> n\<lparr>gScore := tentativeGScore, fScore := f,
                                                parent := parentPtr\<rparr>)
                       in (openSet @ [node], gScores(neighborId \<mapsto> tentativeGScore),
                           nodeMap(neighborId \<mapsto> node))))))"

text \<open>The identifiers that can ever enter the open set: the measure of the
  search.\<close>

definition candidateIds :: "(nat \<Rightarrow> Node option) \<Rightarrow> nat set" where
  "candidateIds nodeMap =
     {0..<100} \<union> (\<lambda>k. case nodeMap k of None \<Rightarrow> k | Some n \<Rightarrow> n_roadId n) ` {0..<100}"

lemma pq_top_fold_mem:
  "fold (\<lambda>n best. if fless (fScore n) (fScore best) then n else best) xs b \<in> insert b (set xs)"
  by (induction xs arbitrary: b) auto

lemma pq_top_mem: "q \<noteq> [] \<Longrightarrow> pq_top q \<in> set q"
  using pq_top_fold_mem [of "tl q" "hd q"] by (cases q) (auto simp: pq_top_def)

lemma relax_cases:
  obtains (same) "relax net road cur em cs nb (o1, g1, n1) = (o1, g1, n1)"
  | (push) neighbor tg node where
      "nb \<noteq> cur" "getRoadSegment net nb = Some neighbor" "sharesIntersection road neighbor"
      "nb \<notin> cs"
      "node = (case n1 nb of
                 None \<Rightarrow> \<lparr>n_roadId = nb, gScore = tg, fScore = fadd tg (heuristic em neighbor),
                          parent = (if n1 cur = None then None else Some cur)\<rparr>
               | Some n \<Rightarrow> n\<lparr>gScore := tg, fScore := fadd tg (heuristic em neighbor),
                            parent := (if n1 cur = None then None else Some cur)\<rparr>)"
      "relax net road cur em cs nb (o1, g1, n1) = (o1 @ [node], g1(nb \<mapsto> tg), n1(nb \<mapsto> node))"
proof (cases "nb = cur")
  case True
  then have "relax net road cur em cs nb (o1, g1, n1) = (o1, g1, n1)" by (simp add: relax_def)
  then show ?thesis by (rule same)
next
  case ne: False
  show ?thesis
  proof (cases "getRoadSegment net nb")
    case None
    then have "relax net road cur em cs nb (o1, g1, n1) = (o1, g1, n1)" using ne by (simp add: relax_def)
    then show ?thesis by (rule same)
  next
    case (Some neighbor)
    show ?thesis
    proof (cases "sharesIntersection road neighbor \<and> nb \<notin> cs")
      case False
      then have "relax net road cur em cs nb (o1, g1, n1) = (o1, g1, n1)"
        using ne Some by (auto simp: relax_def)
      then show ?thesis by (rule same)
    next
      case c: True
      let ?tg = "fadd (case g1 cur of None \<Rightarrow> Fin 0 | Some g \<Rightarrow> g) (m_length road)"
      show ?thesis
      proof (cases "case g1 nb of None \<Rightarrow> False | Some g \<Rightarrow> fge ?tg g")
        case True
        then have "relax net road cur em cs nb (o1, g1, n1) = (o1, g1, n1)"
          using ne Some c by (simp add: relax_def Let_def)
        then show ?thesis by (rule same)
      next
        case False
        let ?node = "case n1 nb of
                 None \<Rightarrow> \<lparr>n_roadId = nb, gScore = ?tg, fScore = fadd ?tg (heuristic em neighbor),
                          parent = (if n1 cur = None then None else Some cur)\<rparr>
               | Some n \<Rightarrow> n\<lparr>gScore := ?tg, fScore := fadd ?tg (heuristic em neighbor),
                            parent := (if n1 cur = None then None else Some cur)\<rparr>"
        have "relax net road cur em cs nb (o1, g1, n1) = (o1 @ [?node], g1(nb \<mapsto> ?tg), n1(nb \<mapsto> ?node))"
          using ne Some c False by (simp add: relax_def Let_def)
        then show ?thesis using ne Some c by (intro push [of neighbor ?node ?tg]) simp_all
      qed
    qed
  qed
qed

lemma relax_ids:
  assumes "relax net road cur endMidpoint closedSet nb (o1, g1, n1) = (o2, g2, n2)" and "nb < 100"
  shows "n_roadId ` set o2 \<subseteq> n_roadId ` set o1 \<union> candidateIds n1 \<and> candidateIds n2 \<subseteq> candidateIds n1"
proof (cases rule: relax_cases [of net road cur endMidpoint closedSet nb o1 g1 n1])
  case same
  then show ?thesis using assms(1) by auto
next
  case (push neighbor tg node)
  have o2: "o2 = o1 @ [node]" and n2: "n2 = n1(nb \<mapsto> node)" using push(6) assms(1) by auto
  have id: "n_roadId node = (case n1 nb of None \<Rightarrow> nb | Some n \<Rightarrow> n_roadId n)"
    unfolding push(5) by (simp split: option.splits)
  have each: "(case (n1(nb \<mapsto> node)) k of None \<Rightarrow> k | Some n \<Rightarrow> n_roadId n) \<in> candidateIds n1"
    if "k < 100" for k
  proof -
    have "(case n1 k of None \<Rightarrow> k | Some n \<Rightarrow> n_roadId n) \<in> candidateIds n1"
      unfolding candidateIds_def
      by (rule UnI2, rule image_eqI [where x = k]) (use that in simp_all)
    moreover have "(case n1 nb of None \<Rightarrow> nb | Some n \<Rightarrow> n_roadId n) \<in> candidateIds n1"
      unfolding candidateIds_def
      by (rule UnI2, rule image_eqI [where x = nb]) (use assms(2) in simp_all)
    ultimately show ?thesis using id by (cases "k = nb") simp_all
  qed
  have "candidateIds n2 \<subseteq> candidateIds n1"
  proof
    fix x assume "x \<in> candidateIds n2"
    then consider "x < 100"
      | k where "k < 100" "x = (case (n1(nb \<mapsto> node)) k of None \<Rightarrow> k | Some n \<Rightarrow> n_roadId n)"
      unfolding n2 candidateIds_def by auto
    then show "x \<in> candidateIds n1"
    proof cases
      case 1
      then show ?thesis by (simp add: candidateIds_def)
    next
      case 2
      then show ?thesis using each by simp
    qed
  qed
  moreover have "n_roadId node \<in> candidateIds n1" using each [of nb] assms(2) by simp
  ultimately show ?thesis using o2 by auto
qed

lemma fold_relax_ids:
  assumes "fold (relax net road cur endMidpoint closedSet) ks (o1, g1, n1) = (o2, g2, n2)"
    and "\<forall>k \<in> set ks. k < 100"
  shows "n_roadId ` set o2 \<subseteq> n_roadId ` set o1 \<union> candidateIds n1 \<and> candidateIds n2 \<subseteq> candidateIds n1"
  using assms
proof (induction ks arbitrary: o1 g1 n1)
  case Nil
  then show ?case by auto
next
  case (Cons k ks)
  obtain o' g' n' where st: "relax net road cur endMidpoint closedSet k (o1, g1, n1) = (o', g', n')"
    by (cases "relax net road cur endMidpoint closedSet k (o1, g1, n1)") auto
  have k: "k < 100" using Cons.prems(2) by simp
  from relax_ids [OF st k]
  have a: "n_roadId ` set o' \<subseteq> n_roadId ` set o1 \<union> candidateIds n1" "candidateIds n' \<subseteq> candidateIds n1"
    by auto
  have "fold (relax net road cur endMidpoint closedSet) ks (o', g', n') = (o2, g2, n2)"
    using Cons.prems(1) st by simp
  from Cons.IH [OF this] Cons.prems(2)
  have "n_roadId ` set o2 \<subseteq> n_roadId ` set o' \<union> candidateIds n'" "candidateIds n2 \<subseteq> candidateIds n'"
    by auto
  then show ?case using a by blast
qed

lemma finite_candidateIds [simp]: "finite (candidateIds nm)"
  by (simp add: candidateIds_def)

type_synonym search = "Node list \<times> (nat \<Rightarrow> flt option) \<times> nat set \<times> (nat \<Rightarrow> Node option)"

definition openIds :: "search \<Rightarrow> nat set" where
  "openIds st = (case st of (openSet, gScores, closedSet, nodeMap) \<Rightarrow>
     (n_roadId ` set openSet \<union> candidateIds nodeMap) - closedSet)"

function astar :: "WasmRoadNetwork \<Rightarrow> nat \<Rightarrow> WasmVector2D \<Rightarrow> search \<Rightarrow> nat option \<times> (nat \<Rightarrow> Node option)" where
  "astar net endRoadId endMidpoint (openSet, gScores, closedSet, nodeMap) =
     (if openSet = [] then (None, nodeMap)
      else
        (let current = pq_top openSet; openSet1 = pq_pop openSet
         in if n_roadId current \<in> closedSet
            then astar net endRoadId endMidpoint (openSet1, gScores, closedSet, nodeMap)
            else if n_roadId current = endRoadId
            then ((if nodeMap (n_roadId current) = None then None else Some (n_roadId current)), nodeMap)
            else
              (case getRoadSegment net (n_roadId current) of
                 None \<Rightarrow> astar net endRoadId endMidpoint
                           (openSet1, gScores, insert (n_roadId current) closedSet, nodeMap)
               | Some road \<Rightarrow>
                   (case fold (relax net road (n_roadId current) endMidpoint
                                 (insert (n_roadId current) closedSet))
                              [0..<100] (openSet1, gScores, nodeMap) of
                      (openSet2, gScores2, nodeMap2) \<Rightarrow>
                        astar net endRoadId endMidpoint
                          (openSet2, gScores2, insert (n_roadId current) closedSet, nodeMap2)))))"
  by pat_completeness auto

lemma openIds_finite [simp]: "finite (openIds st)"
  by (cases st) (simp add: openIds_def)

lemma openIds_pop:
  assumes "openSet \<noteq> []"
  shows "openIds (pq_pop openSet, g, closedSet, nm) \<subseteq> openIds (openSet, g, closedSet, nm)"
  using set_remove1_subset [of "pq_top openSet" openSet] by (auto simp: openIds_def pq_pop_def)

lemma openIds_close:
  assumes "openSet \<noteq> []" and "n_roadId (pq_top openSet) \<notin> closedSet"
    and "n_roadId ` set o2 \<subseteq> n_roadId ` set (pq_pop openSet) \<union> candidateIds nm"
    and "candidateIds n2 \<subseteq> candidateIds nm"
  shows "openIds (o2, g2, insert (n_roadId (pq_top openSet)) closedSet, n2)
           \<subset> openIds (openSet, g, closedSet, nm)"
proof -
  have top: "pq_top openSet \<in> set openSet" by (rule pq_top_mem [OF assms(1)])
  have sub: "set (pq_pop openSet) \<subseteq> set openSet"
    using set_remove1_subset [of "pq_top openSet" openSet] by (simp add: pq_pop_def)
  have "n_roadId (pq_top openSet) \<in> openIds (openSet, g, closedSet, nm)"
    using top assms(2) by (auto simp: openIds_def)
  moreover have "n_roadId (pq_top openSet) \<notin> openIds (o2, g2, insert (n_roadId (pq_top openSet)) closedSet, n2)"
    by (simp add: openIds_def)
  moreover have "openIds (o2, g2, insert (n_roadId (pq_top openSet)) closedSet, n2)
      \<subseteq> openIds (openSet, g, closedSet, nm)"
  proof -
    have "n_roadId ` set (pq_pop openSet) \<subseteq> n_roadId ` set openSet" using sub by blast
    then have "n_roadId ` set o2 \<subseteq> n_roadId ` set openSet \<union> candidateIds nm"
      using assms(3) by blast
    then show ?thesis using assms(4) unfolding openIds_def by auto
  qed
  ultimately show ?thesis by blast
qed

termination astar
proof (relation "measures [\<lambda>(net, e, m, st). card (openIds st),
                           \<lambda>(net, e, m, (openSet, g, c, nm)). length openSet]", goal_cases)
  case 1
  show ?case by simp
next
  case (2 net endRoadId endMidpoint openSet gScores closedSet nodeMap x xa)
  have top: "pq_top openSet \<in> set openSet" using 2 by (auto intro: pq_top_mem)
  have "card (openIds (pq_pop openSet, gScores, closedSet, nodeMap))
      \<le> card (openIds (openSet, gScores, closedSet, nodeMap))"
    using 2 by (intro card_mono openIds_pop) auto
  moreover have "length (pq_pop openSet) < length openSet"
  proof -
    have "length (pq_pop openSet) = length openSet - 1"
      using top by (simp add: pq_pop_def length_remove1)
    moreover have "0 < length openSet" using 2(1) by simp
    ultimately show ?thesis by simp
  qed
  ultimately show ?case using 2 by auto
next
  case (3 net endRoadId endMidpoint openSet gScores closedSet nodeMap x xa)
  have "openIds (pq_pop openSet, gScores, insert (n_roadId (pq_top openSet)) closedSet, nodeMap)
      \<subset> openIds (openSet, gScores, closedSet, nodeMap)"
    using 3 by (intro openIds_close) auto
  then have "card (openIds (pq_pop openSet, gScores, insert (n_roadId (pq_top openSet)) closedSet, nodeMap))
      < card (openIds (openSet, gScores, closedSet, nodeMap))"
    by (intro psubset_card_mono) auto
  then show ?case using 3 by auto
next
  case (4 net endRoadId endMidpoint openSet gScores closedSet nodeMap x xa x2 xb y xaa ya)
  have f: "fold (relax net x2 (n_roadId (pq_top openSet)) endMidpoint
                  (insert (n_roadId (pq_top openSet)) closedSet))
             [0..<100] (pq_pop openSet, gScores, nodeMap) = (xb, xaa, ya)"
    using 4 by auto
  from fold_relax_ids [OF f]
  have ids: "n_roadId ` set xb \<subseteq> n_roadId ` set (pq_pop openSet) \<union> candidateIds nodeMap"
    "candidateIds ya \<subseteq> candidateIds nodeMap" by auto
  have "openIds (xb, xaa, insert (n_roadId (pq_top openSet)) closedSet, ya)
      \<subset> openIds (openSet, gScores, closedSet, nodeMap)"
    using 4 ids by (intro openIds_close) auto
  then have "card (openIds (xb, xaa, insert (n_roadId (pq_top openSet)) closedSet, ya))
      < card (openIds (openSet, gScores, closedSet, nodeMap))"
    by (intro psubset_card_mono) auto
  then show ?case using 4 by auto
qed


declare astar.simps [simp del]

text \<open>The loop that walks from the end node along the parent pointers.  A node pointer
  is the key of the node in \<open>nodeMap\<close>.\<close>

partial_function (option) followParents :: "(nat \<Rightarrow> Node option) \<Rightarrow> nat option \<Rightarrow> (nat \<times> nat) list option" where
  "followParents nodeMap current =
     (case current of
        None \<Rightarrow> Some []
      | Some k \<Rightarrow>
          (case nodeMap k of
             None \<Rightarrow> None
           | Some n \<Rightarrow> Option.bind (followParents nodeMap (parent n))
                         (\<lambda>rest. Some ((n_roadId n, 0) # rest))))"

definition findPathOn :: "WasmRoadNetwork \<Rightarrow> flt \<Rightarrow> flt \<Rightarrow> flt \<Rightarrow> flt \<Rightarrow> (nat \<times> nat) list option" where
  "findPathOn net startX startY endX endY =
     (let startRoadId = findNearestRoadSegment startX startY (Fin 50) net;
          endRoadId = findNearestRoadSegment endX endY (Fin 50) net
      in if startRoadId = INVALID_ID \<or> endRoadId = INVALID_ID then Some []
         else if startRoadId = endRoadId then Some [(startRoadId, 0)]
         else
           (case (getRoadSegment net startRoadId, getRoadSegment net endRoadId) of
              (Some startRoad, Some endRoad) \<Rightarrow>
                (let endMidpoint = midpoint endRoad;
                     startNode = \<lparr>n_roadId = startRoadId, gScore = Fin 0,
                                  fScore = heuristic endMidpoint startRoad, parent = None\<rparr>
                 in case astar net endRoadId endMidpoint
                           ([startNode], [startRoadId \<mapsto> Fin 0], {}, [startRoadId \<mapsto> startNode]) of
                      (None, nodeMap) \<Rightarrow> Some []
                    | (Some k, nodeMap) \<Rightarrow> map_option rev (followParents nodeMap (Some k)))
            | _ \<Rightarrow> Some []))"

definition findPath :: "heap \<Rightarrow> flt \<Rightarrow> flt \<Rightarrow> flt \<Rightarrow> flt \<Rightarrow> WasmTrafficSimulation \<Rightarrow> (nat \<times> nat) list option" where
  "findPath h startX startY endX endY s =
     (case m_roadNetwork s of
        None \<Rightarrow> Some []
      | Some p \<Rightarrow> (case h p of None \<Rightarrow> None | Some net \<Rightarrow> findPathOn net startX startY endX endY))"

definition createPath :: "bool \<Rightarrow> heap \<Rightarrow> nat \<Rightarrow> flt \<Rightarrow> flt \<Rightarrow> flt \<Rightarrow> flt \<Rightarrow> WasmTrafficSimulation
    \<Rightarrow> (bool \<times> WasmTrafficSimulation) option" where
  "createPath dbg h vehicleId startX startY endX endY s =
     (if m_roadNetwork s = None \<or> \<not> entityExists (m_world s) vehicleId then Some (False, s)
      else
        (case findPath h startX startY endX endY s of
           None \<Rightarrow> None
         | Some newPath \<Rightarrow>
             if newPath = [] then Some (False, s)
             else
               (case (if \<not> hasComponent TPathFollowing vehicleId (m_world s)
                      then addComponent dbg vehicleId (PathFollowing new_PathFollowing) (m_world s)
                      else Some (m_world s)) of
                  None \<Rightarrow> None
                | Some w1 \<Rightarrow>
                    (case getPathFollowing dbg vehicleId w1 of
                       None \<Rightarrow> None
                     | Some f \<Rightarrow>
                         Some (True, s\<lparr>m_world := putComponent vehicleId
                                                    (PathFollowing (setPath newPath f)) w1\<rparr>)))))"

section \<open>Scenarios\<close>

text \<open>A sequence of \<^verbatim>\<open>createVehicle\<close> calls; the identifiers are dropped.\<close>

fun createVehicles :: "bool \<Rightarrow> (flt \<times> flt \<times> flt \<times> flt) list \<Rightarrow> WasmTrafficSimulation
    \<Rightarrow> WasmTrafficSimulation option" where
  "createVehicles dbg [] s = Some s"
| "createVehicles dbg ((px, py, vx, vy) # vs) s =
     (case createVehicle dbg px py vx vy s of None \<Rightarrow> None
      | Some (e, s1) \<Rightarrow> createVehicles dbg vs s1)"

text \<open>The shape of the store after \<^verbatim>\<open>initialize\<close> and \<open>n\<close> calls of
  \<^verbatim>\<open>createVehicle\<close> on a new facade: entity 0 with the bounds bit, then \<open>n\<close> entities
  with the bits of transform, vehicle, collision and renderable.\<close>

definition setup_state :: "nat \<Rightarrow> WasmWorld \<Rightarrow> bool" where
  "setup_state n w \<longleftrightarrow> m_freeEntities w = [] \<and> m_entityCount w = n + 1
     \<and> length (m_entities w) = n + 1 \<and> m_entityMasks w = 1 # replicate n 30"

text \<open>The identifiers that exist, among all that were ever issued.\<close>

definition aliveEntities :: "WasmTrafficSimulation \<Rightarrow> nat list" where
  "aliveEntities s = filter (entityExists (m_world s)) [0..<length (m_entities (m_world s))]"

text \<open>A new facade, \<^verbatim>\<open>initialize(100, 100)\<close>, three vehicles at \<open>(10, 10)\<close>,
  \<open>(20, 20)\<close> and \<open>(30, 30)\<close> with velocity \<open>(1, 0)\<close>; then \<^verbatim>\<open>clear()\<close>; then
  \<^verbatim>\<open>update(1)\<close>.  Assertions are compiled out and no road network is attached.\<close>

definition scenario_three_vehicles :: "WasmTrafficSimulation option" where
  "scenario_three_vehicles =
     (case initialize False (Fin 100) (Fin 100) WasmTrafficSimulation_new of None \<Rightarrow> None
      | Some s0 \<Rightarrow> createVehicles False
          [(Fin 10, Fin 10, Fin 1, Fin 0), (Fin 20, Fin 20, Fin 1, Fin 0), (Fin 30, Fin 30, Fin 1, Fin 0)] s0)"

definition scenario_cleared :: "WasmTrafficSimulation option" where
  "scenario_cleared = map_option clear scenario_three_vehicles"

definition scenario_cleared_tick :: "WasmTrafficSimulation option" where
  "scenario_cleared_tick =
     (case scenario_cleared of None \<Rightarrow> None | Some s \<Rightarrow> update False (\<lambda>p. None) (Fin 1) s)"

text \<open>The end-to-end bounds scenario: \<^verbatim>\<open>initialize(100, 100)\<close>,
  \<^verbatim>\<open>createVehicle(95, 50, 50, 0)\<close>, \<^verbatim>\<open>setKeepInBounds(true)\<close>, \<^verbatim>\<open>update(1)\<close>; and the
  store after \<^verbatim>\<open>initialize(100, 100)\<close> and \<^verbatim>\<open>createVehicle(145, 50, 50, 0)\<close>.\<close>

definition scenario_bounds :: "WasmTrafficSimulation option" where
  "scenario_bounds =
     (case initialize False (Fin 100) (Fin 100) WasmTrafficSimulation_new of None \<Rightarrow> None
      | Some s0 \<Rightarrow>
         (case createVehicle False (Fin 95) (Fin 50) (Fin 50) (Fin 0) s0 of None \<Rightarrow> None
          | Some (e, s1) \<Rightarrow>
             (case setKeepInBounds False True s1 of None \<Rightarrow> None
              | Some s2 \<Rightarrow> update False (\<lambda>p. None) (Fin 1) s2)))"

text \<open>The end-to-end bounds scenario as the build script compiles it, with the
  assertions (no \<^verbatim>\<open>NDEBUG\<close>).\<close>

definition scenario_bounds_asserting :: "WasmTrafficSimulation option" where
  "scenario_bounds_asserting =
     (case initialize True (Fin 100) (Fin 100) WasmTrafficSimulation_new of None \<Rightarrow> None
      | Some s0 \<Rightarrow>
         (case createVehicle True (Fin 95) (Fin 50) (Fin 50) (Fin 0) s0 of None \<Rightarrow> None
          | Some (e, s1) \<Rightarrow>
             (case setKeepInBounds True True s1 of None \<Rightarrow> None
              | Some s2 \<Rightarrow> update True (\<lambda>p. None) (Fin 1) s2)))"

text \<open>Three times \<^verbatim>\<open>createVehicle(95, 50, 50, 0)\<close> on a new facade, then
  \<^verbatim>\<open>initialize(100, 100)\<close> (entity 3 gets the bounds component), \<^verbatim>\<open>clear()\<close> and
  \<^verbatim>\<open>update(1)\<close>; assertions compiled out.\<close>

definition scenario_bounds_lost :: "WasmTrafficSimulation option" where
  "scenario_bounds_lost =
     (case createVehicles False
             [(Fin 95, Fin 50, Fin 50, Fin 0), (Fin 95, Fin 50, Fin 50, Fin 0),
              (Fin 95, Fin 50, Fin 50, Fin 0)] WasmTrafficSimulation_new of None \<Rightarrow> None
      | Some s0 \<Rightarrow>
         (case initialize False (Fin 100) (Fin 100) s0 of None \<Rightarrow> None
          | Some s1 \<Rightarrow> update False (\<lambda>p. None) (Fin 1) (clear s1)))"

definition scenario_outside :: "WasmWorld" where
  "scenario_outside =
     (case initialize False (Fin 100) (Fin 100) WasmTrafficSimulation_new of None \<Rightarrow> WasmWorld_new
      | Some s0 \<Rightarrow>
         (case createVehicle False (Fin 145) (Fin 50) (Fin 50) (Fin 0) s0 of None \<Rightarrow> WasmWorld_new
          | Some (e, s1) \<Rightarrow> m_world s1))"

text \<open>The signed length of the way from the start point to a point, measured along the
  direction of the segment.\<close>

definition along :: "real \<Rightarrow> real \<Rightarrow> real \<Rightarrow> real \<Rightarrow> WasmVector2D \<Rightarrow> real" where
  "along x1 y1 x2 y2 p =
     (case (vec_x p, vec_y p) of
        (Fin px, Fin py) \<Rightarrow>
          ((px - x1) * (x2 - x1) + (py - y1) * (y2 - y1)) / sqrt ((x2 - x1)\<^sup>2 + (y2 - y1)\<^sup>2)
      | _ \<Rightarrow> 0)"

text \<open>The entries of a connection table, each with its key, and the number of
  entries that lead from one of the first \<open>inLanes\<close> lanes of \<open>inRoad\<close> to a lane of
  \<open>outRoad\<close>.\<close>

definition connectionEntries :: "WasmIntersection \<Rightarrow> (string \<times> WasmLaneConnection) list" where
  "connectionEntries i = concat (map (\<lambda>(k, cs). map (\<lambda>c. (k, c)) cs) (m_connections i))"

definition countConnections :: "nat \<Rightarrow> nat \<Rightarrow> nat \<Rightarrow> WasmIntersection \<Rightarrow> nat" where
  "countConnections inRoad inLanes outRoad i =
     length (filter (\<lambda>(k, c). k \<in> set (map (connectionKey inRoad) [0..<inLanes]) \<and> roadId c = outRoad)
               (connectionEntries i))"

text \<open>A network of two segments \<open>(0,0)-(10,0)\<close> and \<open>(10,0)-(20,0)\<close>; one more lane
  is added to the first and two more to the second through the pointers that
  \<^verbatim>\<open>getRoadSegment\<close> returns.\<close>

definition scenario_network :: WasmRoadNetwork where
  "scenario_network =
     (let (a, net1) = createRoadSegment (Fin 0) (Fin 0) (Fin 10) (Fin 0) WasmRoadNetwork_new;
          net2 = updateRoadSegment a (\<lambda>seg. snd (addLane (Fin (35 / 10)) Driving seg)) net1;
          (b, net3) = createRoadSegment (Fin 10) (Fin 0) (Fin 20) (Fin 0) net2;
          net4 = updateRoadSegment b (\<lambda>seg. snd (addLane (Fin (35 / 10)) Driving seg)) net3
      in updateRoadSegment b (\<lambda>seg. snd (addLane (Fin (35 / 10)) Bike seg)) net4)"

subsection \<open>Road networks for the route search\<close>

text \<open>Two segments \<open>(0,0)-(10,0)\<close> and \<open>(10,0)-(20,0)\<close> created by \<^verbatim>\<open>createRoadSegment\<close>:
  left apart, and joined end to start by \<^verbatim>\<open>connectWithIntersection\<close>.  A facade on which
  \<^verbatim>\<open>setRoadNetwork\<close> was called with the address \<open>p\<close>.\<close>

definition scenario_apart :: WasmRoadNetwork where
  "scenario_apart =
     snd (createRoadSegment (Fin 10) (Fin 0) (Fin 20) (Fin 0)
       (snd (createRoadSegment (Fin 0) (Fin 0) (Fin 10) (Fin 0) WasmRoadNetwork_new)))"

definition scenario_chain :: WasmRoadNetwork where
  "scenario_chain = snd (connectWithIntersection 0 True 1 False scenario_apart)"

definition scenario_facade :: "nat \<Rightarrow> WasmTrafficSimulation" where
  "scenario_facade p = setRoadNetwork (Some p) WasmTrafficSimulation_new"

text \<open>A row of \<open>n\<close> segments made by \<open>n\<close> calls of \<^verbatim>\<open>createRoadSegment\<close>, the \<open>i\<close>-th from
  \<open>(100 i, 0)\<close> to \<open>(100 i + 10, 0)\<close>; \<open>rowSegment i\<close> is the segment that the \<open>i\<close>-th call
  stores.  In a row of 101 segments, segment 0 is then joined to segment 100 and
  segment 100 to segment 1: the only way from segment 0 to segment 1 leads over
  segment 100.\<close>

definition createRow :: "nat \<Rightarrow> WasmRoadNetwork \<Rightarrow> WasmRoadNetwork" where
  "createRow n net =
     fold (\<lambda>i net1. snd (createRoadSegment (Fin (100 * real i)) (Fin 0)
                                             (Fin (100 * real i + 10)) (Fin 0) net1))
          [0..<n] net"

definition rowSegment :: "nat \<Rightarrow> WasmRoadSegment" where
  "rowSegment i = snd (addLane (Fin (35 / 10)) Driving
     (WasmRoadSegment_new i (Vector2D (Fin (100 * real i)) (Fin 0))
                            (Vector2D (Fin (100 * real i + 10)) (Fin 0))))"

definition scenario_row :: WasmRoadNetwork where
  "scenario_row = createRow 101 WasmRoadNetwork_new"

definition scenario_detour :: WasmRoadNetwork where
  "scenario_detour =
     snd (connectWithIntersection 100 True 1 False
       (snd (connectWithIntersection 0 True 100 False scenario_row)))"

text \<open>The row of 101 segments in which segment 100 is joined to segment 0 and nothing
  else: the only route from segment 100 to segment 0 is \<open>[100, 0]\<close>.\<close>

definition scenario_behind :: WasmRoadNetwork where
  "scenario_behind = snd (connectWithIntersection 100 True 0 False scenario_row)"

section \<open>The store invariant\<close>

text \<open>The content of the slot of entity \<open>e\<close> in the pool of component type \<open>t\<close>:
  what \<^verbatim>\<open>getComponent\<close> reads when its assertions hold.\<close>

definition slot :: "WasmWorld \<Rightarrow> ctype \<Rightarrow> nat \<Rightarrow> component option" where
  "slot w t e =
     (if getComponentID t < length (m_componentPools w)
      then (case m_componentPools w ! getComponentID t of None \<Rightarrow> None
            | Some p \<Rightarrow> pool_getComponent e p)
      else None)"

text \<open>The identifier table and the mask table have the same size, and a set bit in
  a mask has a component of that type in the matching pool.\<close>

definition pools_ok :: "WasmWorld \<Rightarrow> bool" where
  "pools_ok w \<longleftrightarrow> length (m_entities w) = length (m_entityMasks w)
     \<and> (\<forall>e t. e < length (m_entityMasks w) \<and> bit (m_entityMasks w ! e) (getComponentID t)
            \<longrightarrow> (\<exists>c. slot w t e = Some c \<and> ctype_of c = t))"

definition writable :: "WasmWorld \<Rightarrow> ctype \<Rightarrow> nat \<Rightarrow> bool" where
  "writable w t e \<longleftrightarrow> getComponentID t < length (m_componentPools w)
     \<and> (\<exists>p. m_componentPools w ! getComponentID t = Some p \<and> e < length p)"

text \<open>What the collision pass leaves in the collision component of an entity, and the
  property of the claim: the colliding-with lists of the queried entities are symmetric
  and a listed pair has both flags set.\<close>

definition collidingWithOf :: "WasmWorld \<Rightarrow> nat \<Rightarrow> nat list" where
  "collidingWithOf w e = (case slot w TCollision e of Some (Collision c) \<Rightarrow> collidingWith c | _ \<Rightarrow> [])"

definition collidingOf :: "WasmWorld \<Rightarrow> nat \<Rightarrow> bool" where
  "collidingOf w e = (case slot w TCollision e of Some (Collision c) \<Rightarrow> colliding c | _ \<Rightarrow> False)"

definition collision_sym :: "nat list \<Rightarrow> WasmWorld \<Rightarrow> bool" where
  "collision_sym es w \<longleftrightarrow>
     (\<forall>i \<in> set es. \<forall>j \<in> set es.
        (j \<in> set (collidingWithOf w i) \<longleftrightarrow> i \<in> set (collidingWithOf w j))
        \<and> (j \<in> set (collidingWithOf w i) \<longrightarrow> collidingOf w i \<and> collidingOf w j))"

definition query_ok :: "nat list \<Rightarrow> WasmWorld \<Rightarrow> bool" where
  "query_ok es w \<longleftrightarrow> pools_ok w
     \<and> (\<forall>e \<in> set es. e < length (m_entityMasks w)
           \<and> bit (m_entityMasks w ! e) (getComponentID TTransform)
           \<and> bit (m_entityMasks w ! e) (getComponentID TCollision))"

text \<open>The store after \<^verbatim>\<open>initialize(100, 100)\<close> and two vehicles at distance 1, which is
  below the sum 4 of their radii.\<close>

definition scenario_two_close :: "WasmWorld" where
  "scenario_two_close =
     (case initialize False (Fin 100) (Fin 100) WasmTrafficSimulation_new of None \<Rightarrow> WasmWorld_new
      | Some s0 \<Rightarrow>
         (case createVehicle False (Fin 10) (Fin 10) (Fin 1) (Fin 0) s0 of None \<Rightarrow> WasmWorld_new
          | Some (e1, s1) \<Rightarrow>
             (case createVehicle False (Fin 11) (Fin 10) (Fin 0) (Fin 0) s1 of None \<Rightarrow> WasmWorld_new
              | Some (e2, s2) \<Rightarrow> m_world s2)))"

section \<open>Routes and the invariant of the search\<close>

text \<open>Two segments of the network that share an intersection, and a route: a non-empty
  sequence of segments from \<open>s\<close> to \<open>e\<close> in which each shares an intersection with the
  next.\<close>

definition adjacent :: "WasmRoadNetwork \<Rightarrow> nat \<Rightarrow> nat \<Rightarrow> bool" where
  "adjacent net a b =
     (case (getRoadSegment net a, getRoadSegment net b) of
        (Some ra, Some rb) \<Rightarrow> sharesIntersection ra rb
      | _ \<Rightarrow> False)"

definition route :: "WasmRoadNetwork \<Rightarrow> nat \<Rightarrow> nat \<Rightarrow> nat list \<Rightarrow> bool" where
  "route net s e r \<longleftrightarrow> r \<noteq> [] \<and> hd r = s \<and> last r = e \<and> successively (adjacent net) r"

text \<open>The chain of parent pointers from node \<open>k\<close> to a node without parent.\<close>

inductive chain :: "(nat \<Rightarrow> Node option) \<Rightarrow> nat \<Rightarrow> nat list \<Rightarrow> bool" for nodeMap where
  root: "nodeMap k = Some n \<Longrightarrow> parent n = None \<Longrightarrow> chain nodeMap k [k]"
| link: "nodeMap k = Some n \<Longrightarrow> parent n = Some p \<Longrightarrow> chain nodeMap p ps \<Longrightarrow> chain nodeMap k (k # ps)"

definition nodes_ok :: "WasmRoadNetwork \<Rightarrow> nat \<Rightarrow> nat set \<Rightarrow> (nat \<Rightarrow> Node option) \<Rightarrow> bool" where
  "nodes_ok net s closedSet nodeMap \<longleftrightarrow>
     (\<forall>k n. nodeMap k = Some n \<longrightarrow>
        n_roadId n = k
        \<and> (\<exists>ps. chain nodeMap k ps \<and> set (tl ps) \<subseteq> closedSet \<and> last ps = s
              \<and> successively (\<lambda>x y. adjacent net y x) ps \<and> (\<forall>x \<in> set (butlast ps). x < 100)))"

definition open_ok :: "Node list \<Rightarrow> (nat \<Rightarrow> Node option) \<Rightarrow> bool" where
  "open_ok openSet nodeMap \<longleftrightarrow> (\<forall>n \<in> set openSet. nodeMap (n_roadId n) \<noteq> None)"

section \<open>Properties of the entity store\<close>

lemma set_bit_nonzero: "n < 32 \<Longrightarrow> set_bit n (m :: 32 word) \<noteq> 0"
proof
  assume n: "n < 32" and z: "set_bit n m = 0"
  have "bit (set_bit n m) n" using n by (simp only: bit_set_bit_iff) simp
  then show False using z by simp
qed

lemma getComponentID_less: "getComponentID t < 32"
  by (cases t) simp_all

lemma getComponentID_inj: "getComponentID t = getComponentID u \<longleftrightarrow> t = u"
  by (cases t; cases u) simp_all

lemma bit_requiredMask_aux:
  "bit (fold (\<lambda>t m. set_bit (getComponentID t) m) ts (m0 :: 32 word)) n
     \<longleftrightarrow> bit m0 n \<or> (\<exists>t \<in> set ts. getComponentID t = n)"
proof (induction ts arbitrary: m0)
  case Nil
  show ?case by simp
next
  case (Cons t ts)
  have lt: "getComponentID t < 32" by (rule getComponentID_less)
  show ?case using lt by (auto simp: Cons.IH bit_set_bit_iff)
qed

lemma bit_requiredMask:
  "bit (requiredMask ts) n \<longleftrightarrow> (\<exists>t \<in> set ts. getComponentID t = n)"
  by (simp add: requiredMask_def bit_requiredMask_aux)

lemma requiredMask_nonzero: "ts \<noteq> [] \<Longrightarrow> requiredMask ts \<noteq> 0"
proof -
  assume "ts \<noteq> []"
  then obtain t where t: "t \<in> set ts" by (cases ts) auto
  have "bit (requiredMask ts) (getComponentID t)"
    using t by (auto simp: bit_requiredMask)
  then show ?thesis by auto
qed

lemma createEntity_fresh_mask:
  assumes "length (m_entities w) = length (m_entityMasks w)"
    and "createEntity w = Some (e, w1)"
  shows "e < length (m_entityMasks w1) \<and> m_entityMasks w1 ! e = 0
         \<and> length (m_entities w1) = length (m_entityMasks w1)"
  using assms by (auto simp: createEntity_def Let_def nth_append split: if_splits)

text \<open>
  C9.  In a store whose identifier table and mask table have the same size, an
  identifier that \<^verbatim>\<open>createEntity\<close> has just returned, and that has no component yet,
  does not exist for \<^verbatim>\<open>entityExists\<close>, is in the result of no \<^verbatim>\<open>getEntitiesWith\<close>
  query for a non-empty set of components, and is left alone by \<^verbatim>\<open>destroyEntity\<close>:
  the store stays as it is, so the identifier is not pushed onto the free list and the
  entity count is not decremented.  Adding a first component (assertions compiled out)
  makes it exist.
\<close>

theorem fresh_entity_does_not_exist:
  assumes "length (m_entities w) = length (m_entityMasks w)"
    and "createEntity w = Some (e, w1)"
  shows "\<not> entityExists w1 e
       \<and> (\<forall>ts. ts \<noteq> [] \<longrightarrow> e \<notin> set (getEntitiesWith ts w1))
       \<and> destroyEntity e w1 = w1
       \<and> m_freeEntities (destroyEntity e w1) = m_freeEntities w1
       \<and> m_entityCount (destroyEntity e w1) = m_entityCount w1
       \<and> (\<forall>c. \<exists>w2. addComponent False e c w1 = Some w2 \<and> entityExists w2 e)"
proof -
  from createEntity_fresh_mask [OF assms]
  have e: "e < length (m_entityMasks w1)" and m: "m_entityMasks w1 ! e = 0"
    and l: "length (m_entities w1) = length (m_entityMasks w1)" by auto
  have 1: "\<not> entityExists w1 e" using m by (simp add: entityExists_def)
  have 2: "\<forall>ts. ts \<noteq> [] \<longrightarrow> e \<notin> set (getEntitiesWith ts w1)"
    using m requiredMask_nonzero by (auto simp: getEntitiesWith_def)
  have 3: "destroyEntity e w1 = w1" using 1 by (simp add: destroyEntity_def)
  have 4: "\<exists>w2. addComponent False e c w1 = Some w2 \<and> entityExists w2 e" for c
  proof -
    have nz: "set_bit (getComponentID (ctype_of c)) (0 :: 32 word) \<noteq> 0"
      by (rule set_bit_nonzero [OF getComponentID_less])
    show ?thesis using e m l nz
      by (simp add: addComponent_def Let_def entityExists_def)
  qed
  show ?thesis using 1 2 3 4 by simp
qed

theorem fresh_entity_does_not_exist_witness:
  "length (m_entities WasmWorld_new) = length (m_entityMasks WasmWorld_new)
   \<and> createEntity WasmWorld_new = Some (0, WasmWorld_new\<lparr>m_entities := [0], m_entityMasks := [0], m_entityCount := 1\<rparr>)
   \<and> \<not> entityExists (WasmWorld_new\<lparr>m_entities := [0], m_entityMasks := [0], m_entityCount := 1\<rparr>) 0
   \<and> m_entityCount (destroyEntity 0 (WasmWorld_new\<lparr>m_entities := [0], m_entityMasks := [0], m_entityCount := 1\<rparr>)) = 1"
proof -
  have a: "length (m_entities WasmWorld_new) = length (m_entityMasks WasmWorld_new)"
    by (simp add: WasmWorld_new_def)
  have b: "createEntity WasmWorld_new
             = Some (0, WasmWorld_new\<lparr>m_entities := [0], m_entityMasks := [0], m_entityCount := 1\<rparr>)"
    by (simp add: createEntity_def WasmWorld_new_def SIZE_MAX_def)
  show ?thesis using a b fresh_entity_does_not_exist [OF a b]
    by (simp add: WasmWorld_new_def)
qed

text \<open>With assertions compiled in, the first \<^verbatim>\<open>addComponent\<close> on a new identifier
  aborts on \<^verbatim>\<open>assert(entityExists(entity))\<close>.\<close>

lemma addComponent_fresh_aborts:
  assumes "length (m_entities w) = length (m_entityMasks w)"
    and "createEntity w = Some (e, w1)"
  shows "addComponent True e c w1 = None"
  using createEntity_fresh_mask [OF assms]
  by (simp add: addComponent_def Let_def entityExists_def)

subsection \<open>Recycling\<close>

lemma createEntities_no_free:
  assumes "m_freeEntities w = []" and "m_entityCount w + n \<le> SIZE_MAX"
  shows "createEntities n w =
           Some ([length (m_entities w)..<length (m_entities w) + n],
                 w\<lparr>m_entities := m_entities w @ [length (m_entities w)..<length (m_entities w) + n],
                   m_entityMasks := m_entityMasks w @ replicate n 0,
                   m_entityCount := m_entityCount w + n\<rparr>)"
  using assms
proof (induction n arbitrary: w)
  case 0
  show ?case by simp
next
  case (Suc n)
  let ?w1 = "w\<lparr>m_entities := m_entities w @ [length (m_entities w)],
               m_entityMasks := m_entityMasks w @ [0],
               m_entityCount := m_entityCount w + 1\<rparr>"
  have c: "createEntity w = Some (length (m_entities w), ?w1)"
    using Suc.prems by (simp add: createEntity_def Let_def)
  have f: "m_freeEntities ?w1 = []" using Suc.prems by simp
  have b: "m_entityCount ?w1 + n \<le> SIZE_MAX" using Suc.prems by simp
  have u: "[length (m_entities w)..<length (m_entities w) + Suc n]
             = length (m_entities w) # [Suc (length (m_entities w))..<Suc (length (m_entities w)) + n]"
    by (simp add: upt_conv_Cons del: upt_Suc)
  note ih = Suc.IH [OF f b]
  show ?case using ih u
    by (simp add: c del: upt_Suc)
qed

lemma destroyEntities_dead:
  assumes "\<forall>e \<in> set es. \<not> entityExists w e"
  shows "destroyEntities es w = w"
  using assms by (induction es) (simp_all add: destroyEntity_def)

text \<open>Starting from a new store, for every \<open>n\<close> that the counter can hold twice: the first phase returns the
  identifiers \<open>0, \<dots>, n - 1\<close>, destroying them changes nothing, and the second phase
  returns \<open>n, \<dots>, 2n - 1\<close>.\<close>

lemma recycling_new_store:
  assumes "n + n \<le> SIZE_MAX"
  shows "\<exists>w1 w2. createEntities n WasmWorld_new = Some ([0..<n], w1)
     \<and> destroyEntities [0..<n] w1 = w1
     \<and> createEntities n (destroyEntities [0..<n] w1) = Some ([n..<n + n], w2)"
proof -
  let ?w1 = "WasmWorld_new\<lparr>m_entities := [0..<n], m_entityMasks := replicate n 0,
               m_entityCount := n\<rparr>"
  have 1: "createEntities n WasmWorld_new = Some ([0..<n], ?w1)"
    using createEntities_no_free [of WasmWorld_new n] assms by (simp add: WasmWorld_new_def)
  have 2: "destroyEntities [0..<n] ?w1 = ?w1"
    by (rule destroyEntities_dead) (simp add: entityExists_def WasmWorld_new_def)
  have 3: "\<exists>w2. createEntities n ?w1 = Some ([n..<n + n], w2)"
    using createEntities_no_free [of ?w1 n] assms by (simp add: WasmWorld_new_def)
  show ?thesis using 1 2 3 by auto
qed

text \<open>
  C2.  The recycling scenario at \<open>N = 1\<close> on a new store: the first phase returns
  identifier 0, \<^verbatim>\<open>destroyEntity\<close> leaves the store as it is (the entity has no
  component, so \<^verbatim>\<open>entityExists\<close> is false and nothing reaches the free list), and the
  second phase returns identifier 1, not 0.
\<close>

theorem recycling_one_entity:
  "createEntities 1 WasmWorld_new
      = Some ([0], WasmWorld_new\<lparr>m_entities := [0], m_entityMasks := [0], m_entityCount := 1\<rparr>)
   \<and> destroyEntities [0] (WasmWorld_new\<lparr>m_entities := [0], m_entityMasks := [0], m_entityCount := 1\<rparr>)
      = WasmWorld_new\<lparr>m_entities := [0], m_entityMasks := [0], m_entityCount := 1\<rparr>
   \<and> map_option fst (createEntities 1 (WasmWorld_new\<lparr>m_entities := [0], m_entityMasks := [0], m_entityCount := 1\<rparr>))
      = Some [1]"
  by (simp add: createEntity_def destroyEntity_def entityExists_def WasmWorld_new_def SIZE_MAX_def)

section \<open>Properties of the facade\<close>

subsection \<open>\<^verbatim>\<open>clear\<close>\<close>

lemma destroyEntity_masks:
  "m_entityMasks (destroyEntity e w) = (if entityExists w e then (m_entityMasks w)[e := 0] else m_entityMasks w)"
  by (simp add: destroyEntity_def)

lemma destroyEntity_entities [simp]: "m_entities (destroyEntity e w) = m_entities w"
  by (simp add: destroyEntity_def)

lemma destroyEntity_systems [simp]: "m_systems (destroyEntity e w) = m_systems w"
  by (simp add: destroyEntity_def)

lemma clearFrom_entities [simp]: "m_entities (clearFrom i w) = m_entities w"
  by (induction i w rule: clearFrom.induct) (subst clearFrom.simps, simp)

lemma clearFrom_length_masks [simp]: "length (m_entityMasks (clearFrom i w)) = length (m_entityMasks w)"
  by (induction i w rule: clearFrom.induct) (subst clearFrom.simps, simp add: destroyEntity_masks)

lemma clearFrom_mask_cases:
  "m_entityMasks (clearFrom i w) ! j = m_entityMasks w ! j \<or> m_entityMasks (clearFrom i w) ! j = 0"
proof (induction i w rule: clearFrom.induct)
  case (1 i w)
  show ?case
  proof (cases "i < getEntityCount w")
    case False
    then show ?thesis by (subst clearFrom.simps) simp
  next
    case True
    let ?w1 = "if entityExists w i then destroyEntity i w else w"
    have eq: "clearFrom i w = clearFrom (i + 1) ?w1" using True by (subst clearFrom.simps) simp
    have step: "m_entityMasks ?w1 ! j = m_entityMasks w ! j \<or> m_entityMasks ?w1 ! j = 0"
      by (cases "j = i"; cases "i < length (m_entityMasks w)") (auto simp: destroyEntity_masks list_update_beyond)
    from "1.IH" [OF True] have "m_entityMasks (clearFrom (i + 1) ?w1) ! j = m_entityMasks ?w1 ! j
        \<or> m_entityMasks (clearFrom (i + 1) ?w1) ! j = 0" by simp
    with step eq show ?thesis by auto
  qed
qed

lemma clearFrom_below:
  assumes "length (m_entities w) = length (m_entityMasks w)"
    and "\<forall>j<i. \<not> entityExists w j"
  shows "\<forall>j < max i (getEntityCount (clearFrom i w)). \<not> entityExists (clearFrom i w) j"
  using assms
proof (induction i w rule: clearFrom.induct)
  case (1 i w)
  show ?case
  proof (cases "i < getEntityCount w")
    case False
    then have "clearFrom i w = w" by (subst clearFrom.simps) simp
    then show ?thesis using False "1.prems" by (simp add: max_def)
  next
    case True
    let ?w1 = "if entityExists w i then destroyEntity i w else w"
    have eq: "clearFrom i w = clearFrom (i + 1) ?w1" using True by (subst clearFrom.simps) simp
    have len: "length (m_entities ?w1) = length (m_entityMasks ?w1)"
      using "1.prems"(1) by (simp add: destroyEntity_masks)
    have dead: "\<forall>j<i + 1. \<not> entityExists ?w1 j"
    proof (intro allI impI)
      fix j assume j: "j < i + 1"
      show "\<not> entityExists ?w1 j"
      proof (cases "j = i")
        case True
        then show ?thesis using "1.prems"(1)
          by (auto simp: entityExists_def destroyEntity_masks)
      next
        case False
        then have "j < i" using j by simp
        then have "\<not> entityExists w j" using "1.prems"(2) by simp
        then show ?thesis using False
          by (auto simp: entityExists_def destroyEntity_masks)
      qed
    qed
    from "1.IH" [OF True len dead]
    have "\<forall>j < max (i + 1) (getEntityCount (clearFrom (i + 1) ?w1)). \<not> entityExists (clearFrom (i + 1) ?w1) j" .
    then show ?thesis unfolding eq by (auto simp: max_def split: if_splits)
  qed
qed

lemma getVehicleCount_clear:
  assumes "length (m_entities (m_world s)) = length (m_entityMasks (m_world s))"
  shows "getVehicleCount (clear s) = 0"
proof -
  have "\<forall>j < max 0 (getEntityCount (clearFrom 0 (m_world s))). \<not> entityExists (clearFrom 0 (m_world s)) j"
    by (rule clearFrom_below [OF assms]) simp
  then show ?thesis by (simp add: getVehicleCount_def clear_def filter_empty_conv)
qed


lemma initialize_setup:
  "\<exists>s0. initialize False wd ht WasmTrafficSimulation_new = Some s0
      \<and> setup_state 0 (m_world s0) \<and> m_width s0 = wd \<and> m_height s0 = ht
      \<and> m_keepInBounds s0 = True"
  by (simp add: initialize_def WasmTrafficSimulation_new_def setupSystems_def registerSystem_def
      WasmWorld_new_def createEntity_def addComponent_def Let_def setup_state_def SIZE_MAX_def)

lemma addComponent_release:
  assumes "e < length (m_entityMasks w)"
  shows "\<exists>w1. addComponent False e c w = Some w1
      \<and> m_entityMasks w1 = (m_entityMasks w)[e := set_bit (getComponentID (ctype_of c)) (m_entityMasks w ! e)]
      \<and> m_entities w1 = m_entities w \<and> m_freeEntities w1 = m_freeEntities w
      \<and> m_entityCount w1 = m_entityCount w \<and> m_systems w1 = m_systems w"
  using assms by (simp add: addComponent_def Let_def)

lemma createEntity_no_free:
  assumes "m_freeEntities w = []" and "m_entityCount w < SIZE_MAX"
  shows "createEntity w = Some (length (m_entities w),
            w\<lparr>m_entities := m_entities w @ [length (m_entities w)],
              m_entityMasks := m_entityMasks w @ [0],
              m_entityCount := m_entityCount w + 1\<rparr>)"
  using assms by (simp add: createEntity_def Let_def)

lemma createVehicle_setup:
  assumes "setup_state n (m_world s)" and "Suc n < SIZE_MAX"
  shows "\<exists>e s1. createVehicle False px py vx vy s = Some (e, s1)
      \<and> setup_state (Suc n) (m_world s1) \<and> m_width s1 = m_width s \<and> m_height s1 = m_height s
      \<and> m_keepInBounds s1 = m_keepInBounds s"
proof -
  let ?e = "Suc n"
  let ?w1 = "(m_world s)\<lparr>m_entities := m_entities (m_world s) @ [length (m_entities (m_world s))],
              m_entityMasks := m_entityMasks (m_world s) @ [0],
              m_entityCount := m_entityCount (m_world s) + 1\<rparr>"
  note st0 = assms(1)
  have len: "length (m_entities (m_world s)) = ?e" using st0 by (simp add: setup_state_def)
  have ce: "createEntity (m_world s) = Some (?e, ?w1)"
    using createEntity_no_free [of "m_world s"] assms by (simp add: setup_state_def)
  have m1: "m_entityMasks ?w1 = 1 # replicate n 30 @ [0]" using st0 by (simp add: setup_state_def)
  have e1: "?e < length (m_entityMasks ?w1)" using m1 by simp
  from addComponent_release [OF e1, of "Transform (new_Transform (Vector2D px py) (Vector2D vx vy))"]
  obtain w2 where a2: "addComponent False ?e (Transform (new_Transform (Vector2D px py) (Vector2D vx vy))) ?w1 = Some w2"
    and m2: "m_entityMasks w2 = (m_entityMasks ?w1)[?e := set_bit 1 (m_entityMasks ?w1 ! ?e)]"
    and r2: "m_entities w2 = m_entities ?w1" "m_freeEntities w2 = m_freeEntities ?w1"
       "m_entityCount w2 = m_entityCount ?w1" by auto
  have e2: "?e < length (m_entityMasks w2)" using m2 m1 by simp
  from addComponent_release [OF e2, of "Vehicle new_Vehicle"]
  obtain w3 where a3: "addComponent False ?e (Vehicle new_Vehicle) w2 = Some w3"
    and m3: "m_entityMasks w3 = (m_entityMasks w2)[?e := set_bit 2 (m_entityMasks w2 ! ?e)]"
    and r3: "m_entities w3 = m_entities w2" "m_freeEntities w3 = m_freeEntities w2"
       "m_entityCount w3 = m_entityCount w2" by auto
  have e3: "?e < length (m_entityMasks w3)" using m3 e2 by simp
  from addComponent_release [OF e3, of "Collision (new_Collision (Fin 2))"]
  obtain w4 where a4: "addComponent False ?e (Collision (new_Collision (Fin 2))) w3 = Some w4"
    and m4: "m_entityMasks w4 = (m_entityMasks w3)[?e := set_bit 3 (m_entityMasks w3 ! ?e)]"
    and r4: "m_entities w4 = m_entities w3" "m_freeEntities w4 = m_freeEntities w3"
       "m_entityCount w4 = m_entityCount w3" by auto
  have e4: "?e < length (m_entityMasks w4)" using m4 e3 by simp
  from addComponent_release [OF e4, of "Renderable new_Renderable"]
  obtain w5 where a5: "addComponent False ?e (Renderable new_Renderable) w4 = Some w5"
    and m5: "m_entityMasks w5 = (m_entityMasks w4)[?e := set_bit 4 (m_entityMasks w4 ! ?e)]"
    and r5: "m_entities w5 = m_entities w4" "m_freeEntities w5 = m_freeEntities w4"
       "m_entityCount w5 = m_entityCount w4" by auto
  have bits: "set_bit 4 (set_bit 3 (set_bit 2 (set_bit 1 (0 :: 32 word)))) = 30"
    by (simp add: set_bit_eq_or)
  have upd: "(replicate n (30 :: 32 word) @ [0])[n := 30] = replicate n 30 @ [30]"
    using list_update_length [of "replicate n (30 :: 32 word)" 0 "[]" 30] by simp
  have m5': "m_entityMasks w5 = 1 # replicate (Suc n) 30"
    unfolding m5 m4 m3 m2 m1
    by (simp add: nth_append bits upd replicate_append_same)
  have st: "setup_state (Suc n) w5"
    using st0 m5' r2 r3 r4 r5 by (simp add: setup_state_def)
  have "createVehicle False px py vx vy s = Some (?e, s\<lparr>m_world := w5\<rparr>)"
    using ce a2 a3 a4 a5 by (simp add: createVehicle_def)
  then show ?thesis using st by simp
qed

lemma createVehicles_setup:
  assumes "setup_state n (m_world s)" and "n + length vs < SIZE_MAX"
  shows "\<exists>s1. createVehicles False vs s = Some s1
      \<and> setup_state (n + length vs) (m_world s1) \<and> m_width s1 = m_width s \<and> m_height s1 = m_height s
      \<and> m_keepInBounds s1 = m_keepInBounds s"
  using assms
proof (induction vs arbitrary: n s)
  case Nil
  then show ?case by simp
next
  case (Cons v vs)
  obtain px py vx vy where v: "v = (px, py, vx, vy)" by (cases v) auto
  have small: "Suc n < SIZE_MAX" "Suc n + length vs < SIZE_MAX" using Cons.prems(2) by simp_all
  from createVehicle_setup [OF Cons.prems(1) small(1), of px py vx vy]
  obtain e s1 where c: "createVehicle False px py vx vy s = Some (e, s1)"
    and st: "setup_state (Suc n) (m_world s1)" and f: "m_width s1 = m_width s" "m_height s1 = m_height s"
      "m_keepInBounds s1 = m_keepInBounds s" by auto
  from Cons.IH [OF st small(2)] obtain s2 where "createVehicles False vs s1 = Some s2"
    "setup_state (Suc n + length vs) (m_world s2)" "m_width s2 = m_width s1" "m_height s2 = m_height s1"
    "m_keepInBounds s2 = m_keepInBounds s1" by auto
  then show ?case using c f by (simp add: v)
qed

lemma clearFrom_keeps_below:
  "j < i \<Longrightarrow> m_entityMasks (clearFrom i w) ! j = m_entityMasks w ! j"
proof (induction i w rule: clearFrom.induct)
  case (1 i w)
  show ?case
  proof (cases "i < getEntityCount w")
    case False
    then show ?thesis by (subst clearFrom.simps) simp
  next
    case True
    let ?w1 = "if entityExists w i then destroyEntity i w else w"
    have eq: "clearFrom i w = clearFrom (i + 1) ?w1" using True by (subst clearFrom.simps) simp
    have "m_entityMasks (clearFrom (i + 1) ?w1) ! j = m_entityMasks ?w1 ! j"
      using "1.IH" [OF True] "1.prems" by simp
    moreover have "m_entityMasks ?w1 ! j = m_entityMasks w ! j"
      using "1.prems" by (simp add: destroyEntity_masks)
    ultimately show ?thesis using eq by simp
  qed
qed

lemma bounds_mask: "requiredMask [TBounds] = 1"
  by (simp add: requiredMask_def)

lemma setup_state_clear_no_bounds:
  assumes "setup_state n w"
  shows "getEntitiesWith [TBounds] (clearFrom 0 w) = [] \<and> \<not> entityExists (clearFrom 0 w) 0"
proof -
  have len: "length (m_entities w) = length (m_entityMasks w)" using assms by (simp add: setup_state_def)
  have ex: "entityExists w 0" using assms by (simp add: setup_state_def entityExists_def)
  have c: "0 < getEntityCount w" using assms by (simp add: setup_state_def getEntityCount_def)
  have eq: "clearFrom 0 w = clearFrom 1 (destroyEntity 0 w)"
    using c ex by (subst clearFrom.simps) simp
  have masks1: "m_entityMasks (destroyEntity 0 w) = 0 # replicate n 30"
    using assms ex by (simp add: destroyEntity_masks setup_state_def)
  have each: "m_entityMasks (clearFrom 0 w) ! j AND 1 \<noteq> 1" if j: "j < Suc n" for j
  proof -
    have "m_entityMasks (destroyEntity 0 w) ! j = 0 \<or> m_entityMasks (destroyEntity 0 w) ! j = 30"
      using j by (cases j) (simp_all add: masks1)
    moreover have "m_entityMasks (clearFrom 0 w) ! j = m_entityMasks (destroyEntity 0 w) ! j
        \<or> m_entityMasks (clearFrom 0 w) ! j = 0"
      unfolding eq by (rule clearFrom_mask_cases)
    ultimately have "m_entityMasks (clearFrom 0 w) ! j = 0 \<or> m_entityMasks (clearFrom 0 w) ! j = 30"
      by auto
    moreover have "(30 :: 32 word) AND 1 \<noteq> 1" by simp
    ultimately show ?thesis by auto
  qed
  have l: "length (m_entityMasks (clearFrom 0 w)) = Suc n"
    using assms by (simp add: setup_state_def)
  have 1: "getEntitiesWith [TBounds] (clearFrom 0 w) = []"
    using each l by (simp add: getEntitiesWith_def bounds_mask filter_empty_conv del: clearFrom_length_masks)
  have "m_entityMasks (clearFrom 1 (destroyEntity 0 w)) ! 0 = m_entityMasks (destroyEntity 0 w) ! 0"
    by (rule clearFrom_keeps_below) simp
  then have 2: "\<not> entityExists (clearFrom 0 w) 0"
    unfolding eq by (simp add: entityExists_def masks1)
  show ?thesis using 1 2 by simp
qed


lemma findGlobalBounds_clear:
  assumes "length (m_entities w) = length (m_entityMasks w)"
  shows "findGlobalBounds dbg (clearFrom 0 w) = Some None"
proof -
  have "\<forall>j < max 0 (getEntityCount (clearFrom 0 w)). \<not> entityExists (clearFrom 0 w) j"
    by (rule clearFrom_below [OF assms]) simp
  then have "find (\<lambda>i. entityExists (clearFrom 0 w) i \<and> hasComponent TBounds i (clearFrom 0 w))
                  [0..<getEntityCount (clearFrom 0 w)] = None"
    by (auto simp: find_None_iff)
  then show ?thesis by (simp add: findGlobalBounds_def)
qed

text \<open>
  What \<^verbatim>\<open>clear()\<close> does reach after \<^verbatim>\<open>initialize\<close> and a sequence of \<^verbatim>\<open>createVehicle\<close> calls
  on a new facade (assertions compiled out): \<^verbatim>\<open>getVehicleCount()\<close> returns 0, because it
  scans the identifiers below the entity count only; the bounds entity 0 is destroyed
  and no entity has a bounds component, so the search of the bounds system finds
  none.  The width and the height survive in the fields \<^verbatim>\<open>m_width\<close> and \<^verbatim>\<open>m_height\<close>,
  which no function reads.
\<close>

lemma clear_after_setup:
  assumes "length vs < SIZE_MAX"
  shows "\<exists>s0 s1. initialize False wd ht WasmTrafficSimulation_new = Some s0
     \<and> createVehicles False vs s0 = Some s1
     \<and> getVehicleCount (clear s1) = 0
     \<and> \<not> entityExists (m_world (clear s1)) 0
     \<and> getEntitiesWith [TBounds] (m_world (clear s1)) = []
     \<and> findGlobalBounds False (m_world (clear s1)) = Some None
     \<and> m_width (clear s1) = wd \<and> m_height (clear s1) = ht"
proof -
  from initialize_setup [of wd ht]
  obtain s0 where i: "initialize False wd ht WasmTrafficSimulation_new = Some s0"
    and st0: "setup_state 0 (m_world s0)" and f0: "m_width s0 = wd" "m_height s0 = ht" by auto
  from createVehicles_setup [OF st0, of vs] assms
  obtain s1 where c: "createVehicles False vs s0 = Some s1"
    and st1: "setup_state (0 + length vs) (m_world s1)"
    and f1: "m_width s1 = m_width s0" "m_height s1 = m_height s0" by auto
  have len: "length (m_entities (m_world s1)) = length (m_entityMasks (m_world s1))"
    using st1 by (simp add: setup_state_def)
  have 1: "getVehicleCount (clear s1) = 0" by (rule getVehicleCount_clear [OF len])
  have 2: "getEntitiesWith [TBounds] (m_world (clear s1)) = [] \<and> \<not> entityExists (m_world (clear s1)) 0"
    using setup_state_clear_no_bounds [OF st1] by (simp add: clear_def)
  have 3: "findGlobalBounds False (m_world (clear s1)) = Some None"
    using findGlobalBounds_clear [OF len] by (simp add: clear_def)
  have 4: "m_width (clear s1) = wd \<and> m_height (clear s1) = ht"
    using f0 f1 by (simp add: clear_def)
  show ?thesis using i c 1 2 3 4 by blast
qed

lemmas eval_defs = initialize_def createVehicle_def createEntity_def addComponent_def WasmTrafficSimulation_new_def
     setupSystems_def registerSystem_def WasmWorld_new_def Let_def new_Bounds_def new_Transform_def new_Vehicle_def
     new_Collision_def new_Renderable_def pool_createComponent_def clear_def clearFrom.simps getEntityCount_def
     entityExists_def destroyEntity_def removeFromPools_def pool_removeComponent_def Vector2D_def
     SIZE_MAX_def

lemma upt4: "[0..<4] = [0, 1, 2, 3]"
  by (simp add: upt_rec)

lemmas tick_defs = update_def WasmWorld_update_def runSystem_def movementSystem_def boundsSystem_def
  collisionSystem_def trafficSignalSystem_def getEntitiesWith_def requiredMask_def upt4
  getTransform_def getComponent_def pool_getComponent_def putComponent_def moveTransform_def
  findGlobalBounds_def hasComponent_def getCollision_def resetCollision_def collidePair_def overlapping_def
  fgreater_def

text \<open>
  Claim C1 (\<^verbatim>\<open>clear()\<close> leaves zero alive entities, \<^verbatim>\<open>update\<close> moves no vehicle, and
  the global bounds component is present again).  The code does otherwise.  After
  \<^verbatim>\<open>initialize(100, 100)\<close>, three vehicles and \<^verbatim>\<open>clear()\<close>, the entities 2 and 3 still
  exist: the loop under the comment \<^verbatim>\<open>// Destroy all entities\<close> reads its bound
  \<^verbatim>\<open>getEntityCount()\<close> again at every round, the bound shrinks with every
  \<^verbatim>\<open>destroyEntity\<close>, and the loop stops at identifier 2.  No entity has a bounds
  component afterwards, and the next \<^verbatim>\<open>update(1)\<close> moves vehicle 3 from \<open>(30, 30)\<close> to
  \<open>(31, 30)\<close>.
\<close>

theorem clear_leaves_entities_alive:
  "map_option aliveEntities scenario_cleared = Some [2, 3]
   \<and> map_option (getEntitiesWith [TBounds] \<circ> m_world) scenario_cleared = Some []
   \<and> Option.bind scenario_cleared (getVehiclePosition False 3) = Some (Vector2D (Fin 30) (Fin 30))
   \<and> Option.bind scenario_cleared_tick (getVehiclePosition False 3) = Some (Vector2D (Fin 31) (Fin 30))"
proof -
  have 1: "map_option aliveEntities scenario_cleared = Some [2, 3]"
    unfolding scenario_cleared_def scenario_three_vehicles_def
    by (simp add: eval_defs aliveEntities_def upt4)
  have 2: "map_option (getEntitiesWith [TBounds] \<circ> m_world) scenario_cleared = Some []"
    unfolding scenario_cleared_def scenario_three_vehicles_def
    by (simp add: eval_defs getEntitiesWith_def requiredMask_def upt4)
  have 3: "Option.bind scenario_cleared (getVehiclePosition False 3) = Some (Vector2D (Fin 30) (Fin 30))"
    unfolding scenario_cleared_def scenario_three_vehicles_def
    by (simp add: eval_defs getVehiclePosition_def hasComponent_def getTransform_def getComponent_def
        pool_getComponent_def)
  have 4: "Option.bind scenario_cleared_tick (getVehiclePosition False 3) = Some (Vector2D (Fin 31) (Fin 30))"
    unfolding scenario_cleared_tick_def scenario_cleared_def scenario_three_vehicles_def
    by (simp add: eval_defs tick_defs getVehiclePosition_def)
  show ?thesis using 1 2 3 4 by simp
qed

text \<open>With assertions compiled in, \<^verbatim>\<open>initialize\<close> on a new facade aborts.\<close>

lemma initialize_debug_aborts:
  "initialize True wd ht WasmTrafficSimulation_new = None"
  by (simp add: initialize_def WasmTrafficSimulation_new_def setupSystems_def registerSystem_def
      WasmWorld_new_def createEntity_def addComponent_def Let_def entityExists_def)

subsection \<open>The order of the systems\<close>

text \<open>
  C3.  On a new facade the systems are registered in the order Movement, Bounds,
  Collision, Signal.  Each \<^verbatim>\<open>setRoadNetwork\<close> appends one more path-following system
  at the end: after \<^verbatim>\<open>setRoadNetwork(p)\<close> and \<^verbatim>\<open>setRoadNetwork(q)\<close> a tick runs
  Movement, Bounds, Collision, Signal, Path-Following on \<open>p\<close>, Path-Following on \<open>q\<close>.
\<close>

theorem systems_after_setRoadNetwork:
  "m_systems (m_world WasmTrafficSimulation_new)
     = [MovementSystem, BoundsSystem, CollisionSystem, TrafficSignalSystem]
   \<and> m_systems (m_world (setRoadNetwork (Some q) (setRoadNetwork (Some p) WasmTrafficSimulation_new)))
     = [MovementSystem, BoundsSystem, CollisionSystem, TrafficSignalSystem,
        PathFollowingSystem (Some p), PathFollowingSystem (Some q)]"
  by (simp add: setRoadNetwork_def WasmTrafficSimulation_new_def setupSystems_def registerSystem_def
      WasmWorld_new_def)

text \<open>The tick runs the registered systems in the order of the list, each once for each
  of its entries.\<close>

lemma update_two_networks:
  assumes "s = setRoadNetwork (Some q) (setRoadNetwork (Some p) WasmTrafficSimulation_new)"
  shows "WasmWorld_update dbg h dt (m_world s) =
     Option.bind (movementSystem dbg dt (m_world s)) (\<lambda>w1.
     Option.bind (boundsSystem dbg dt w1) (\<lambda>w2.
     Option.bind (collisionSystem dbg dt w2) (\<lambda>w3.
     Option.bind (trafficSignalSystem dbg dt w3) (\<lambda>w4.
     Option.bind (runSystem dbg h dt (PathFollowingSystem (Some p)) w4) (\<lambda>w5.
     runSystem dbg h dt (PathFollowingSystem (Some q)) w5)))))"
  unfolding assms WasmWorld_update_def
  by (simp add: setRoadNetwork_def WasmTrafficSimulation_new_def setupSystems_def registerSystem_def
      WasmWorld_new_def runSystem_def split: option.splits)

section \<open>Properties of the components\<close>

lemma getComponent_slot:
  "getComponent dbg t e w =
     (if dbg \<and> \<not> (entityExists w e \<and> bit (m_entityMasks w ! e) (getComponentID t)) then None
      else slot w t e)"
  by (auto simp: getComponent_def slot_def Let_def)

lemma bit_imp_nonzero: "bit (m :: 32 word) n \<Longrightarrow> m \<noteq> 0"
  by auto

lemma getComponent_ok:
  assumes "pools_ok w" and "e < length (m_entityMasks w)"
    and "bit (m_entityMasks w ! e) (getComponentID t)"
  shows "getComponent dbg t e w = slot w t e \<and> (\<exists>c. slot w t e = Some c \<and> ctype_of c = t)"
proof -
  have "entityExists w e" using assms bit_imp_nonzero [OF assms(3)]
    by (simp add: pools_ok_def entityExists_def)
  then show ?thesis using assms by (simp add: getComponent_slot pools_ok_def)
qed

lemma putComponent_masks [simp]: "m_entityMasks (putComponent e c w) = m_entityMasks w"
  by (simp add: putComponent_def Let_def split: option.splits)

lemma putComponent_entities [simp]: "m_entities (putComponent e c w) = m_entities w"
  by (simp add: putComponent_def Let_def split: option.splits)

lemma putComponent_count [simp]: "m_entityCount (putComponent e c w) = m_entityCount w"
  by (simp add: putComponent_def Let_def split: option.splits)

lemma putComponent_free [simp]: "m_freeEntities (putComponent e c w) = m_freeEntities w"
  by (simp add: putComponent_def Let_def split: option.splits)

lemma putComponent_exists [simp]: "entityExists (putComponent e c w) e' = entityExists w e'"
  by (simp add: entityExists_def)

lemma putComponent_has [simp]: "hasComponent t e' (putComponent e c w) = hasComponent t e' w"
  by (simp add: hasComponent_def)

lemma putComponent_query [simp]: "getEntitiesWith ts (putComponent e c w) = getEntitiesWith ts w"
  by (simp add: getEntitiesWith_def)

lemma slot_writable: "slot w t e = Some c \<Longrightarrow> writable w t e"
  by (auto simp: slot_def writable_def pool_getComponent_def split: if_splits option.splits)

lemma slot_putComponent:
  "slot (putComponent e c w) t e' =
     (if t = ctype_of c \<and> e' = e \<and> writable w t e then Some c else slot w t e')"
proof (cases "getComponentID (ctype_of c) < length (m_componentPools w)")
  case False
  then show ?thesis by (auto simp: putComponent_def slot_def writable_def Let_def)
next
  case True
  show ?thesis
  proof (cases "m_componentPools w ! getComponentID (ctype_of c)")
    case None
    then show ?thesis using True by (auto simp: putComponent_def slot_def writable_def Let_def)
  next
    case (Some p)
    show ?thesis
    proof (cases "t = ctype_of c")
      case True': True
      then show ?thesis using True Some
        by (auto simp: putComponent_def slot_def writable_def Let_def pool_getComponent_def)
    next
      case False
      then have "getComponentID t \<noteq> getComponentID (ctype_of c)" by (simp add: getComponentID_inj)
      then show ?thesis using True Some False
        by (auto simp: putComponent_def slot_def Let_def)
    qed
  qed
qed

lemma pools_ok_putComponent:
  assumes "pools_ok w"
  shows "pools_ok (putComponent e c w)"
  using assms unfolding pools_ok_def
  by (auto simp: slot_putComponent)

lemma mask_superset:
  "(m AND requiredMask ts = requiredMask ts) \<longleftrightarrow> (\<forall>t \<in> set ts. bit m (getComponentID t))"
  for m :: "32 word"
proof
  assume eq: "m AND requiredMask ts = requiredMask ts"
  show "\<forall>t \<in> set ts. bit m (getComponentID t)"
  proof
    fix t assume "t \<in> set ts"
    then have "bit (requiredMask ts) (getComponentID t)" by (auto simp: bit_requiredMask)
    then have "bit (m AND requiredMask ts) (getComponentID t)" by (simp only: eq)
    then show "bit m (getComponentID t)" by (simp add: bit_and_iff)
  qed
next
  assume a: "\<forall>t \<in> set ts. bit m (getComponentID t)"
  show "m AND requiredMask ts = requiredMask ts"
    by (rule bit_eqI) (use a in \<open>auto simp: bit_and_iff bit_requiredMask\<close>)
qed

lemma in_getEntitiesWith:
  "e \<in> set (getEntitiesWith ts w) \<longleftrightarrow>
     e < length (m_entityMasks w) \<and> (\<forall>t \<in> set ts. bit (m_entityMasks w ! e) (getComponentID t))"
  by (auto simp: getEntitiesWith_def mask_superset)

lemma distinct_getEntitiesWith [simp]: "distinct (getEntitiesWith ts w)"
  by (simp add: getEntitiesWith_def)


lemma pool_get_create:
  "pool_getComponent e' (pool_createComponent e c p) = (if e' = e then Some c else pool_getComponent e' p)"
  by (auto simp: pool_getComponent_def pool_createComponent_def Let_def nth_append)

lemma slot_addComponent:
  assumes "addComponent dbg e c w = Some w1"
  shows "slot w1 t e' = (if t = ctype_of c \<and> e' = e then Some c else slot w t e')"
proof -
  let ?cid = "getComponentID (ctype_of c)"
  let ?pools1 = "if ?cid \<ge> length (m_componentPools w)
                 then m_componentPools w @ replicate (?cid + 1 - length (m_componentPools w)) None
                 else m_componentPools w"
  let ?pools2 = "if ?pools1 ! ?cid = None then ?pools1[?cid := Some []] else ?pools1"
  have pw1: "m_componentPools w1 = ?pools2[?cid := Some (pool_createComponent e c (the (?pools2 ! ?cid)))]"
    using assms by (auto simp: addComponent_def Let_def split: if_splits)
  have l1: "?cid < length ?pools1" by auto
  have l2: "?cid < length ?pools2" using l1 by auto
  have old: "pool_getComponent e' (the (?pools2 ! ?cid)) = slot w (ctype_of c) e'"
    using l1 by (auto simp: slot_def nth_append pool_getComponent_def split: option.splits)
  show ?thesis
  proof (cases "t = ctype_of c")
    case True
    have "slot w1 t e' = pool_getComponent e' (pool_createComponent e c (the (?pools2 ! ?cid)))"
      unfolding slot_def pw1 True using l2 by simp
    then show ?thesis using old True by (simp add: pool_get_create)
  next
    case False
    then have ne: "getComponentID t \<noteq> ?cid" by (simp add: getComponentID_inj)
    have "slot w1 t e' = slot w t e'"
      unfolding slot_def pw1 using ne
      by (auto simp: nth_append nth_list_update split: option.splits)
    then show ?thesis using False by simp
  qed
qed

lemma addComponent_masks:
  assumes "addComponent dbg e c w = Some w1"
  shows "m_entityMasks w1 = (m_entityMasks w)[e := set_bit (getComponentID (ctype_of c)) (m_entityMasks w ! e)]
     \<and> m_entities w1 = m_entities w \<and> e < length (m_entityMasks w)"
  using assms by (auto simp: addComponent_def Let_def split: if_splits)

lemma pools_ok_addComponent:
  assumes "pools_ok w" and "addComponent dbg e c w = Some w1"
  shows "pools_ok w1"
proof -
  note m = addComponent_masks [OF assms(2)]
  note s = slot_addComponent [OF assms(2)]
  show ?thesis unfolding pools_ok_def
  proof (intro conjI allI impI)
    show "length (m_entities w1) = length (m_entityMasks w1)"
      using assms(1) m by (simp add: pools_ok_def)
  next
    fix e' t
    assume a: "e' < length (m_entityMasks w1) \<and> bit (m_entityMasks w1 ! e') (getComponentID t)"
    show "\<exists>c'. slot w1 t e' = Some c' \<and> ctype_of c' = t"
    proof (cases "t = ctype_of c \<and> e' = e")
      case True
      then show ?thesis by (simp add: s)
    next
      case False
      have "bit (m_entityMasks w ! e') (getComponentID t)"
        using a False m by (auto simp: nth_list_update bit_set_bit_iff getComponentID_inj split: if_splits)
      moreover have "e' < length (m_entityMasks w)" using a m by simp
      ultimately have "\<exists>c'. slot w t e' = Some c' \<and> ctype_of c' = t"
        using assms(1) by (simp add: pools_ok_def)
      then show ?thesis using False by (simp add: s)
    qed
  qed
qed

lemma slot_createEntity:
  assumes "createEntity w = Some (e, w1)"
  shows "slot w1 t e' = slot w t e'"
  using assms by (auto simp: createEntity_def slot_def Let_def split: if_splits)

lemma pools_ok_createEntity:
  assumes "pools_ok w" and "createEntity w = Some (e, w1)"
  shows "pools_ok w1"
proof -
  have masks: "(m_entityMasks w1 = (m_entityMasks w)[e := 0] \<and> m_entities w1 = m_entities w)
      \<or> (m_entityMasks w1 = m_entityMasks w @ [0] \<and> m_entities w1 = m_entities w @ [e])"
    using assms(2) by (auto simp: createEntity_def Let_def split: if_splits)
  show ?thesis unfolding pools_ok_def
  proof (intro conjI allI impI)
    show "length (m_entities w1) = length (m_entityMasks w1)"
      using assms(1) masks by (auto simp: pools_ok_def)
  next
    fix e' t
    assume a: "e' < length (m_entityMasks w1) \<and> bit (m_entityMasks w1 ! e') (getComponentID t)"
    have "e' < length (m_entityMasks w) \<and> bit (m_entityMasks w ! e') (getComponentID t)"
      using a masks by (cases "e < length (m_entityMasks w)")
        (auto simp: nth_list_update nth_append list_update_beyond split: if_splits)
    then have "\<exists>c'. slot w t e' = Some c' \<and> ctype_of c' = t"
      using assms(1) by (simp add: pools_ok_def)
    then show "\<exists>c'. slot w1 t e' = Some c' \<and> ctype_of c' = t"
      by (simp add: slot_createEntity [OF assms(2)])
  qed
qed

lemma pools_ok_new: "pools_ok WasmWorld_new"
  by (simp add: pools_ok_def WasmWorld_new_def)


section \<open>The bounds system\<close>

lemma getTransform_ok:
  assumes "pools_ok w" and "e < length (m_entityMasks w)"
    and "bit (m_entityMasks w ! e) (getComponentID TTransform)"
  shows "\<exists>t. getTransform dbg e w = Some t \<and> slot w TTransform e = Some (Transform t)"
proof -
  from getComponent_ok [OF assms, of dbg]
  obtain c where g: "getComponent dbg TTransform e w = slot w TTransform e"
    and s: "slot w TTransform e = Some c" and t: "ctype_of c = TTransform" by auto
  from t obtain tr where "c = Transform tr" by (cases c) auto
  then show ?thesis using g s by (simp add: getTransform_def)
qed

lemma getVehicle_ok:
  assumes "pools_ok w" and "e < length (m_entityMasks w)"
    and "bit (m_entityMasks w ! e) (getComponentID TVehicle)"
  shows "\<exists>v. getVehicle dbg e w = Some v \<and> slot w TVehicle e = Some (Vehicle v)"
proof -
  from getComponent_ok [OF assms, of dbg]
  obtain c where g: "getComponent dbg TVehicle e w = slot w TVehicle e"
    and s: "slot w TVehicle e = Some c" and t: "ctype_of c = TVehicle" by auto
  from t obtain v where "c = Vehicle v" by (cases c) auto
  then show ?thesis using g s by (simp add: getVehicle_def)
qed

lemma vehicle_transform_loop:
  assumes "pools_ok w" and "distinct es"
    and "\<forall>e\<in>set es. e < length (m_entityMasks w)
            \<and> bit (m_entityMasks w ! e) (getComponentID TTransform)
            \<and> bit (m_entityMasks w ! e) (getComponentID TVehicle)"
  shows "\<exists>w'. forEach (\<lambda>e w1. case getTransform dbg e w1 of None \<Rightarrow> None
                  | Some t \<Rightarrow>
                     (case getVehicle dbg e w1 of None \<Rightarrow> None
                      | Some v \<Rightarrow> Some (putComponent e (Transform (f t)) w1))) es w = Some w'
          \<and> pools_ok w' \<and> m_entityMasks w' = m_entityMasks w
          \<and> (\<forall>e\<in>set es. \<forall>t. slot w TTransform e = Some (Transform t)
                \<longrightarrow> slot w' TTransform e = Some (Transform (f t)))
          \<and> (\<forall>e t. e \<notin> set es \<or> t \<noteq> TTransform \<longrightarrow> slot w' t e = slot w t e)"
  using assms
proof (induction es arbitrary: w)
  case Nil
  then show ?case by simp
next
  case (Cons a es)
  let ?step = "\<lambda>e w1. case getTransform dbg e w1 of None \<Rightarrow> None
                  | Some t \<Rightarrow>
                     (case getVehicle dbg e w1 of None \<Rightarrow> None
                      | Some v \<Rightarrow> Some (putComponent e (Transform (f t)) w1))"
  have a: "a < length (m_entityMasks w)" "bit (m_entityMasks w ! a) (getComponentID TTransform)"
    "bit (m_entityMasks w ! a) (getComponentID TVehicle)" using Cons.prems(3) by auto
  from getTransform_ok [OF Cons.prems(1) a(1) a(2), of dbg]
  obtain tr where gt: "getTransform dbg a w = Some tr" and st: "slot w TTransform a = Some (Transform tr)"
    by auto
  from getVehicle_ok [OF Cons.prems(1) a(1) a(3), of dbg]
  obtain v where gv: "getVehicle dbg a w = Some v" by auto
  let ?w1 = "putComponent a (Transform (f tr)) w"
  have ok1: "pools_ok ?w1" by (rule pools_ok_putComponent [OF Cons.prems(1)])
  have d: "distinct es" "a \<notin> set es" using Cons.prems(2) by auto
  have b1: "\<forall>e\<in>set es. e < length (m_entityMasks ?w1)
            \<and> bit (m_entityMasks ?w1 ! e) (getComponentID TTransform)
            \<and> bit (m_entityMasks ?w1 ! e) (getComponentID TVehicle)"
    using Cons.prems(3) by simp
  from Cons.IH [OF ok1 d(1) b1]
  obtain w' where r: "forEach ?step es ?w1 = Some w'" and ok': "pools_ok w'"
    and m': "m_entityMasks w' = m_entityMasks ?w1"
    and upd: "\<forall>e\<in>set es. \<forall>t. slot ?w1 TTransform e = Some (Transform t)
                \<longrightarrow> slot w' TTransform e = Some (Transform (f t))"
    and same: "\<forall>e t. e \<notin> set es \<or> t \<noteq> TTransform \<longrightarrow> slot w' t e = slot ?w1 t e"
    by blast
  have wr: "writable w TTransform a" by (rule slot_writable [OF st])
  have s1: "slot ?w1 t e = (if t = TTransform \<and> e = a then Some (Transform (f tr)) else slot w t e)" for t e
    using wr by (auto simp: slot_putComponent)
  have run: "forEach ?step (a # es) w = Some w'" using gt gv r by simp
  have c1: "\<forall>e\<in>set (a # es). \<forall>t. slot w TTransform e = Some (Transform t)
                \<longrightarrow> slot w' TTransform e = Some (Transform (f t))"
  proof (intro ballI allI impI)
    fix e t assume e: "e \<in> set (a # es)" and t: "slot w TTransform e = Some (Transform t)"
    show "slot w' TTransform e = Some (Transform (f t))"
    proof (cases "e = a")
      case True
      then have "slot w' TTransform e = slot ?w1 TTransform a" using same d(2) by simp
      then show ?thesis using s1 st t True by simp
    next
      case False
      then have "e \<in> set es" using e by simp
      moreover have "slot ?w1 TTransform e = Some (Transform t)" using s1 False t by simp
      ultimately show ?thesis using upd by blast
    qed
  qed
  have c2: "\<forall>e t. e \<notin> set (a # es) \<or> t \<noteq> TTransform \<longrightarrow> slot w' t e = slot w t e"
    using same s1 by auto
  show ?case using run ok' m' c1 c2 by (intro exI [of _ w']) simp
qed

lemma clampTransform_x:
  "vec_x (position (clampTransform b t)) =
     (if fless (vec_x (position t)) (Fin 0) then Fin 0
      else if fgreater (vec_x (position t)) (b_width b) then b_width b
      else vec_x (position t))
   \<and> vec_x (velocity (clampTransform b t)) =
     (if fless (vec_x (position t)) (Fin 0) \<or> fgreater (vec_x (position t)) (b_width b)
      then fmul (fneg (vec_x (velocity t))) (Fin (1 / 2))
      else vec_x (velocity t))"
  by (simp add: clampTransform_def clampAxis_def Vector2D_def split: prod.splits)

lemma clampTransform_y:
  "vec_y (position (clampTransform b t)) =
     (if fless (vec_y (position t)) (Fin 0) then Fin 0
      else if fgreater (vec_y (position t)) (b_height b) then b_height b
      else vec_y (position t))
   \<and> vec_y (velocity (clampTransform b t)) =
     (if fless (vec_y (position t)) (Fin 0) \<or> fgreater (vec_y (position t)) (b_height b)
      then fmul (fneg (vec_y (velocity t))) (Fin (1 / 2))
      else vec_y (velocity t))"
  by (simp add: clampTransform_def clampAxis_def Vector2D_def split: prod.splits)

lemma boundsSystem_clamps:
  assumes "pools_ok w" and "findGlobalBounds dbg w = Some (Some b)" and "keepInBounds b"
  shows "\<exists>w'. boundsSystem dbg dt w = Some w'
     \<and> (\<forall>e \<in> set (getEntitiesWith [TTransform, TVehicle] w).
          \<exists>t. getTransform dbg e w = Some t \<and> getTransform dbg e w' = Some (clampTransform b t))"
proof -
  let ?es = "getEntitiesWith [TTransform, TVehicle] w"
  have es: "\<forall>e\<in>set ?es. e < length (m_entityMasks w)
            \<and> bit (m_entityMasks w ! e) (getComponentID TTransform)
            \<and> bit (m_entityMasks w ! e) (getComponentID TVehicle)"
    by (simp add: in_getEntitiesWith)
  from vehicle_transform_loop [where f = "clampTransform b" and dbg = dbg,
      OF assms(1) distinct_getEntitiesWith es]
  obtain w' where r: "forEach (\<lambda>e w1. case getTransform dbg e w1 of None \<Rightarrow> None
                  | Some t \<Rightarrow>
                     (case getVehicle dbg e w1 of None \<Rightarrow> None
                      | Some v \<Rightarrow> Some (putComponent e (Transform (clampTransform b t)) w1))) ?es w = Some w'"
    and ok': "pools_ok w'" and m': "m_entityMasks w' = m_entityMasks w"
    and upd: "\<forall>e\<in>set ?es. \<forall>t. slot w TTransform e = Some (Transform t)
                \<longrightarrow> slot w' TTransform e = Some (Transform (clampTransform b t))"
    by blast
  have run: "boundsSystem dbg dt w = Some w'"
    using assms(2,3) r by (simp add: boundsSystem_def)
  have each: "\<exists>t. getTransform dbg e w = Some t \<and> getTransform dbg e w' = Some (clampTransform b t)"
    if e: "e \<in> set ?es" for e
  proof -
    have b: "e < length (m_entityMasks w)" "bit (m_entityMasks w ! e) (getComponentID TTransform)"
      using es e by auto
    from getTransform_ok [OF assms(1) b, of dbg]
    obtain t where g: "getTransform dbg e w = Some t" and s: "slot w TTransform e = Some (Transform t)"
      by auto
    have s': "slot w' TTransform e = Some (Transform (clampTransform b t))" using upd e s by blast
    have b': "e < length (m_entityMasks w')" "bit (m_entityMasks w' ! e) (getComponentID TTransform)"
      using b m' by auto
    from getTransform_ok [OF ok' b', of dbg] s'
    have "getTransform dbg e w' = Some (clampTransform b t)" by auto
    then show ?thesis using g by simp
  qed
  show ?thesis using run each by blast
qed


lemma pools_ok_initialize:
  assumes "pools_ok (m_world s)" and "initialize dbg wd ht s = Some s1"
  shows "pools_ok (m_world s1)"
proof (cases "createEntity (m_world s)")
  case None
  then show ?thesis using assms(2) by (simp add: initialize_def)
next
  case (Some p)
  obtain e w1 where p: "p = (e, w1)" by (cases p) auto
  have c: "createEntity (m_world s) = Some (e, w1)" using Some p by simp
  have ok1: "pools_ok w1" by (rule pools_ok_createEntity [OF assms(1) c])
  show ?thesis
  proof (cases "addComponent dbg e (Bounds (new_Bounds wd ht)) w1")
    case None
    then show ?thesis using assms(2) c by (simp add: initialize_def)
  next
    case (Some w2)
    have "pools_ok w2" by (rule pools_ok_addComponent [OF ok1 Some])
    moreover have "s1 = s\<lparr>m_width := wd, m_height := ht, m_world := w2\<rparr>"
      using assms(2) c Some by (simp add: initialize_def)
    ultimately show ?thesis by simp
  qed
qed

lemma createVehicle_SomeE:
  assumes "createVehicle dbg px py vx vy s = Some (e, s1)"
  obtains w1 w2 w3 w4 w5 where
    "createEntity (m_world s) = Some (e, w1)"
    "addComponent dbg e (Transform (new_Transform (Vector2D px py) (Vector2D vx vy))) w1 = Some w2"
    "addComponent dbg e (Vehicle new_Vehicle) w2 = Some w3"
    "addComponent dbg e (Collision (new_Collision (Fin 2))) w3 = Some w4"
    "addComponent dbg e (Renderable new_Renderable) w4 = Some w5"
    "s1 = s\<lparr>m_world := w5\<rparr>"
proof (cases "createEntity (m_world s)")
  case None
  then show ?thesis using assms by (simp add: createVehicle_def)
next
  case (Some p)
  obtain e0 w1 where p: "p = (e0, w1)" by (cases p) auto
  note c = Some [unfolded p]
  show ?thesis
  proof (cases "addComponent dbg e0 (Transform (new_Transform (Vector2D px py) (Vector2D vx vy))) w1")
    case None
    then show ?thesis using assms c by (simp add: createVehicle_def)
  next
    case w2: (Some w2)
    show ?thesis
    proof (cases "addComponent dbg e0 (Vehicle new_Vehicle) w2")
      case None
      then show ?thesis using assms c w2 by (simp add: createVehicle_def)
    next
      case w3: (Some w3)
      show ?thesis
      proof (cases "addComponent dbg e0 (Collision (new_Collision (Fin 2))) w3")
        case None
        then show ?thesis using assms c w2 w3 by (simp add: createVehicle_def)
      next
        case w4: (Some w4)
        show ?thesis
        proof (cases "addComponent dbg e0 (Renderable new_Renderable) w4")
          case None
          then show ?thesis using assms c w2 w3 w4 by (simp add: createVehicle_def)
        next
          case w5: (Some w5)
          have "e = e0 \<and> s1 = s\<lparr>m_world := w5\<rparr>"
            using assms c w2 w3 w4 w5 by (simp add: createVehicle_def)
          then show ?thesis using that c w2 w3 w4 w5 by simp
        qed
      qed
    qed
  qed
qed

lemma pools_ok_createVehicle:
  assumes "pools_ok (m_world s)" and "createVehicle dbg px py vx vy s = Some (e, s1)"
  shows "pools_ok (m_world s1)"
proof -
  from assms(2) obtain w1 w2 w3 w4 w5 where
    c: "createEntity (m_world s) = Some (e, w1)"
    and a: "addComponent dbg e (Transform (new_Transform (Vector2D px py) (Vector2D vx vy))) w1 = Some w2"
      "addComponent dbg e (Vehicle new_Vehicle) w2 = Some w3"
      "addComponent dbg e (Collision (new_Collision (Fin 2))) w3 = Some w4"
      "addComponent dbg e (Renderable new_Renderable) w4 = Some w5"
    and s1: "s1 = s\<lparr>m_world := w5\<rparr>"
    by (rule createVehicle_SomeE)
  have "pools_ok w1" by (rule pools_ok_createEntity [OF assms(1) c])
  then have "pools_ok w2" by (rule pools_ok_addComponent [OF _ a(1)])
  then have "pools_ok w3" by (rule pools_ok_addComponent [OF _ a(2)])
  then have "pools_ok w4" by (rule pools_ok_addComponent [OF _ a(3)])
  then have "pools_ok w5" by (rule pools_ok_addComponent [OF _ a(4)])
  then show ?thesis by (simp add: s1)
qed

lemma pools_ok_new_facade: "pools_ok (m_world WasmTrafficSimulation_new)"
  by (simp add: WasmTrafficSimulation_new_def setupSystems_def registerSystem_def pools_ok_def
      WasmWorld_new_def)


lemmas bounds_defs = setKeepInBounds_def getBounds_def clampTransform_def clampAxis_def getVehicle_def
  getVehicleVelocity_def getVehiclePosition_def

lemma upt2: "[0..<2] = [0, 1]"
  by (simp add: upt_rec)

lemma scenario_outside_ok: "pools_ok scenario_outside"
proof -
  obtain s0 where i: "initialize False (Fin 100) (Fin 100) WasmTrafficSimulation_new = Some s0"
    using initialize_setup [of "Fin 100" "Fin 100"] by auto
  have st: "setup_state 0 (m_world s0)" using initialize_setup [of "Fin 100" "Fin 100"] i by auto
  obtain e s1 where c: "createVehicle False (Fin 145) (Fin 50) (Fin 50) (Fin 0) s0 = Some (e, s1)"
    using createVehicle_setup [OF st] by (simp add: SIZE_MAX_def) blast
  have "pools_ok (m_world s0)" by (rule pools_ok_initialize [OF pools_ok_new_facade i])
  then have "pools_ok (m_world s1)" by (rule pools_ok_createVehicle [OF _ c])
  then show ?thesis by (simp add: scenario_outside_def i c)
qed

lemma sc3: "findGlobalBounds False scenario_outside = Some (Some (new_Bounds (Fin 100) (Fin 100)))"
  unfolding scenario_outside_def
  by (simp add: eval_defs tick_defs bounds_defs upt2)

lemma sc4: "getEntitiesWith [TTransform, TVehicle] scenario_outside = [1]"
  unfolding scenario_outside_def
  by (simp add: eval_defs tick_defs bounds_defs upt2)

lemma sc5: "getTransform False 1 scenario_outside
    = Some (new_Transform (Vector2D (Fin 145) (Fin 50)) (Vector2D (Fin 50) (Fin 0)))"
  unfolding scenario_outside_def
  by (simp add: eval_defs tick_defs bounds_defs upt2)



text \<open>
  With the assertions compiled out, the end-to-end scenario (bounds 100 by 100, vehicle
  created at \<open>(95, 50)\<close> with velocity \<open>(50, 0)\<close>, \<open>keepInBounds\<close> true, one tick with
  \<open>dt = 1\<close>) ends with the vehicle at position \<open>(100, 50)\<close> with velocity \<open>(-25, 0)\<close>.
  In every store that satisfies the store invariant and in which the search of the
  bounds system finds a bounds component \<open>b\<close> with \<open>keepInBounds\<close> true, the bounds
  system returns and every entity with transform and vehicle has its transform
  replaced by \<open>clampTransform b\<close> of it: on each axis, a position below 0 becomes 0, a
  position above the width (the height) becomes the width (the height), and exactly
  when one of the two happens the velocity on that axis is negated and multiplied by
  \<open>1/2\<close>.
\<close>

lemma clamp_when_found:
  "Option.bind scenario_bounds (getVehiclePosition False 1) = Some (Vector2D (Fin 100) (Fin 50))
   \<and> Option.bind scenario_bounds (getVehicleVelocity False 1) = Some (Vector2D (Fin (- 25)) (Fin 0))
   \<and> (\<forall>dbg dt w b. pools_ok w \<and> findGlobalBounds dbg w = Some (Some b) \<and> keepInBounds b \<longrightarrow>
        (\<exists>w'. boundsSystem dbg dt w = Some w'
           \<and> (\<forall>e \<in> set (getEntitiesWith [TTransform, TVehicle] w).
                \<exists>t. getTransform dbg e w = Some t
                   \<and> getTransform dbg e w' = Some (clampTransform b t))))
   \<and> (\<forall>b t.
        vec_x (position (clampTransform b t)) =
          (if fless (vec_x (position t)) (Fin 0) then Fin 0
           else if fgreater (vec_x (position t)) (b_width b) then b_width b
           else vec_x (position t))
        \<and> vec_x (velocity (clampTransform b t)) =
          (if fless (vec_x (position t)) (Fin 0) \<or> fgreater (vec_x (position t)) (b_width b)
           then fmul (fneg (vec_x (velocity t))) (Fin (1 / 2))
           else vec_x (velocity t))
        \<and> vec_y (position (clampTransform b t)) =
          (if fless (vec_y (position t)) (Fin 0) then Fin 0
           else if fgreater (vec_y (position t)) (b_height b) then b_height b
           else vec_y (position t))
        \<and> vec_y (velocity (clampTransform b t)) =
          (if fless (vec_y (position t)) (Fin 0) \<or> fgreater (vec_y (position t)) (b_height b)
           then fmul (fneg (vec_y (velocity t))) (Fin (1 / 2))
           else vec_y (velocity t)))"
proof -
  have 1: "Option.bind scenario_bounds (getVehiclePosition False 1) = Some (Vector2D (Fin 100) (Fin 50))"
    unfolding scenario_bounds_def by (simp add: eval_defs tick_defs bounds_defs upt2)
  have 2: "Option.bind scenario_bounds (getVehicleVelocity False 1) = Some (Vector2D (Fin (- 25)) (Fin 0))"
    unfolding scenario_bounds_def by (simp add: eval_defs tick_defs bounds_defs upt2)
  show ?thesis
    using 1 2 boundsSystem_clamps clampTransform_x clampTransform_y by (intro conjI allI impI) blast+
qed

lemma clamp_when_found_example:
  "pools_ok scenario_outside
   \<and> findGlobalBounds False scenario_outside = Some (Some (new_Bounds (Fin 100) (Fin 100)))
   \<and> keepInBounds (new_Bounds (Fin 100) (Fin 100))
   \<and> (\<exists>w'. boundsSystem False (Fin 1) scenario_outside = Some w'
        \<and> map_option position (getTransform False 1 w') = Some (Vector2D (Fin 100) (Fin 50))
        \<and> map_option velocity (getTransform False 1 w') = Some (Vector2D (Fin (- 25)) (Fin 0)))"
proof -
  have k: "keepInBounds (new_Bounds (Fin 100) (Fin 100))" by (simp add: new_Bounds_def)
  from clamp_when_found have
    "pools_ok scenario_outside
       \<and> findGlobalBounds False scenario_outside = Some (Some (new_Bounds (Fin 100) (Fin 100)))
       \<and> keepInBounds (new_Bounds (Fin 100) (Fin 100)) \<longrightarrow>
     (\<exists>w'. boundsSystem False (Fin 1) scenario_outside = Some w'
        \<and> (\<forall>e \<in> set (getEntitiesWith [TTransform, TVehicle] scenario_outside).
             \<exists>t. getTransform False e scenario_outside = Some t
                \<and> getTransform False e w' = Some (clampTransform (new_Bounds (Fin 100) (Fin 100)) t)))"
    by blast
  then obtain w' where r: "boundsSystem False (Fin 1) scenario_outside = Some w'"
    and e: "\<forall>e \<in> set (getEntitiesWith [TTransform, TVehicle] scenario_outside).
             \<exists>t. getTransform False e scenario_outside = Some t
                \<and> getTransform False e w' = Some (clampTransform (new_Bounds (Fin 100) (Fin 100)) t)"
    using scenario_outside_ok sc3 k by blast
  from e have "getTransform False 1 w'
      = Some (clampTransform (new_Bounds (Fin 100) (Fin 100))
               (new_Transform (Vector2D (Fin 145) (Fin 50)) (Vector2D (Fin 50) (Fin 0))))"
    using sc5 by (auto simp: sc4)
  then have "map_option position (getTransform False 1 w') = Some (Vector2D (Fin 100) (Fin 50))
      \<and> map_option velocity (getTransform False 1 w') = Some (Vector2D (Fin (- 25)) (Fin 0))"
    by (simp add: clampTransform_def clampAxis_def new_Bounds_def new_Transform_def Vector2D_def
        fgreater_def)
  then show ?thesis using scenario_outside_ok sc3 k r by blast
qed

text \<open>
  Claim C5 (the end-to-end bounds scenario, and the clamp on every entity with transform
  and vehicle).  The code does otherwise.  The build script compiles the assertions
  in, and then the first call of the scenario, \<^verbatim>\<open>initialize(100, 100)\<close>, aborts:
  \<^verbatim>\<open>addComponent\<close> asserts \<^verbatim>\<open>entityExists(entity)\<close> for the entity that \<^verbatim>\<open>createEntity\<close> has
  just returned, which has no component yet and therefore does not exist; the scenario
  has no result.  With the assertions compiled out the scenario ends as the claim
  says, at position \<open>(100, 50)\<close> with velocity \<open>(-25, 0)\<close>, but the clamp still does not
  reach every entity with transform and vehicle: the search of the bounds system scans
  the identifiers below the entity count only.  After three vehicles at \<open>(95, 50)\<close> with
  velocity \<open>(50, 0)\<close>, \<^verbatim>\<open>initialize(100, 100)\<close> and \<^verbatim>\<open>clear()\<close>, the entities 2 (a vehicle)
  and 3 (with the bounds component 100 by 100, \<open>keepInBounds\<close> true) are alive, the
  search stops below identifier 2, and \<^verbatim>\<open>update(1)\<close> leaves vehicle 2 at \<open>(145, 50)\<close> with
  velocity \<open>(50, 0)\<close>.
\<close>

theorem bounds_scenario_aborts:
  "initialize True (Fin 100) (Fin 100) WasmTrafficSimulation_new = None
   \<and> scenario_bounds_asserting = None
   \<and> Option.bind scenario_bounds (getVehiclePosition False 1) = Some (Vector2D (Fin 100) (Fin 50))
   \<and> Option.bind scenario_bounds (getVehicleVelocity False 1) = Some (Vector2D (Fin (- 25)) (Fin 0))
   \<and> map_option aliveEntities scenario_bounds_lost = Some [2, 3]
   \<and> Option.bind scenario_bounds_lost (\<lambda>s. getBounds False 3 (m_world s))
        = Some \<lparr>b_width = Fin 100, b_height = Fin 100, keepInBounds = True\<rparr>
   \<and> Option.bind scenario_bounds_lost (getVehiclePosition False 2) = Some (Vector2D (Fin 145) (Fin 50))
   \<and> Option.bind scenario_bounds_lost (getVehicleVelocity False 2) = Some (Vector2D (Fin 50) (Fin 0))"
proof -
  have 0: "initialize True (Fin 100) (Fin 100) WasmTrafficSimulation_new = None"
    by (rule initialize_debug_aborts)
  then have 1: "scenario_bounds_asserting = None" by (simp add: scenario_bounds_asserting_def)
  have 2: "Option.bind scenario_bounds (getVehiclePosition False 1) = Some (Vector2D (Fin 100) (Fin 50))"
    unfolding scenario_bounds_def by (simp add: eval_defs tick_defs bounds_defs upt2)
  have 3: "Option.bind scenario_bounds (getVehicleVelocity False 1) = Some (Vector2D (Fin (- 25)) (Fin 0))"
    unfolding scenario_bounds_def by (simp add: eval_defs tick_defs bounds_defs upt2)
  have 4: "map_option aliveEntities scenario_bounds_lost = Some [2, 3]"
    unfolding scenario_bounds_lost_def
    by (simp add: eval_defs tick_defs bounds_defs aliveEntities_def upt2)
  have 5: "Option.bind scenario_bounds_lost (\<lambda>s. getBounds False 3 (m_world s))
      = Some \<lparr>b_width = Fin 100, b_height = Fin 100, keepInBounds = True\<rparr>"
    unfolding scenario_bounds_lost_def
    by (simp add: eval_defs tick_defs bounds_defs upt2)
  have 6: "Option.bind scenario_bounds_lost (getVehiclePosition False 2) = Some (Vector2D (Fin 145) (Fin 50))"
    unfolding scenario_bounds_lost_def
    by (simp add: eval_defs tick_defs bounds_defs upt2)
  have 7: "Option.bind scenario_bounds_lost (getVehicleVelocity False 2) = Some (Vector2D (Fin 50) (Fin 0))"
    unfolding scenario_bounds_lost_def
    by (simp add: eval_defs tick_defs bounds_defs upt2)
  show ?thesis using 0 1 2 3 4 5 6 7 by simp
qed

section \<open>The collision system\<close>

lemma getCollision_ok:
  assumes "pools_ok w" and "e < length (m_entityMasks w)"
    and "bit (m_entityMasks w ! e) (getComponentID TCollision)"
  shows "\<exists>c. getCollision dbg e w = Some c \<and> slot w TCollision e = Some (Collision c)"
proof -
  from getComponent_ok [OF assms, of dbg]
  obtain c where g: "getComponent dbg TCollision e w = slot w TCollision e"
    and s: "slot w TCollision e = Some c" and t: "ctype_of c = TCollision" by auto
  from t obtain cc where "c = Collision cc" by (cases c) auto
  then show ?thesis using g s by (simp add: getCollision_def)
qed

lemma writable_putComponent [simp]: "writable (putComponent e c w) t e' = writable w t e'"
proof (cases "getComponentID (ctype_of c) < length (m_componentPools w)")
  case False
  then show ?thesis by (simp add: putComponent_def Let_def)
next
  case True
  show ?thesis
  proof (cases "m_componentPools w ! getComponentID (ctype_of c)")
    case None
    then show ?thesis using True by (simp add: putComponent_def Let_def)
  next
    case (Some p)
    then show ?thesis using True
      by (auto simp: putComponent_def Let_def writable_def nth_list_update)
  qed
qed

lemma query_ok_putComponent: "query_ok es w \<Longrightarrow> query_ok es (putComponent e c w)"
  by (simp add: query_ok_def pools_ok_putComponent)

lemma resetCollision_loop:
  assumes "query_ok es w" and "distinct xs" and "set xs \<subseteq> set es"
  shows "\<exists>w'. forEach (resetCollision dbg) xs w = Some w' \<and> query_ok es w'
     \<and> m_entityMasks w' = m_entityMasks w
     \<and> (\<forall>e \<in> set xs. collidingWithOf w' e = [] \<and> \<not> collidingOf w' e)
     \<and> (\<forall>e. e \<notin> set xs \<longrightarrow> slot w' TCollision e = slot w TCollision e)"
  using assms
proof (induction xs arbitrary: w)
  case Nil
  then show ?case by simp
next
  case (Cons a xs)
  have a: "a < length (m_entityMasks w)" "bit (m_entityMasks w ! a) (getComponentID TCollision)"
    and ok: "pools_ok w" using Cons.prems by (auto simp: query_ok_def)
  from getCollision_ok [OF ok a, of dbg]
  obtain c where g: "getCollision dbg a w = Some c" and s: "slot w TCollision a = Some (Collision c)" by auto
  let ?c1 = "c\<lparr>colliding := False, collidingWith := []\<rparr>"
  let ?w1 = "putComponent a (Collision ?c1) w"
  have r1: "resetCollision dbg a w = Some ?w1" using g by (simp add: resetCollision_def)
  have q1: "query_ok es ?w1" by (rule query_ok_putComponent [OF Cons.prems(1)])
  have d: "distinct xs" "a \<notin> set xs" "set xs \<subseteq> set es" using Cons.prems by auto
  from Cons.IH [OF q1 d(1) d(3)]
  obtain w' where r: "forEach (resetCollision dbg) xs ?w1 = Some w'" and q': "query_ok es w'"
    and m': "m_entityMasks w' = m_entityMasks ?w1"
    and z: "\<forall>e \<in> set xs. collidingWithOf w' e = [] \<and> \<not> collidingOf w' e"
    and same: "\<forall>e. e \<notin> set xs \<longrightarrow> slot w' TCollision e = slot ?w1 TCollision e" by blast
  have wr: "writable w TCollision a" by (rule slot_writable [OF s])
  have s1: "slot ?w1 TCollision e = (if e = a then Some (Collision ?c1) else slot w TCollision e)" for e
    using wr by (simp add: slot_putComponent)
  have za: "collidingWithOf w' a = [] \<and> \<not> collidingOf w' a"
    using same d(2) s1 by (simp add: collidingWithOf_def collidingOf_def)
  have "forEach (resetCollision dbg) (a # xs) w = Some w'" using r1 r by simp
  moreover have "\<forall>e. e \<notin> set (a # xs) \<longrightarrow> slot w' TCollision e = slot w TCollision e"
    using same s1 by auto
  ultimately show ?case using q' m' z za by (intro exI [of _ w']) simp
qed

lemma collidePair_effect:
  assumes "query_ok es w" and "a \<in> set es" and "b \<in> set es" and "a \<noteq> b"
  shows "\<exists>w1. collidePair dbg a b w = Some w1 \<and> query_ok es w1
     \<and> m_entityMasks w1 = m_entityMasks w
     \<and> ((\<forall>e. collidingWithOf w1 e = collidingWithOf w e \<and> collidingOf w1 e = collidingOf w e)
         \<or> (collidingWithOf w1 a = collidingWithOf w a @ [b]
            \<and> collidingWithOf w1 b = collidingWithOf w b @ [a]
            \<and> collidingOf w1 a \<and> collidingOf w1 b
            \<and> (\<forall>e. e \<noteq> a \<and> e \<noteq> b \<longrightarrow>
                  collidingWithOf w1 e = collidingWithOf w e \<and> collidingOf w1 e = collidingOf w e)))"
proof -
  have ok: "pools_ok w" using assms(1) by (simp add: query_ok_def)
  have a: "a < length (m_entityMasks w)" "bit (m_entityMasks w ! a) (getComponentID TTransform)"
    "bit (m_entityMasks w ! a) (getComponentID TCollision)"
    and b: "b < length (m_entityMasks w)" "bit (m_entityMasks w ! b) (getComponentID TTransform)"
    "bit (m_entityMasks w ! b) (getComponentID TCollision)"
    using assms by (auto simp: query_ok_def)
  from getTransform_ok [OF ok a(1,2), of dbg]
  obtain tA where gtA: "getTransform dbg a w = Some tA" and stA: "slot w TTransform a = Some (Transform tA)" by auto
  from getTransform_ok [OF ok b(1,2), of dbg]
  obtain tB where gtB: "getTransform dbg b w = Some tB" and stB: "slot w TTransform b = Some (Transform tB)" by auto
  from getCollision_ok [OF ok a(1,3), of dbg]
  obtain cA where gcA: "getCollision dbg a w = Some cA" and scA: "slot w TCollision a = Some (Collision cA)" by auto
  from getCollision_ok [OF ok b(1,3), of dbg]
  obtain cB where gcB: "getCollision dbg b w = Some cB" and scB: "slot w TCollision b = Some (Collision cB)" by auto
  show ?thesis
  proof (cases "overlapping tA tB cA cB")
    case False
    then have "collidePair dbg a b w = Some w"
      using gtA gtB gcA gcB by (simp add: collidePair_def)
    then show ?thesis using assms(1) by auto
  next
    case True
    let ?cA1 = "cA\<lparr>colliding := True, collidingWith := collidingWith cA @ [b]\<rparr>"
    let ?cB1 = "cB\<lparr>colliding := True, collidingWith := collidingWith cB @ [a]\<rparr>"
    obtain tA1 tB1 where resp: "collisionResponse (hasComponent TVehicle a w \<and> hasComponent TVehicle b w)
                              tA tB cA cB = (tA1, tB1)" by (cases "collisionResponse (hasComponent TVehicle a w \<and> hasComponent TVehicle b w)
                              tA tB cA cB") auto
    let ?w1 = "putComponent b (Transform tB1)
                     (putComponent a (Transform tA1)
                       (putComponent b (Collision ?cB1)
                         (putComponent a (Collision ?cA1) w)))"
    have run: "collidePair dbg a b w = Some ?w1"
      using gtA gtB gcA gcB True resp by (simp add: collidePair_def)
    have wrA: "writable w TCollision a" by (rule slot_writable [OF scA])
    have wrB: "writable w TCollision b" by (rule slot_writable [OF scB])
    have sl: "slot ?w1 TCollision e =
        (if e = b then Some (Collision ?cB1) else if e = a then Some (Collision ?cA1)
         else slot w TCollision e)" for e
      using wrA wrB by (simp add: slot_putComponent)
    have q: "query_ok es ?w1"
      by (intro query_ok_putComponent assms(1))
    have "collidingWithOf ?w1 a = collidingWithOf w a @ [b]"
      using sl scA assms(4) by (simp add: collidingWithOf_def)
    moreover have "collidingWithOf ?w1 b = collidingWithOf w b @ [a]"
      using sl scB by (simp add: collidingWithOf_def)
    moreover have "collidingOf ?w1 a" "collidingOf ?w1 b"
      using sl assms(4) by (simp_all add: collidingOf_def)
    moreover have "\<forall>e. e \<noteq> a \<and> e \<noteq> b \<longrightarrow>
                  collidingWithOf ?w1 e = collidingWithOf w e \<and> collidingOf ?w1 e = collidingOf w e"
      using sl by (simp add: collidingWithOf_def collidingOf_def)
    ultimately show ?thesis using run q by (intro exI [of _ ?w1]) simp
  qed
qed


lemma collision_sym_step:
  assumes "collision_sym es w" and "a \<noteq> b"
    and "collidingWithOf w1 a = collidingWithOf w a @ [b]"
    and "collidingWithOf w1 b = collidingWithOf w b @ [a]"
    and "collidingOf w1 a" and "collidingOf w1 b"
    and "\<forall>e. e \<noteq> a \<and> e \<noteq> b \<longrightarrow>
            collidingWithOf w1 e = collidingWithOf w e \<and> collidingOf w1 e = collidingOf w e"
  shows "collision_sym es w1"
  unfolding collision_sym_def
proof (intro ballI)
  fix i j assume i: "i \<in> set es" and j: "j \<in> set es"
  from assms(1) i j have old:
    "(j \<in> set (collidingWithOf w i) \<longleftrightarrow> i \<in> set (collidingWithOf w j))"
    "(j \<in> set (collidingWithOf w i) \<longrightarrow> collidingOf w i \<and> collidingOf w j)"
    by (auto simp: collision_sym_def)
  have cw: "set (collidingWithOf w1 e) =
      (if e = a then insert b (set (collidingWithOf w a))
       else if e = b then insert a (set (collidingWithOf w b))
       else set (collidingWithOf w e))" for e
    using assms(3,4,7) by auto
  have col: "collidingOf w1 e = (if e = a \<or> e = b then True else collidingOf w e)" for e
    using assms(5,6,7) by auto
  show "(j \<in> set (collidingWithOf w1 i) \<longleftrightarrow> i \<in> set (collidingWithOf w1 j))
        \<and> (j \<in> set (collidingWithOf w1 i) \<longrightarrow> collidingOf w1 i \<and> collidingOf w1 j)"
    using old assms(2) unfolding cw col by auto
qed

lemma collide_inner_loop:
  assumes "query_ok es w" and "collision_sym es w" and "a \<in> set es"
    and "set bs \<subseteq> set es" and "a \<notin> set bs"
  shows "\<exists>w'. forEach (collidePair dbg a) bs w = Some w' \<and> query_ok es w'
           \<and> collision_sym es w' \<and> m_entityMasks w' = m_entityMasks w"
  using assms
proof (induction bs arbitrary: w)
  case Nil
  then show ?case by simp
next
  case (Cons b bs)
  have b: "b \<in> set es" "a \<noteq> b" using Cons.prems by auto
  from collidePair_effect [OF Cons.prems(1) Cons.prems(3) b, of dbg]
  obtain w1 where r1: "collidePair dbg a b w = Some w1" and q1: "query_ok es w1"
    and m1: "m_entityMasks w1 = m_entityMasks w"
    and eff: "(\<forall>e. collidingWithOf w1 e = collidingWithOf w e \<and> collidingOf w1 e = collidingOf w e)
         \<or> (collidingWithOf w1 a = collidingWithOf w a @ [b]
            \<and> collidingWithOf w1 b = collidingWithOf w b @ [a]
            \<and> collidingOf w1 a \<and> collidingOf w1 b
            \<and> (\<forall>e. e \<noteq> a \<and> e \<noteq> b \<longrightarrow>
                  collidingWithOf w1 e = collidingWithOf w e \<and> collidingOf w1 e = collidingOf w e))"
    by blast
  have sym1: "collision_sym es w1"
  proof (cases "\<forall>e. collidingWithOf w1 e = collidingWithOf w e \<and> collidingOf w1 e = collidingOf w e")
    case True
    then show ?thesis using Cons.prems(2) by (simp add: collision_sym_def)
  next
    case False
    with eff show ?thesis
      using collision_sym_step [OF Cons.prems(2) b(2), of w1] by blast
  qed
  have rest: "set bs \<subseteq> set es" "a \<notin> set bs" using Cons.prems by auto
  from Cons.IH [OF q1 sym1 Cons.prems(3) rest]
  obtain w' where "forEach (collidePair dbg a) bs w1 = Some w'" "query_ok es w'"
    "collision_sym es w'" "m_entityMasks w' = m_entityMasks w1" by blast
  then show ?case using r1 m1 by (intro exI [of _ w']) simp
qed

lemma collide_outer_loop:
  assumes "query_ok es w" and "collision_sym es w" and "set xs \<subseteq> set es" and "distinct xs"
  shows "\<exists>w'. collidePairs dbg xs w = Some w' \<and> query_ok es w'
           \<and> collision_sym es w' \<and> m_entityMasks w' = m_entityMasks w"
  using assms
proof (induction xs arbitrary: w)
  case Nil
  then show ?case by simp
next
  case (Cons a xs)
  have a: "a \<in> set es" "set xs \<subseteq> set es" "a \<notin> set xs" "distinct xs" using Cons.prems by auto
  from collide_inner_loop [OF Cons.prems(1,2) a(1,2,3), of dbg]
  obtain w1 where r1: "forEach (collidePair dbg a) xs w = Some w1" and q1: "query_ok es w1"
    and s1: "collision_sym es w1" and m1: "m_entityMasks w1 = m_entityMasks w" by blast
  from Cons.IH [OF q1 s1 a(2) a(4)]
  obtain w' where "collidePairs dbg xs w1 = Some w'" "query_ok es w'"
    "collision_sym es w'" "m_entityMasks w' = m_entityMasks w1" by blast
  then show ?case using r1 m1 by (intro exI [of _ w']) simp
qed

lemma collisionSystem_sym:
  assumes "pools_ok w"
  shows "\<exists>w'. collisionSystem dbg dt w = Some w'
     \<and> query_ok (getEntitiesWith [TTransform, TCollision] w) w'
     \<and> collision_sym (getEntitiesWith [TTransform, TCollision] w) w'"
proof -
  let ?es = "getEntitiesWith [TTransform, TCollision] w"
  have q: "query_ok ?es w" using assms by (simp add: query_ok_def in_getEntitiesWith)
  from resetCollision_loop [OF q distinct_getEntitiesWith subset_refl, of dbg]
  obtain w1 where r1: "forEach (resetCollision dbg) ?es w = Some w1" and q1: "query_ok ?es w1"
    and z: "\<forall>e \<in> set ?es. collidingWithOf w1 e = [] \<and> \<not> collidingOf w1 e" by blast
  have s1: "collision_sym ?es w1" using z by (simp add: collision_sym_def)
  from collide_outer_loop [OF q1 s1 subset_refl distinct_getEntitiesWith, of dbg]
  obtain w' where "collidePairs dbg ?es w1 = Some w'" "query_ok ?es w'" "collision_sym ?es w'" by blast
  then show ?thesis using r1 by (simp add: collisionSystem_def Let_def)
qed

text \<open>
  C8.  In every store that satisfies the store invariant the collision pass returns,
  and at its end, for all entities \<open>i\<close> and \<open>j\<close> of the query for transform and
  collision: \<open>j\<close> is in the colliding-with list of \<open>i\<close> if and only if \<open>i\<close> is in the
  list of \<open>j\<close>, and if so both have their colliding flag set.
\<close>

theorem collision_symmetric:
  assumes "pools_ok w"
  shows "\<exists>w'. collisionSystem dbg dt w = Some w'
     \<and> (\<forall>i \<in> set (getEntitiesWith [TTransform, TCollision] w).
         \<forall>j \<in> set (getEntitiesWith [TTransform, TCollision] w).
           \<exists>ci cj. getCollision dbg i w' = Some ci \<and> getCollision dbg j w' = Some cj
             \<and> (j \<in> set (collidingWith ci) \<longleftrightarrow> i \<in> set (collidingWith cj))
             \<and> (j \<in> set (collidingWith ci) \<longrightarrow> colliding ci \<and> colliding cj))"
proof -
  let ?es = "getEntitiesWith [TTransform, TCollision] w"
  from collisionSystem_sym [OF assms, of dbg dt]
  obtain w' where r: "collisionSystem dbg dt w = Some w'" and q: "query_ok ?es w'"
    and s: "collision_sym ?es w'" by blast
  have each: "\<exists>c. getCollision dbg e w' = Some c \<and> collidingWithOf w' e = collidingWith c
      \<and> collidingOf w' e = colliding c" if "e \<in> set ?es" for e
  proof -
    have "pools_ok w'" "e < length (m_entityMasks w')"
      "bit (m_entityMasks w' ! e) (getComponentID TCollision)"
      using q that by (auto simp: query_ok_def)
    from getCollision_ok [OF this, of dbg] show ?thesis
      by (auto simp: collidingWithOf_def collidingOf_def)
  qed
  have "\<exists>ci cj. getCollision dbg i w' = Some ci \<and> getCollision dbg j w' = Some cj
             \<and> (j \<in> set (collidingWith ci) \<longleftrightarrow> i \<in> set (collidingWith cj))
             \<and> (j \<in> set (collidingWith ci) \<longrightarrow> colliding ci \<and> colliding cj)"
    if i: "i \<in> set ?es" and j: "j \<in> set ?es" for i j
  proof -
    from each [OF i] obtain ci where ci: "getCollision dbg i w' = Some ci"
      "collidingWithOf w' i = collidingWith ci" "collidingOf w' i = colliding ci" by blast
    from each [OF j] obtain cj where cj: "getCollision dbg j w' = Some cj"
      "collidingWithOf w' j = collidingWith cj" "collidingOf w' j = colliding cj" by blast
    from s i j have "(j \<in> set (collidingWithOf w' i) \<longleftrightarrow> i \<in> set (collidingWithOf w' j))
        \<and> (j \<in> set (collidingWithOf w' i) \<longrightarrow> collidingOf w' i \<and> collidingOf w' j)"
      by (simp add: collision_sym_def)
    then show ?thesis using ci cj by simp
  qed
  then show ?thesis using r by blast
qed

lemma scenario_two_close_ok: "pools_ok scenario_two_close"
proof -
  obtain s0 where i: "initialize False (Fin 100) (Fin 100) WasmTrafficSimulation_new = Some s0"
    and st: "setup_state 0 (m_world s0)"
    using initialize_setup [of "Fin 100" "Fin 100"] by auto
  obtain e1 s1 where c1: "createVehicle False (Fin 10) (Fin 10) (Fin 1) (Fin 0) s0 = Some (e1, s1)"
    and st1: "setup_state (Suc 0) (m_world s1)"
    using createVehicle_setup [OF st] by (simp add: SIZE_MAX_def) blast
  obtain e2 s2 where c2: "createVehicle False (Fin 11) (Fin 10) (Fin 0) (Fin 0) s1 = Some (e2, s2)"
    using createVehicle_setup [OF st1] by (simp add: SIZE_MAX_def) blast
  have "pools_ok (m_world s0)" by (rule pools_ok_initialize [OF pools_ok_new_facade i])
  then have "pools_ok (m_world s1)" by (rule pools_ok_createVehicle [OF _ c1])
  then have "pools_ok (m_world s2)" by (rule pools_ok_createVehicle [OF _ c2])
  then show ?thesis by (simp add: scenario_two_close_def i c1 c2)
qed

lemma upt3: "[0..<3] = [0, 1, 2]"
  by (simp add: upt_rec)

lemmas collision_defs = collisionResponse_def getVehicle_def

lemma tc1: "getEntitiesWith [TTransform, TCollision] scenario_two_close = [1, 2]"
  unfolding scenario_two_close_def
  by (simp add: eval_defs tick_defs upt3)

lemma tc2: "Option.bind (collisionSystem False (Fin 1) scenario_two_close) (getCollision False 1)
    = Some \<lparr>radius = Fin 2, colliding = True, collidingWith = [2]\<rparr>"
  unfolding scenario_two_close_def
  by (simp add: eval_defs tick_defs collision_defs upt3)

lemma tc3: "Option.bind (collisionSystem False (Fin 1) scenario_two_close) (getCollision False 2)
    = Some \<lparr>radius = Fin 2, colliding = True, collidingWith = [1]\<rparr>"
  unfolding scenario_two_close_def
  by (simp add: eval_defs tick_defs collision_defs upt3)


theorem collision_symmetric_witness:
  "pools_ok scenario_two_close
   \<and> getEntitiesWith [TTransform, TCollision] scenario_two_close = [1, 2]
   \<and> Option.bind (collisionSystem False (Fin 1) scenario_two_close) (getCollision False 1)
       = Some \<lparr>radius = Fin 2, colliding = True, collidingWith = [2]\<rparr>
   \<and> Option.bind (collisionSystem False (Fin 1) scenario_two_close) (getCollision False 2)
       = Some \<lparr>radius = Fin 2, colliding = True, collidingWith = [1]\<rparr>
   \<and> (\<exists>w' ci cj. collisionSystem False (Fin 1) scenario_two_close = Some w'
        \<and> getCollision False 1 w' = Some ci \<and> getCollision False 2 w' = Some cj
        \<and> (2 \<in> set (collidingWith ci) \<longleftrightarrow> 1 \<in> set (collidingWith cj)))"
proof -
  from collision_symmetric [OF scenario_two_close_ok, of False "Fin 1"]
  obtain w' where r: "collisionSystem False (Fin 1) scenario_two_close = Some w'"
    and a: "\<forall>i \<in> set (getEntitiesWith [TTransform, TCollision] scenario_two_close).
         \<forall>j \<in> set (getEntitiesWith [TTransform, TCollision] scenario_two_close).
           \<exists>ci cj. getCollision False i w' = Some ci \<and> getCollision False j w' = Some cj
             \<and> (j \<in> set (collidingWith ci) \<longleftrightarrow> i \<in> set (collidingWith cj))
             \<and> (j \<in> set (collidingWith ci) \<longrightarrow> colliding ci \<and> colliding cj)"
    by blast
  have "(1::nat) \<in> set [1, 2]" "(2::nat) \<in> set [1, 2]" by simp_all
  with a have "\<exists>ci cj. getCollision False 1 w' = Some ci \<and> getCollision False 2 w' = Some cj
             \<and> (2 \<in> set (collidingWith ci) \<longleftrightarrow> 1 \<in> set (collidingWith cj))"
    unfolding tc1 by blast
  then show ?thesis using scenario_two_close_ok tc1 tc2 tc3 r by blast
qed

section \<open>Properties of the road network\<close>

subsection \<open>Interpolation along a segment\<close>

text \<open>
  C7.  The segment that \<^verbatim>\<open>createRoadSegment(5, 5, 5, 5)\<close> constructs has length 0;
  \<^verbatim>\<open>getPointAtDistance\<close> divides the clamped distance 0 by the length 0 and returns
  the point \<open>(NaN, NaN)\<close>, not the start point \<open>(5, 5)\<close>.
\<close>

theorem point_degenerate:
  "getPointAtDistance (WasmRoadSegment_new 0 (Vector2D (Fin 5) (Fin 5)) (Vector2D (Fin 5) (Fin 5))) (Fin 0)
     = Vector2D NaN NaN
   \<and> m_startPoint (WasmRoadSegment_new 0 (Vector2D (Fin 5) (Fin 5)) (Vector2D (Fin 5) (Fin 5)))
     = Vector2D (Fin 5) (Fin 5)"
  by (simp add: getPointAtDistance_def WasmRoadSegment_new_def Vector2D_def Let_def fmax_def fmin_def)

text \<open>The same at every distance, for every segment of length 0.\<close>

lemma point_degenerate_all:
  "m_length seg = Fin 0 \<Longrightarrow> getPointAtDistance seg d = Vector2D NaN NaN"
  by (cases d; cases "vec_x (m_startPoint seg)"; cases "vec_y (m_startPoint seg)";
      cases "vec_x (m_endPoint seg)"; cases "vec_y (m_endPoint seg)")
     (simp_all add: getPointAtDistance_def Vector2D_def Let_def fmax_def fmin_def)

text \<open>On a segment with two different finite end points (in the idealisation of
  floats as reals): distance 0 gives the start point, the length gives the end point, and
  the point at distance \<open>d\<close> lies \<open>max 0 (min d length)\<close> along the direction of the
  segment, which is monotone in \<open>d\<close>.\<close>

lemma along_aux:
  fixes a b c L :: real
  assumes "L * L = a\<^sup>2 + b\<^sup>2" and "0 < L"
  shows "(a * (c / L) * a + b * (c / L) * b) / L = c"
proof -
  have "(a * (c / L) * a + b * (c / L) * b) / L = c * (a\<^sup>2 + b\<^sup>2) / (L * L)"
    using assms(2) by (simp add: power2_eq_square field_simps)
  also have "\<dots> = c * (L * L) / (L * L)" by (simp only: assms(1))
  also have "\<dots> = c" using assms(2) by simp
  finally show ?thesis .
qed

lemma point_proper:
  fixes x1 y1 x2 y2 :: real
  assumes "(x1, y1) \<noteq> (x2, y2)"
    and seg_def: "seg = WasmRoadSegment_new i (Vector2D (Fin x1) (Fin y1)) (Vector2D (Fin x2) (Fin y2))"
  shows "getPointAtDistance seg (Fin 0) = m_startPoint seg"
    and "getPointAtDistance seg (m_length seg) = m_endPoint seg"
    and "along x1 y1 x2 y2 (getPointAtDistance seg (Fin d))
           = max 0 (min d (sqrt ((x2 - x1)\<^sup>2 + (y2 - y1)\<^sup>2)))"
    and "d \<le> d' \<Longrightarrow> along x1 y1 x2 y2 (getPointAtDistance seg (Fin d))
           \<le> along x1 y1 x2 y2 (getPointAtDistance seg (Fin d'))"
proof -
  let ?L = "sqrt ((x2 - x1)\<^sup>2 + (y2 - y1)\<^sup>2)"
  have pos: "0 < (x2 - x1)\<^sup>2 + (y2 - y1)\<^sup>2"
    using assms(1) by (auto simp: sum_power2_gt_zero_iff)
  then have L: "0 < ?L" by simp
  have len: "m_length seg = Fin ?L"
    using pos by (simp add: seg_def WasmRoadSegment_new_def Vector2D_def Let_def power2_eq_square)
  have sp: "m_startPoint seg = Vector2D (Fin x1) (Fin y1)" "m_endPoint seg = Vector2D (Fin x2) (Fin y2)"
    by (simp_all add: seg_def WasmRoadSegment_new_def Let_def)
  have pt: "getPointAtDistance seg (Fin e) =
      Vector2D (Fin (x1 + (x2 - x1) * (max 0 (min e ?L) / ?L)))
               (Fin (y1 + (y2 - y1) * (max 0 (min e ?L) / ?L)))" for e
    using L by (auto simp: getPointAtDistance_def len sp Vector2D_def Let_def fmax_def fmin_def
        max_def min_def)
  show "getPointAtDistance seg (Fin 0) = m_startPoint seg"
    using L by (simp add: pt sp)
  show "getPointAtDistance seg (m_length seg) = m_endPoint seg"
    using L by (simp add: len pt sp)
  have sq: "?L * ?L = (x2 - x1)\<^sup>2 + (y2 - y1)\<^sup>2"
    using pos by (simp add: real_sqrt_mult_self)
  show al: "along x1 y1 x2 y2 (getPointAtDistance seg (Fin e)) = max 0 (min e ?L)" for e
  proof -
    show ?thesis
      using along_aux [OF sq [symmetric, THEN sym] L, of "max 0 (min e ?L)"]
      by (simp add: pt along_def Vector2D_def)
  qed
  show "d \<le> d' \<Longrightarrow> along x1 y1 x2 y2 (getPointAtDistance seg (Fin d))
           \<le> along x1 y1 x2 y2 (getPointAtDistance seg (Fin d'))"
    unfolding al by (auto simp: max_def min_def)
qed

subsection \<open>Connecting two segments\<close>

lemma digit_char_inj:
  assumes "d < 10" and "d' < 10" and "digit_char d = digit_char d'"
  shows "d = d'"
proof -
  have dist: "distinct ''0123456789''" by simp
  have "''0123456789'' ! d = ''0123456789'' ! d'" using assms(3) by (simp add: digit_char_def)
  then show ?thesis using assms(1,2) nth_eq_iff_index_eq [OF dist, of d d'] by simp
qed

lemma digit_char_not_underscore:
  assumes "d < 10"
  shows "digit_char d \<noteq> CHR ''_''"
proof -
  have "digit_char d \<in> set ''0123456789''"
    unfolding digit_char_def using assms by (intro nth_mem) simp
  then show ?thesis by auto
qed

lemma to_string_nonempty: "to_string n \<noteq> []"
  by (subst to_string.simps) simp

lemma to_string_no_underscore: "CHR ''_'' \<notin> set (to_string n)"
proof (induction n rule: to_string.induct)
  case (1 n)
  show ?case
  proof (cases "n < 10")
    case True
    then show ?thesis using digit_char_not_underscore [of n]
      by (subst to_string.simps) auto
  next
    case False
    have "n mod 10 < 10" by simp
    then have "digit_char (n mod 10) \<noteq> CHR ''_''" by (rule digit_char_not_underscore)
    then show ?thesis using False "1.IH"
      by (subst to_string.simps) auto
  qed
qed

lemma to_string_inj: "to_string n = to_string m \<Longrightarrow> n = m"
proof (induction n arbitrary: m rule: to_string.induct)
  case (1 n)
  show ?case
  proof (cases "n < 10")
    case n: True
    show ?thesis
    proof (cases "m < 10")
      case True
      then show ?thesis using n "1.prems" digit_char_inj [of n m]
        by (simp add: to_string.simps [of n] to_string.simps [of m])
    next
      case False
      have "length (to_string m) \<ge> 2"
        using False to_string_nonempty [of "m div 10"]
        by (subst to_string.simps) (cases "to_string (m div 10)"; simp)
      moreover have "length (to_string n) = 1" using n by (subst to_string.simps) simp
      ultimately show ?thesis using "1.prems" by simp
    qed
  next
    case n: False
    show ?thesis
    proof (cases "m < 10")
      case True
      have "length (to_string n) \<ge> 2"
        using n to_string_nonempty [of "n div 10"]
        by (subst to_string.simps) (cases "to_string (n div 10)"; simp)
      moreover have "length (to_string m) = 1" using True by (subst to_string.simps) simp
      ultimately show ?thesis using "1.prems" by simp
    next
      case False
      have "to_string (n div 10) @ [digit_char (n mod 10)] = to_string (m div 10) @ [digit_char (m mod 10)]"
        using "1.prems" n False by (simp add: to_string.simps [of n] to_string.simps [of m])
      then have a: "to_string (n div 10) = to_string (m div 10)"
        and b: "digit_char (n mod 10) = digit_char (m mod 10)" by auto
      have "n div 10 = m div 10" using "1.IH" [OF n a] .
      moreover have "n mod 10 = m mod 10" using digit_char_inj [OF _ _ b] by simp
      ultimately have "n div 10 * 10 + n mod 10 = m div 10 * 10 + m mod 10" by simp
      then show ?thesis by (simp only: div_mult_mod_eq)
    qed
  qed
qed

lemma split_at_separator:
  assumes "c \<notin> set s1" and "c \<notin> set s2" and "s1 @ c # t1 = s2 @ c # t2"
  shows "s1 = s2 \<and> t1 = t2"
  using assms
proof (induction s1 arbitrary: s2)
  case Nil
  then show ?case by (cases s2) auto
next
  case (Cons a s1)
  then show ?case by (cases s2) auto
qed

lemma connectionKey_inj [simp]:
  "connectionKey r l = connectionKey r' l' \<longleftrightarrow> r = r' \<and> l = l'"
proof
  assume "connectionKey r l = connectionKey r' l'"
  then have "to_string r @ CHR ''_'' # to_string l = to_string r' @ CHR ''_'' # to_string l'"
    by (simp add: connectionKey_def)
  from split_at_separator [OF to_string_no_underscore to_string_no_underscore this]
  show "r = r' \<and> l = l'" by (auto dest: to_string_inj)
qed simp

lemma map_of_umap_put: "map_of (umap_put k v al) = (map_of al)(k \<mapsto> v)"
  by (induction al) auto

lemma getRoadSegment_updateRoadSegment:
  "getRoadSegment (updateRoadSegment r f net) r' =
     (if r' = r then map_option f (getRoadSegment net r) else getRoadSegment net r')"
  by (auto simp: updateRoadSegment_def getRoadSegment_def map_of_umap_put split: option.splits)

lemma getIntersection_updateRoadSegment [simp]:
  "getIntersection (updateRoadSegment r f net) i = getIntersection net i"
  by (auto simp: updateRoadSegment_def getIntersection_def split: option.splits)

lemma getIntersection_updateIntersection:
  "getIntersection (updateIntersection i f net) i' =
     (if i' = i then map_option f (getIntersection net i) else getIntersection net i')"
  by (auto simp: updateIntersection_def getIntersection_def map_of_umap_put split: option.splits)

lemma getRoadSegment_updateIntersection [simp]:
  "getRoadSegment (updateIntersection i f net) r = getRoadSegment net r"
  by (auto simp: updateIntersection_def getRoadSegment_def split: option.splits)

lemma createIntersection_result:
  "createIntersection px py net = (i, net1) \<Longrightarrow>
     i = m_nextIntersectionId net
     \<and> getIntersection net1 i = Some \<lparr>int_id = i, m_position = Vector2D px py, m_connectedRoads = [],
                    m_connections = []\<rparr>
     \<and> (\<forall>r. getRoadSegment net1 r = getRoadSegment net r)"
  by (auto simp: createIntersection_def Let_def getIntersection_def getRoadSegment_def map_of_umap_put)

lemma umap_put_twice: "umap_put k v (umap_put k v' al) = umap_put k v al"
  by (induction al) auto

lemma defineConnection_conns:
  "m_connections (defineConnection r l r' l' i) =
     umap_put (connectionKey r l)
       ((case map_of (m_connections i) (connectionKey r l) of None \<Rightarrow> [] | Some cs \<Rightarrow> cs)
          @ [\<lparr>roadId = r', laneId = l'\<rparr>])
       (m_connections i)"
  by (cases "map_of (m_connections i) (connectionKey r l)")
     (simp_all add: defineConnection_def Let_def map_of_umap_put umap_put_twice)

lemma defineConnection_other [simp]:
  "int_id (defineConnection r l r' l' i) = int_id i"
  "m_position (defineConnection r l r' l' i) = m_position i"
  "m_connectedRoads (defineConnection r l r' l' i) = m_connectedRoads i"
  by (simp_all add: defineConnection_def Let_def)

lemma defineAllConnections_2_3:
  assumes "a \<noteq> b" and "m_connections i = []"
  shows "m_connections (defineAllConnections a 2 b 3 i) =
     [(connectionKey a 0, [\<lparr>roadId = b, laneId = 0\<rparr>, \<lparr>roadId = b, laneId = 1\<rparr>, \<lparr>roadId = b, laneId = 2\<rparr>]),
      (connectionKey b 0, [\<lparr>roadId = a, laneId = 0\<rparr>, \<lparr>roadId = a, laneId = 1\<rparr>]),
      (connectionKey b 1, [\<lparr>roadId = a, laneId = 0\<rparr>, \<lparr>roadId = a, laneId = 1\<rparr>]),
      (connectionKey b 2, [\<lparr>roadId = a, laneId = 0\<rparr>, \<lparr>roadId = a, laneId = 1\<rparr>]),
      (connectionKey a 1, [\<lparr>roadId = b, laneId = 0\<rparr>, \<lparr>roadId = b, laneId = 1\<rparr>, \<lparr>roadId = b, laneId = 2\<rparr>])]"
proof -
  have u2: "[0..<2] = [0, 1]" and u3: "[0..<3] = [0, 1, 2]" by (simp_all add: upt_rec)
  show ?thesis using assms
    by (simp add: defineAllConnections_def defineConnection_conns u2 u3)
qed

lemma defineAllConnections_other [simp]:
  "int_id (defineAllConnections a n b m i) = int_id i"
  "m_position (defineAllConnections a n b m i) = m_position i"
  "m_connectedRoads (defineAllConnections a n b m i) = m_connectedRoads i"
proof -
  have inner: "int_id (fold (\<lambda>lane2 i2. defineConnection b lane2 a lane1
                       (defineConnection a lane1 b lane2 i2)) ls i1) = int_id i1
      \<and> m_position (fold (\<lambda>lane2 i2. defineConnection b lane2 a lane1
                       (defineConnection a lane1 b lane2 i2)) ls i1) = m_position i1
      \<and> m_connectedRoads (fold (\<lambda>lane2 i2. defineConnection b lane2 a lane1
                       (defineConnection a lane1 b lane2 i2)) ls i1) = m_connectedRoads i1"
    for lane1 ls i1
    by (induction ls arbitrary: i1) simp_all
  have outer: "int_id (fold (\<lambda>lane1 i1.
             fold (\<lambda>lane2 i2.
                     defineConnection b lane2 a lane1
                       (defineConnection a lane1 b lane2 i2))
                  [0..<m] i1) ks i) = int_id i
      \<and> m_position (fold (\<lambda>lane1 i1.
             fold (\<lambda>lane2 i2.
                     defineConnection b lane2 a lane1
                       (defineConnection a lane1 b lane2 i2))
                  [0..<m] i1) ks i) = m_position i
      \<and> m_connectedRoads (fold (\<lambda>lane1 i1.
             fold (\<lambda>lane2 i2.
                     defineConnection b lane2 a lane1
                       (defineConnection a lane1 b lane2 i2))
                  [0..<m] i1) ks i) = m_connectedRoads i" for ks
    by (induction ks arbitrary: i) (simp_all add: inner)
  show "int_id (defineAllConnections a n b m i) = int_id i"
    "m_position (defineAllConnections a n b m i) = m_position i"
    "m_connectedRoads (defineAllConnections a n b m i) = m_connectedRoads i"
    using outer [of "[0..<n]"] by (simp_all add: defineAllConnections_def)
qed

text \<open>
  C6.  Let \<open>a\<close> be a segment with 2 lanes and \<open>b\<close> a segment with 3 lanes of a network.
  \<^verbatim>\<open>connectWithIntersection(a, ea, b, eb)\<close> returns the next intersection identifier;
  the intersection with this identifier lies at the midpoint of the two chosen end
  points, lists the segments \<open>a\<close> and \<open>b\<close>, and each of the two segments refers to it at
  the chosen end (its end when the flag is true, its start otherwise).  Its connection
  table has five keys with twelve entries: each of the 2 lanes of \<open>a\<close> leads to each of
  the 3 lanes of \<open>b\<close> (6 entries) and each of the 3 lanes of \<open>b\<close> to each of the 2 lanes
  of \<open>a\<close> (6 entries).
\<close>

theorem connectWithIntersection_2_3:
  assumes "getRoadSegment net a = Some ra" and "getRoadSegment net b = Some rb"
    and "getLaneCount ra = 2" and "getLaneCount rb = 3"
  shows "\<exists>net' x. connectWithIntersection a ea b eb net = (m_nextIntersectionId net, net')
      \<and> getIntersection net' (m_nextIntersectionId net) = Some x
      \<and> m_position x =
          Vector2D (fdiv (fadd (vec_x (if ea then m_endPoint ra else m_startPoint ra))
                               (vec_x (if eb then m_endPoint rb else m_startPoint rb))) (Fin 2))
                   (fdiv (fadd (vec_y (if ea then m_endPoint ra else m_startPoint ra))
                               (vec_y (if eb then m_endPoint rb else m_startPoint rb))) (Fin 2))
      \<and> m_connectedRoads x = [a, b]
      \<and> getRoadSegment net' a = Some (attachIntersection (m_nextIntersectionId net) (\<not> ea) ra)
      \<and> getRoadSegment net' b = Some (attachIntersection (m_nextIntersectionId net) (\<not> eb) rb)
      \<and> m_connections x =
          [(connectionKey a 0, [\<lparr>roadId = b, laneId = 0\<rparr>, \<lparr>roadId = b, laneId = 1\<rparr>, \<lparr>roadId = b, laneId = 2\<rparr>]),
           (connectionKey b 0, [\<lparr>roadId = a, laneId = 0\<rparr>, \<lparr>roadId = a, laneId = 1\<rparr>]),
           (connectionKey b 1, [\<lparr>roadId = a, laneId = 0\<rparr>, \<lparr>roadId = a, laneId = 1\<rparr>]),
           (connectionKey b 2, [\<lparr>roadId = a, laneId = 0\<rparr>, \<lparr>roadId = a, laneId = 1\<rparr>]),
           (connectionKey a 1, [\<lparr>roadId = b, laneId = 0\<rparr>, \<lparr>roadId = b, laneId = 1\<rparr>, \<lparr>roadId = b, laneId = 2\<rparr>])]
      \<and> countConnections a 2 b x = 6 \<and> countConnections b 3 a x = 6
      \<and> length (connectionEntries x) = 12"
proof -
  have ab: "a \<noteq> b" using assms by auto
  let ?p1 = "if ea then m_endPoint ra else m_startPoint ra"
  let ?p2 = "if eb then m_endPoint rb else m_startPoint rb"
  let ?mx = "fdiv (fadd (vec_x ?p1) (vec_x ?p2)) (Fin 2)"
  let ?my = "fdiv (fadd (vec_y ?p1) (vec_y ?p2)) (Fin 2)"
  let ?i = "m_nextIntersectionId net"
  obtain i net1 where ci: "createIntersection ?mx ?my net = (i, net1)"
    by (cases "createIntersection ?mx ?my net") auto
  from createIntersection_result [OF ci]
  have i: "i = ?i"
    and x0: "getIntersection net1 i = Some \<lparr>int_id = i, m_position = Vector2D ?mx ?my,
                 m_connectedRoads = [], m_connections = []\<rparr>"
    and segs: "\<forall>r. getRoadSegment net1 r = getRoadSegment net r" by auto
  let ?x0 = "\<lparr>int_id = i, m_position = Vector2D ?mx ?my,
                 m_connectedRoads = [], m_connections = []\<rparr>"
  let ?net2 = "updateRoadSegment a (attachIntersection i (\<not> ea))
                        (updateIntersection i (connectRoad a) net1)"
  let ?net3 = "updateRoadSegment b (attachIntersection i (\<not> eb))
                        (updateIntersection i (connectRoad b) ?net2)"
  let ?net4 = "updateIntersection i (defineAllConnections a 2 b 3) ?net3"
  let ?x = "defineAllConnections a 2 b 3 (connectRoad b (connectRoad a ?x0))"
  have run: "connectWithIntersection a ea b eb net = (i, ?net4)"
    using assms ci by (simp add: connectWithIntersection_def Let_def Vector2D_def)
  have gx: "getIntersection ?net4 i = Some ?x"
    using x0 by (simp add: getIntersection_updateIntersection)
  have ga: "getRoadSegment ?net4 a = Some (attachIntersection i (\<not> ea) ra)"
    using assms(1) segs ab by (simp add: getRoadSegment_updateRoadSegment)
  have gb: "getRoadSegment ?net4 b = Some (attachIntersection i (\<not> eb) rb)"
    using assms(2) segs ab by (simp add: getRoadSegment_updateRoadSegment)
  have pos: "m_position ?x = Vector2D ?mx ?my" by (simp add: connectRoad_def)
  have roads: "m_connectedRoads ?x = [a, b]" by (simp add: connectRoad_def)
  have conns: "m_connections ?x =
          [(connectionKey a 0, [\<lparr>roadId = b, laneId = 0\<rparr>, \<lparr>roadId = b, laneId = 1\<rparr>, \<lparr>roadId = b, laneId = 2\<rparr>]),
           (connectionKey b 0, [\<lparr>roadId = a, laneId = 0\<rparr>, \<lparr>roadId = a, laneId = 1\<rparr>]),
           (connectionKey b 1, [\<lparr>roadId = a, laneId = 0\<rparr>, \<lparr>roadId = a, laneId = 1\<rparr>]),
           (connectionKey b 2, [\<lparr>roadId = a, laneId = 0\<rparr>, \<lparr>roadId = a, laneId = 1\<rparr>]),
           (connectionKey a 1, [\<lparr>roadId = b, laneId = 0\<rparr>, \<lparr>roadId = b, laneId = 1\<rparr>, \<lparr>roadId = b, laneId = 2\<rparr>])]"
    by (rule defineAllConnections_2_3 [OF ab]) (simp add: connectRoad_def)
  have u2: "[0..<2] = [0, 1]" and u3: "[0..<3] = [0, 1, 2]" by (simp_all add: upt_rec)
  have counts: "countConnections a 2 b ?x = 6 \<and> countConnections b 3 a ?x = 6
      \<and> length (connectionEntries ?x) = 12"
    using ab by (simp add: countConnections_def connectionEntries_def conns u2 u3)
  show ?thesis
    using run gx ga gb pos roads conns counts unfolding i
    by (intro exI [of _ ?net4] exI [of _ ?x]) (simp only: i [symmetric] simp_thms)
qed

lemma scenario_network_segments:
  "\<exists>ra rb. getRoadSegment scenario_network 0 = Some ra \<and> getRoadSegment scenario_network 1 = Some rb
     \<and> getLaneCount ra = 2 \<and> getLaneCount rb = 3
     \<and> m_endPoint ra = Vector2D (Fin 10) (Fin 0) \<and> m_startPoint rb = Vector2D (Fin 10) (Fin 0)
     \<and> m_nextIntersectionId scenario_network = 0"
  by (simp add: scenario_network_def createRoadSegment_def WasmRoadNetwork_new_def Let_def
      updateRoadSegment_def getRoadSegment_def addLane_def WasmRoadSegment_new_def getLaneCount_def
      Vector2D_def)

theorem connectWithIntersection_witness:
  "map_option getLaneCount (getRoadSegment scenario_network 0) = Some 2
   \<and> map_option getLaneCount (getRoadSegment scenario_network 1) = Some 3
   \<and> (\<exists>net' x. connectWithIntersection 0 True 1 False scenario_network = (0, net')
         \<and> getIntersection net' 0 = Some x
         \<and> m_position x = Vector2D (Fin 10) (Fin 0)
         \<and> m_connectedRoads x = [0, 1]
         \<and> map_option m_endIntersection (getRoadSegment net' 0) = Some (Some 0)
         \<and> map_option m_startIntersection (getRoadSegment net' 1) = Some (Some 0)
         \<and> countConnections 0 2 1 x = 6 \<and> countConnections 1 3 0 x = 6)"
proof -
  from scenario_network_segments obtain ra rb where
    a: "getRoadSegment scenario_network 0 = Some ra" and b: "getRoadSegment scenario_network 1 = Some rb"
    and la: "getLaneCount ra = 2" and lb: "getLaneCount rb = 3"
    and pa: "m_endPoint ra = Vector2D (Fin 10) (Fin 0)" and pb: "m_startPoint rb = Vector2D (Fin 10) (Fin 0)"
    and n: "m_nextIntersectionId scenario_network = 0" by blast
  from connectWithIntersection_2_3 [OF a b la lb, of True False]
  obtain net' x where
    "connectWithIntersection 0 True 1 False scenario_network = (m_nextIntersectionId scenario_network, net')"
    "getIntersection net' (m_nextIntersectionId scenario_network) = Some x"
    "m_position x =
          Vector2D (fdiv (fadd (vec_x (m_endPoint ra)) (vec_x (m_startPoint rb))) (Fin 2))
                   (fdiv (fadd (vec_y (m_endPoint ra)) (vec_y (m_startPoint rb))) (Fin 2))"
    "m_connectedRoads x = [0, 1]"
    "getRoadSegment net' 0 = Some (attachIntersection (m_nextIntersectionId scenario_network) False ra)"
    "getRoadSegment net' 1 = Some (attachIntersection (m_nextIntersectionId scenario_network) True rb)"
    "countConnections 0 2 1 x = 6" "countConnections 1 3 0 x = 6"
    by auto
  then have "connectWithIntersection 0 True 1 False scenario_network = (0, net')
         \<and> getIntersection net' 0 = Some x
         \<and> m_position x = Vector2D (Fin 10) (Fin 0)
         \<and> m_connectedRoads x = [0, 1]
         \<and> map_option m_endIntersection (getRoadSegment net' 0) = Some (Some 0)
         \<and> map_option m_startIntersection (getRoadSegment net' 1) = Some (Some 0)
         \<and> countConnections 0 2 1 x = 6 \<and> countConnections 1 3 0 x = 6"
    by (simp add: n pa pb Vector2D_def attachIntersection_def)
  then show ?thesis using a b la lb by auto
qed

section \<open>Properties of the route search\<close>

subsection \<open>The search is sound\<close>

lemma chain_nonempty: "chain nm k ps \<Longrightarrow> ps \<noteq> [] \<and> hd ps = k"
  by (induction rule: chain.induct) auto

lemma chain_update:
  assumes "chain nm k ps" and "nb \<notin> set ps"
  shows "chain (nm(nb \<mapsto> node)) k ps"
  using assms
proof (induction rule: chain.induct)
  case (root k n)
  then show ?case by (intro chain.root [of _ _ n]) auto
next
  case (link k n p ps)
  then show ?case by (intro chain.link [of _ _ n p]) auto
qed

lemma nodes_ok_mono:
  assumes "nodes_ok net s c nm" and "c \<subseteq> c'"
  shows "nodes_ok net s c' nm"
  using assms unfolding nodes_ok_def by blast

lemma relax_inv:
  assumes ok: "nodes_ok net s cs nm" and op: "open_ok openSet nm"
    and cur: "cur \<in> cs" "nm cur \<noteq> None" "getRoadSegment net cur = Some road"
    and nb: "nb < 100"
    and r: "relax net road cur em cs nb (openSet, g, nm) = (o2, g2, n2)"
  shows "nodes_ok net s cs n2 \<and> open_ok o2 n2 \<and> n2 cur \<noteq> None"
proof (cases rule: relax_cases [of net road cur em cs nb openSet g nm])
  case same
  then show ?thesis using r ok op cur by auto
next
  case (push neighbor tg node)
  have o2: "o2 = openSet @ [node]" and n2: "n2 = nm(nb \<mapsto> node)" using push(6) r by auto
  obtain nc where nc: "nm cur = Some nc" using cur(2) by auto
  from ok nc obtain pc where pc: "chain nm cur pc" "set (tl pc) \<subseteq> cs" "last pc = s"
    "successively (\<lambda>x y. adjacent net y x) pc" "\<forall>x \<in> set (butlast pc). x < 100"
    unfolding nodes_ok_def by blast
  have pc_ne: "pc \<noteq> []" "hd pc = cur" using chain_nonempty [OF pc(1)] by auto
  have nb_pc: "nb \<notin> set pc"
  proof
    assume "nb \<in> set pc"
    then have "nb = hd pc \<or> nb \<in> set (tl pc)" using pc_ne(1) by (cases pc) auto
    then show False using pc_ne(2) push(1,4) pc(2) by auto
  qed
  have par: "parent node = Some cur" and idn: "n_roadId node = (case nm nb of None \<Rightarrow> nb | Some n \<Rightarrow> n_roadId n)"
    unfolding push(5) using cur(2) by (auto split: option.splits)
  have idn': "n_roadId node = nb"
    using idn ok unfolding nodes_ok_def by (auto split: option.splits)
  have adj: "adjacent net cur nb" using cur(3) push(2,3) by (simp add: adjacent_def)
  have ch_nb: "chain n2 nb (nb # pc)"
    unfolding n2 by (rule chain.link [of _ _ node cur]) (use par chain_update [OF pc(1) nb_pc] in auto)
  have "nodes_ok net s cs n2"
    unfolding nodes_ok_def
  proof (intro allI impI)
    fix k n assume kn: "n2 k = Some n"
    show "n_roadId n = k
        \<and> (\<exists>ps. chain n2 k ps \<and> set (tl ps) \<subseteq> cs \<and> last ps = s
              \<and> successively (\<lambda>x y. adjacent net y x) ps \<and> (\<forall>x \<in> set (butlast ps). x < 100))"
    proof (cases "k = nb")
      case True
      have "set (tl (nb # pc)) \<subseteq> cs"
        using pc(2) pc_ne cur(1) by (cases pc) auto
      moreover have "last (nb # pc) = s" using pc(3) pc_ne by simp
      moreover have "successively (\<lambda>x y. adjacent net y x) (nb # pc)"
        using pc(4) pc_ne adj by (cases pc) auto
      moreover have "\<forall>x \<in> set (butlast (nb # pc)). x < 100"
        using pc(5) pc_ne nb by auto
      moreover have "n_roadId n = k" using kn True idn' n2 by simp
      moreover have "chain n2 k (nb # pc)" using ch_nb True by simp
      ultimately show ?thesis by blast
    next
      case False
      then have old: "nm k = Some n" using kn n2 by simp
      from ok old obtain ps where ps: "n_roadId n = k" "chain nm k ps" "set (tl ps) \<subseteq> cs" "last ps = s"
        "successively (\<lambda>x y. adjacent net y x) ps" "\<forall>x \<in> set (butlast ps). x < 100"
        unfolding nodes_ok_def by blast
      have ne: "ps \<noteq> []" "hd ps = k" using chain_nonempty [OF ps(2)] by auto
      have "nb \<notin> set ps"
      proof
        assume "nb \<in> set ps"
        then have "nb = hd ps \<or> nb \<in> set (tl ps)" using ne(1) by (cases ps) auto
        then show False using ne(2) False push(4) ps(3) by auto
      qed
      then have "chain n2 k ps" unfolding n2 by (rule chain_update [OF ps(2)])
      then show ?thesis using ps by blast
    qed
  qed
  moreover have "open_ok o2 n2"
    using op idn' unfolding open_ok_def o2 n2 by auto
  moreover have "n2 cur \<noteq> None" using cur(2) n2 by simp
  ultimately show ?thesis by simp
qed

lemma fold_relax_inv:
  assumes "nodes_ok net s cs nm" and "open_ok openSet nm"
    and "cur \<in> cs" "nm cur \<noteq> None" "getRoadSegment net cur = Some road"
    and "\<forall>k \<in> set ks. k < 100"
    and "fold (relax net road cur em cs) ks (openSet, g, nm) = (o2, g2, n2)"
  shows "nodes_ok net s cs n2 \<and> open_ok o2 n2"
  using assms
proof (induction ks arbitrary: openSet g nm)
  case Nil
  then show ?case by simp
next
  case (Cons k ks)
  obtain o' g' n' where st: "relax net road cur em cs k (openSet, g, nm) = (o', g', n')"
    by (cases "relax net road cur em cs k (openSet, g, nm)") auto
  have k: "k < 100" using Cons.prems(6) by simp
  from relax_inv [OF Cons.prems(1,2,3,4,5) k st]
  have a: "nodes_ok net s cs n'" "open_ok o' n'" "n' cur \<noteq> None" by auto
  have f: "fold (relax net road cur em cs) ks (o', g', n') = (o2, g2, n2)"
    using Cons.prems(7) st by simp
  have ks: "\<forall>k \<in> set ks. k < 100" using Cons.prems(6) by simp
  show ?case by (rule Cons.IH [OF a(1,2) Cons.prems(3) a(3) Cons.prems(5) ks f])
qed

lemma astar_sound:
  assumes "nodes_ok net s closedSet nodeMap" and "open_ok openSet nodeMap"
    and "astar net e em (openSet, gScores, closedSet, nodeMap) = (Some k, nm')"
  shows "k = e \<and> (\<exists>cs. nodes_ok net s cs nm') \<and> nm' k \<noteq> None"
  using assms
proof (induction net e em "(openSet, gScores, closedSet, nodeMap)"
    arbitrary: openSet gScores closedSet nodeMap rule: astar.induct)
  case (1 net e em openSet gScores closedSet nodeMap)
  note IH = "1.hyps" and ok = "1.prems"(1) and op = "1.prems"(2) and res = "1.prems"(3)
  have ne: "openSet \<noteq> []" using res by (auto simp: astar.simps split: if_splits)
  let ?cur = "pq_top openSet"
  let ?o1 = "pq_pop openSet"
  have top: "?cur \<in> set openSet" by (rule pq_top_mem [OF ne])
  have op1: "open_ok ?o1 nodeMap"
    using op set_remove1_subset [of ?cur openSet] unfolding open_ok_def pq_pop_def by blast
  have curdom: "nodeMap (n_roadId ?cur) \<noteq> None" using op top unfolding open_ok_def by blast
  show ?case
  proof (cases "n_roadId ?cur \<in> closedSet")
    case True
    have "astar net e em (?o1, gScores, closedSet, nodeMap) = (Some k, nm')"
      using res ne True by (simp add: astar.simps Let_def)
    from IH(1) [OF ne refl refl True ok op1 this] show ?thesis .
  next
    case notclosed: False
    show ?thesis
    proof (cases "n_roadId ?cur = e")
      case True
      have "(Some k, nm') = ((if nodeMap (n_roadId ?cur) = None then None else Some (n_roadId ?cur)), nodeMap)"
        using res ne notclosed True by (auto simp: astar.simps Let_def split: if_splits)
      then have "k = n_roadId ?cur" "nm' = nodeMap" using curdom by simp_all
      then show ?thesis using True curdom ok by blast
    next
      case notend: False
      let ?cs = "insert (n_roadId ?cur) closedSet"
      have ok': "nodes_ok net s ?cs nodeMap" by (rule nodes_ok_mono [OF ok]) auto
      show ?thesis
      proof (cases "getRoadSegment net (n_roadId ?cur)")
        case None
        have "astar net e em (?o1, gScores, ?cs, nodeMap) = (Some k, nm')"
          using res ne notclosed notend None by (simp add: astar.simps Let_def)
        from IH(2) [OF ne refl refl notclosed notend None ok' op1 this] show ?thesis .
      next
        case (Some road)
        obtain o2 g2 n2 where f: "fold (relax net road (n_roadId ?cur) em ?cs) [0..<100]
            (?o1, gScores, nodeMap) = (o2, g2, n2)"
          by (cases "fold (relax net road (n_roadId ?cur) em ?cs) [0..<100] (?o1, gScores, nodeMap)") auto
        have inv2: "nodes_ok net s ?cs n2 \<and> open_ok o2 n2"
          by (rule fold_relax_inv [OF ok' op1 _ curdom Some _ f]) auto
        have "astar net e em (o2, g2, ?cs, n2) = (Some k, nm')"
          using res ne notclosed notend Some f by (simp add: astar.simps Let_def)
        from IH(3) [OF ne refl refl notclosed notend Some f [symmetric] refl
            conjunct1 [OF inv2] conjunct2 [OF inv2] this]
        show ?thesis .
      qed
    qed
  qed
qed

lemma followParents_chain:
  assumes "chain nm k ps" and "\<forall>x n. nm x = Some n \<longrightarrow> n_roadId n = x"
  shows "followParents nm (Some k) = Some (map (\<lambda>x. (x, 0)) ps)"
  using assms
proof (induction rule: chain.induct)
  case (root k n)
  then show ?case by (subst followParents.simps) (simp add: followParents.simps [of nm None])
next
  case (link k n p ps)
  then show ?case by (subst followParents.simps) simp
qed

lemma nodes_ok_initial:
  "nodes_ok net s {} [s \<mapsto> \<lparr>n_roadId = s, gScore = g, fScore = f, parent = None\<rparr>]"
  unfolding nodes_ok_def
proof (intro allI impI)
  fix k n
  assume a: "[s \<mapsto> \<lparr>n_roadId = s, gScore = g, fScore = f, parent = None\<rparr>] k = Some n"
  then have k: "k = s" and n: "n = \<lparr>n_roadId = s, gScore = g, fScore = f, parent = None\<rparr>"
    by (auto split: if_splits)
  have "chain [s \<mapsto> \<lparr>n_roadId = s, gScore = g, fScore = f, parent = None\<rparr>] s [s]"
    by (rule chain.root [of _ _ "\<lparr>n_roadId = s, gScore = g, fScore = f, parent = None\<rparr>"]) simp_all
  then show "n_roadId n = k \<and>
       (\<exists>ps. chain [s \<mapsto> \<lparr>n_roadId = s, gScore = g, fScore = f, parent = None\<rparr>] k ps \<and>
             set (tl ps) \<subseteq> {} \<and> last ps = s \<and>
             successively (\<lambda>x y. adjacent net y x) ps \<and> (\<forall>x\<in>set (butlast ps). x < 100))"
    unfolding k n by (intro conjI exI [of _ "[s]"]) simp_all
qed

text \<open>The search returns, and a path it returns is a route from the start segment to
  the end segment, in lane 0 throughout, whose segments after the first all have an
  identifier below 100.\<close>

lemma findPathOn_route:
  assumes "findNearestRoadSegment sx sy (Fin 50) net = s"
    and "findNearestRoadSegment ex ey (Fin 50) net = e"
  shows "\<exists>p. findPathOn net sx sy ex ey = Some p
     \<and> (p \<noteq> [] \<longrightarrow> route net s e (map fst p) \<and> (\<forall>x \<in> set (tl (map fst p)). x < 100)
                    \<and> (\<forall>x \<in> set p. snd x = 0))"
proof (cases "s = INVALID_ID \<or> e = INVALID_ID")
  case True
  then show ?thesis using assms by (auto simp: findPathOn_def)
next
  case valid: False
  show ?thesis
  proof (cases "s = e")
    case True
    then have "findPathOn net sx sy ex ey = Some [(s, 0)]"
      using valid assms by (simp add: findPathOn_def)
    then show ?thesis using True by (simp add: route_def)
  next
    case ne: False
    show ?thesis
    proof (cases "getRoadSegment net s")
      case None
      then have "findPathOn net sx sy ex ey = Some []"
        using valid ne assms by (simp add: findPathOn_def)
      then show ?thesis by simp
    next
      case sr: (Some startRoad)
      show ?thesis
      proof (cases "getRoadSegment net e")
        case None
        then have "findPathOn net sx sy ex ey = Some []"
          using valid ne assms sr by (simp add: findPathOn_def)
        then show ?thesis by simp
      next
        case er: (Some endRoad)
        let ?em = "midpoint endRoad"
        let ?sn = "\<lparr>n_roadId = s, gScore = Fin 0, fScore = heuristic ?em startRoad, parent = None\<rparr>"
        let ?res = "astar net e ?em ([?sn], [s \<mapsto> Fin 0], {}, [s \<mapsto> ?sn])"
        have unfold: "findPathOn net sx sy ex ey =
            (case ?res of (None, nodeMap) \<Rightarrow> Some []
             | (Some k, nodeMap) \<Rightarrow> map_option rev (followParents nodeMap (Some k)))"
          using valid ne assms sr er by (simp add: findPathOn_def Let_def)
        obtain en nm' where res: "?res = (en, nm')" by (cases ?res) auto
        show ?thesis
        proof (cases en)
          case None
          then have "findPathOn net sx sy ex ey = Some []" using unfold res by simp
          then show ?thesis by simp
        next
          case (Some k)
          have ok0: "nodes_ok net s {} [s \<mapsto> ?sn]" by (rule nodes_ok_initial)
          have op0: "open_ok [?sn] [s \<mapsto> ?sn]" by (simp add: open_ok_def)
          from astar_sound [OF ok0 op0 res [unfolded Some]]
          obtain cs where k: "k = e" and ok: "nodes_ok net s cs nm'" and dom: "nm' k \<noteq> None" by blast
          from dom obtain n where n: "nm' e = Some n" using k by auto
          from ok n obtain ps where ps: "chain nm' e ps" "last ps = s"
            "successively (\<lambda>x y. adjacent net y x) ps" "\<forall>x \<in> set (butlast ps). x < 100"
            unfolding nodes_ok_def by blast
          have ids: "\<forall>x n. nm' x = Some n \<longrightarrow> n_roadId n = x" using ok unfolding nodes_ok_def by blast
          have fp: "followParents nm' (Some e) = Some (map (\<lambda>x. (x, 0)) ps)"
            by (rule followParents_chain [OF ps(1) ids])
          have p: "findPathOn net sx sy ex ey = Some (rev (map (\<lambda>x. (x, 0)) ps))"
            using unfold res Some k fp by simp
          have pne: "ps \<noteq> []" "hd ps = e" using chain_nonempty [OF ps(1)] by auto
          have fst: "map fst (rev (map (\<lambda>x. (x, 0 :: nat)) ps)) = rev ps"
            by (simp add: rev_map comp_def)
          have "route net s e (rev ps)"
            using pne ps by (simp add: route_def hd_rev last_rev)
          moreover have "\<forall>x \<in> set (tl (rev ps)). x < 100"
          proof -
            have "tl (rev ps) = rev (butlast ps)" by (simp add: butlast_rev [of "rev ps", simplified] rev_swap)
            then show ?thesis using ps(4) by simp
          qed
          moreover have "\<forall>x \<in> set (rev (map (\<lambda>x. (x, 0 :: nat)) ps)). snd x = 0" by auto
          ultimately show ?thesis unfolding p using fst by simp
        qed
      qed
    qed
  qed
qed

subsection \<open>A chain of two segments\<close>

lemma fold_unchanged:
  assumes "\<And>x st. x \<in> set xs \<Longrightarrow> f x st = st"
  shows "fold f xs st = st"
  using assms by (induction xs arbitrary: st) simp_all

lemma fold_single:
  assumes "\<And>x st. x \<in> set xs \<Longrightarrow> x \<noteq> b \<Longrightarrow> f x st = st" and "b \<in> set xs" and "distinct xs"
  shows "fold f xs st = f b st"
  using assms
proof (induction xs arbitrary: st)
  case Nil
  then show ?case by simp
next
  case (Cons x xs)
  show ?case
  proof (cases "x = b")
    case True
    then have "b \<notin> set xs" using Cons.prems(3) by simp
    then have "fold f xs (f b st) = f b st"
      using Cons.prems(1) by (intro fold_unchanged) auto
    then show ?thesis using True by simp
  next
    case False
    then have "f x st = st" using Cons.prems(1) by simp
    moreover have "fold f xs st = f b st"
      using Cons.prems False by (intro Cons.IH) auto
    ultimately show ?thesis by simp
  qed
qed

lemma relax_absent:
  assumes "nb = cur \<or> getRoadSegment net nb = None"
  shows "relax net road cur em cs nb st = st"
  using assms by (cases st) (auto simp: relax_def)

lemma relax_unlinked:
  assumes "getRoadSegment net nb = Some neighbor" and "\<not> sharesIntersection road neighbor"
  shows "relax net road cur em cs nb st = st"
  using assms by (cases st) (auto simp: relax_def)

lemma pq_single [simp]: "pq_top [n] = n" "pq_pop [n] = []"
  by (simp_all add: pq_top_def pq_pop_def)

lemma astar_direct:
  assumes ne: "a \<noteq> b" and b: "b < 100"
    and ra: "getRoadSegment net a = Some ra" and rb: "getRoadSegment net b = Some rb"
    and only: "\<forall>i < 100. i \<noteq> b \<longrightarrow> i = a \<or> \<not> adjacent net a i"
    and sh: "sharesIntersection ra rb"
    and sn: "sn = \<lparr>n_roadId = a, gScore = Fin 0, fScore = f0, parent = None\<rparr>"
    and node: "node = \<lparr>n_roadId = b, gScore = fadd (Fin 0) (m_length ra),
                 fScore = fadd (fadd (Fin 0) (m_length ra)) (heuristic em rb), parent = Some a\<rparr>"
  shows "astar net b em ([sn], [a \<mapsto> Fin 0], {}, [a \<mapsto> sn]) = (Some b, [a \<mapsto> sn, b \<mapsto> node])"
proof -
  have others: "relax net ra a em {a} x st = st" if "x < 100" "x \<noteq> b" for x st
  proof (cases "x = a \<or> getRoadSegment net x = None")
    case True
    then show ?thesis by (rule relax_absent)
  next
    case False
    then obtain r where r: "getRoadSegment net x = Some r" by auto
    have "\<not> adjacent net a x" using only that False by auto
    then have "\<not> sharesIntersection ra r" using ra r by (simp add: adjacent_def)
    then show ?thesis by (rule relax_unlinked [OF r])
  qed
  have "fold (relax net ra a em {a}) [0..<100] ([], [a \<mapsto> Fin 0], [a \<mapsto> sn])
      = relax net ra a em {a} b ([], [a \<mapsto> Fin 0], [a \<mapsto> sn])"
    using b others by (intro fold_single) auto
  also have "\<dots> = ([node], [a \<mapsto> Fin 0, b \<mapsto> fadd (Fin 0) (m_length ra)], [a \<mapsto> sn, b \<mapsto> node])"
    using ne rb sh by (simp add: relax_def node Let_def)
  finally have step: "fold (relax net ra a em {a}) [0..<100] ([], [a \<mapsto> Fin 0], [a \<mapsto> sn])
      = ([node], [a \<mapsto> Fin 0, b \<mapsto> fadd (Fin 0) (m_length ra)], [a \<mapsto> sn, b \<mapsto> node])" .
  have first: "astar net b em ([sn], [a \<mapsto> Fin 0], {}, [a \<mapsto> sn])
      = astar net b em ([node], [a \<mapsto> Fin 0, b \<mapsto> fadd (Fin 0) (m_length ra)], {a}, [a \<mapsto> sn, b \<mapsto> node])"
    using ne ra step by (subst astar.simps) (simp add: sn)
  have second: "astar net b em ([node], [a \<mapsto> Fin 0, b \<mapsto> fadd (Fin 0) (m_length ra)], {a}, [a \<mapsto> sn, b \<mapsto> node])
      = (Some b, [a \<mapsto> sn, b \<mapsto> node])"
    using ne by (subst astar.simps) (simp add: node)
  show ?thesis using first second by simp
qed

lemma findPathOn_direct:
  assumes s: "findNearestRoadSegment sx sy (Fin 50) net = a"
    and e: "findNearestRoadSegment ex ey (Fin 50) net = b"
    and ne: "a \<noteq> b" and a: "a \<noteq> INVALID_ID" and b: "b < 100"
    and only: "\<forall>i < 100. i \<noteq> b \<longrightarrow> i = a \<or> \<not> adjacent net a i"
    and adj: "adjacent net a b"
  shows "findPathOn net sx sy ex ey = Some [(a, 0), (b, 0)]"
proof -
  from adj obtain ra rb where ra: "getRoadSegment net a = Some ra"
    and rb: "getRoadSegment net b = Some rb" and sh: "sharesIntersection ra rb"
    by (auto simp: adjacent_def split: option.splits)
  let ?em = "midpoint rb"
  let ?sn = "\<lparr>n_roadId = a, gScore = Fin 0, fScore = heuristic ?em ra, parent = None\<rparr>"
  let ?node = "\<lparr>n_roadId = b, gScore = fadd (Fin 0) (m_length ra),
                 fScore = fadd (fadd (Fin 0) (m_length ra)) (heuristic ?em rb), parent = Some a\<rparr>"
  have search: "astar net b ?em ([?sn], [a \<mapsto> Fin 0], {}, [a \<mapsto> ?sn]) = (Some b, [a \<mapsto> ?sn, b \<mapsto> ?node])"
    by (rule astar_direct [OF ne b ra rb only sh refl refl])
  have "followParents [a \<mapsto> ?sn, b \<mapsto> ?node] (Some a) = Some [(a, 0)]"
    using ne by (subst followParents.simps) (simp add: followParents.simps [of _ None])
  then have walk: "followParents [a \<mapsto> ?sn, b \<mapsto> ?node] (Some b) = Some [(b, 0), (a, 0)]"
    by (subst followParents.simps) simp
  have valid: "a \<noteq> INVALID_ID" "b \<noteq> INVALID_ID" using a b by (simp_all add: INVALID_ID_def)
  show ?thesis
    using s e ne valid ra rb search walk by (simp add: findPathOn_def Let_def)
qed

lemma createPath_no_route:
  assumes "findPath h sx sy ex ey sim = Some []"
  shows "createPath dbg h v sx sy ex ey sim = Some (False, sim)"
  using assms by (simp add: createPath_def)

subsection \<open>The nearest segment\<close>

lemma segmentDistance_cong:
  "m_startPoint r = m_startPoint r' \<Longrightarrow> m_endPoint r = m_endPoint r'
     \<Longrightarrow> segmentDistance px py r = segmentDistance px py r'"
  by (simp add: segmentDistance_def)

lemma fold_umap_put_same:
  assumes "map_of al k = Some x" and "F (k, v) = F (k, x)"
  shows "fold F (umap_put k v al) st = fold F al st"
  using assms by (induction al arbitrary: st) (auto split: if_splits)

lemma findNearestRoadSegment_updateRoadSegment:
  assumes "\<And>x. m_startPoint (f x) = m_startPoint x \<and> m_endPoint (f x) = m_endPoint x"
  shows "findNearestRoadSegment px py d (updateRoadSegment r f net) = findNearestRoadSegment px py d net"
proof (cases "getRoadSegment net r")
  case None
  then show ?thesis by (simp add: updateRoadSegment_def)
next
  case (Some x)
  have "segmentDistance px py (f x) = segmentDistance px py x"
    using assms by (intro segmentDistance_cong) auto
  then show ?thesis
    using Some unfolding findNearestRoadSegment_def updateRoadSegment_def getRoadSegment_def
    by (simp add: fold_umap_put_same [where x = x])
qed

lemma findNearestRoadSegment_updateIntersection [simp]:
  "findNearestRoadSegment px py d (updateIntersection i f net) = findNearestRoadSegment px py d net"
  by (simp add: findNearestRoadSegment_def updateIntersection_def split: option.splits)

lemma findNearestRoadSegment_connectWithIntersection:
  "findNearestRoadSegment px py d (snd (connectWithIntersection a ea b eb net))
     = findNearestRoadSegment px py d net"
proof -
  have keep: "\<And>i s x. m_startPoint (attachIntersection i s x) = m_startPoint x
      \<and> m_endPoint (attachIntersection i s x) = m_endPoint x"
    by (simp add: attachIntersection_def)
  have ci: "findNearestRoadSegment px py d (snd (createIntersection x y net)) = findNearestRoadSegment px py d net"
    for x y
    by (simp add: findNearestRoadSegment_def createIntersection_def Let_def)
  show ?thesis
    unfolding connectWithIntersection_def
    by (simp add: Let_def split_beta findNearestRoadSegment_updateRoadSegment [OF keep] ci
        split: option.splits)
qed

lemma sqrt_100: "sqrt 100 = 10"
  using real_sqrt_abs [of 10] by simp

lemma sqrt_25: "sqrt 25 = 5"
  using real_sqrt_abs [of 5] by simp

lemma sqrt_less_50: "sqrt x < 50 \<longleftrightarrow> x < 2500"
proof -
  have "sqrt 2500 = 50" using real_sqrt_abs [of 50] by simp
  then show ?thesis using real_sqrt_less_iff [of x 2500] by simp
qed

lemmas nearest_defs = findNearestRoadSegment_def segmentDistance_def pointDistance_def
  createRoadSegment_def WasmRoadNetwork_new_def WasmRoadSegment_new_def addLane_def Vector2D_def
  fgreater_def Let_def sqrt_100 sqrt_25 sqrt_less_50

lemma apart_near_0: "findNearestRoadSegment (Fin 5) (Fin 0) (Fin 50) scenario_apart = 0"
  by (simp add: scenario_apart_def nearest_defs)

lemma apart_near_1: "findNearestRoadSegment (Fin 15) (Fin 0) (Fin 50) scenario_apart = 1"
  by (simp add: scenario_apart_def nearest_defs)

lemma apart_near_none: "findNearestRoadSegment (Fin 1010) (Fin 0) (Fin 50) scenario_apart = INVALID_ID"
  by (simp add: scenario_apart_def nearest_defs)

lemma apart_segments:
  "getRoadSegment scenario_apart i =
     (if i = 0 then Some (snd (addLane (Fin (35 / 10)) Driving
                     (WasmRoadSegment_new 0 (Vector2D (Fin 0) (Fin 0)) (Vector2D (Fin 10) (Fin 0)))))
      else if i = 1 then Some (snd (addLane (Fin (35 / 10)) Driving
                     (WasmRoadSegment_new 1 (Vector2D (Fin 10) (Fin 0)) (Vector2D (Fin 20) (Fin 0)))))
      else None)"
  by (simp add: scenario_apart_def createRoadSegment_def WasmRoadNetwork_new_def Let_def
      getRoadSegment_def)

lemma createIntersection_segments [simp]:
  "getRoadSegment (snd (createIntersection x y net)) i = getRoadSegment net i"
  "fst (createIntersection x y net) = m_nextIntersectionId net"
  by (simp_all add: createIntersection_def Let_def getRoadSegment_def)

lemma getRoadSegment_connectWithIntersection:
  assumes "getRoadSegment net a = Some ra" and "getRoadSegment net b = Some rb" and "a \<noteq> b"
  shows "getRoadSegment (snd (connectWithIntersection a ea b eb net)) i =
     (if i = b then Some (attachIntersection (m_nextIntersectionId net) (\<not> eb) rb)
      else if i = a then Some (attachIntersection (m_nextIntersectionId net) (\<not> ea) ra)
      else getRoadSegment net i)"
  using assms unfolding connectWithIntersection_def
  by (simp add: Let_def split_beta getRoadSegment_updateRoadSegment)

lemma nextIntersectionId_updateRoadSegment [simp]:
  "m_nextIntersectionId (updateRoadSegment r f net) = m_nextIntersectionId net"
  by (simp add: updateRoadSegment_def split: option.splits)

lemma nextIntersectionId_updateIntersection [simp]:
  "m_nextIntersectionId (updateIntersection r f net) = m_nextIntersectionId net"
  by (simp add: updateIntersection_def split: option.splits)

lemma nextIntersectionId_connectWithIntersection:
  assumes "getRoadSegment net a = Some ra" and "getRoadSegment net b = Some rb"
  shows "m_nextIntersectionId (snd (connectWithIntersection a ea b eb net)) = m_nextIntersectionId net + 1"
  using assms unfolding connectWithIntersection_def
  by (simp add: Let_def split_beta createIntersection_def)

lemma route_needs_adjacent:
  assumes "route net s e r" and "s \<noteq> e"
  shows "\<exists>x y. adjacent net x y"
proof (cases r)
  case Nil
  then show ?thesis using assms by (simp add: route_def)
next
  case (Cons x xs)
  show ?thesis
  proof (cases xs)
    case Nil
    then show ?thesis using assms Cons by (simp add: route_def)
  next
    case (Cons y ys)
    then have "adjacent net x y" using assms \<open>r = x # xs\<close> by (auto simp: route_def)
    then show ?thesis by blast
  qed
qed

text \<open>
  Claim C4.  Let the facade hold a road network, and let the start point resolve to
  segment \<open>a\<close> and the end point to segment \<open>b\<close> (\<^verbatim>\<open>findNearestRoadSegment\<close> with the
  radius 50 of its default argument).

  \<^item> If the network consists of the two segments \<open>a\<close> and \<open>b\<close> only, they are distinct,
    they share an intersection and the identifier of \<open>b\<close> is below 100 (a network of
    two segments has the identifiers 0 and 1), then \<^verbatim>\<open>findPath\<close> returns
    \<open>[(a, 0), (b, 0)]\<close>.
  \<^item> If one of the two points resolves to no segment (\<open>INVALID_ID\<close>), or no route leads
    from \<open>a\<close> to \<open>b\<close>, then \<^verbatim>\<open>findPath\<close> returns the empty sequence and \<^verbatim>\<open>createPath\<close>
    returns false and leaves the simulation as it was.
\<close>

theorem findPath_two_segment_chain:
  assumes net: "m_roadNetwork sim = Some p" "h p = Some net"
    and s: "findNearestRoadSegment sx sy (Fin 50) net = a"
    and e: "findNearestRoadSegment ex ey (Fin 50) net = b"
  shows "(a \<noteq> INVALID_ID \<and> b < 100 \<and> a \<noteq> b \<and> adjacent net a b
            \<and> (\<forall>i. getRoadSegment net i \<noteq> None \<longrightarrow> i = a \<or> i = b)
          \<longrightarrow> findPath h sx sy ex ey sim = Some [(a, 0), (b, 0)])
       \<and> (a = INVALID_ID \<or> b = INVALID_ID \<or> (\<forall>r. \<not> route net a b r)
          \<longrightarrow> findPath h sx sy ex ey sim = Some []
              \<and> createPath dbg h v sx sy ex ey sim = Some (False, sim))"
proof (rule conjI; rule impI)
  assume chain: "a \<noteq> INVALID_ID \<and> b < 100 \<and> a \<noteq> b \<and> adjacent net a b
      \<and> (\<forall>i. getRoadSegment net i \<noteq> None \<longrightarrow> i = a \<or> i = b)"
  then have "\<forall>i < 100. i \<noteq> b \<longrightarrow> i = a \<or> \<not> adjacent net a i"
    by (auto simp: adjacent_def split: option.splits)
  then have "findPathOn net sx sy ex ey = Some [(a, 0), (b, 0)]"
    using findPathOn_direct [OF s e] chain by blast
  then show "findPath h sx sy ex ey sim = Some [(a, 0), (b, 0)]"
    using net by (simp add: findPath_def)
next
  assume fail: "a = INVALID_ID \<or> b = INVALID_ID \<or> (\<forall>r. \<not> route net a b r)"
  from findPathOn_route [OF s e] obtain path where
    path: "findPathOn net sx sy ex ey = Some path" "path \<noteq> [] \<longrightarrow> route net a b (map fst path)"
    by blast
  have "path = []"
  proof (cases "a = INVALID_ID \<or> b = INVALID_ID")
    case True
    then have "findPathOn net sx sy ex ey = Some []" using s e by (auto simp: findPathOn_def)
    then show ?thesis using path(1) by simp
  next
    case False
    then have "\<forall>r. \<not> route net a b r" using fail by blast
    then show ?thesis using path(2) by blast
  qed
  then have empty: "findPath h sx sy ex ey sim = Some []"
    using net path(1) by (simp add: findPath_def)
  then show "findPath h sx sy ex ey sim = Some []
      \<and> createPath dbg h v sx sy ex ey sim = Some (False, sim)"
    using createPath_no_route [OF empty] by simp
qed

lemma chain_segments:
  "getRoadSegment scenario_chain i =
     (if i = 1 then Some (attachIntersection 0 True (snd (addLane (Fin (35 / 10)) Driving
                     (WasmRoadSegment_new 1 (Vector2D (Fin 10) (Fin 0)) (Vector2D (Fin 20) (Fin 0))))))
      else if i = 0 then Some (attachIntersection 0 False (snd (addLane (Fin (35 / 10)) Driving
                     (WasmRoadSegment_new 0 (Vector2D (Fin 0) (Fin 0)) (Vector2D (Fin 10) (Fin 0))))))
      else None)"
proof -
  have n: "m_nextIntersectionId scenario_apart = 0"
    by (simp add: scenario_apart_def createRoadSegment_def WasmRoadNetwork_new_def Let_def)
  show ?thesis
    unfolding scenario_chain_def
    by (subst getRoadSegment_connectWithIntersection [where ra = "the (getRoadSegment scenario_apart 0)"
          and rb = "the (getRoadSegment scenario_apart 1)"])
       (simp_all add: apart_segments n)
qed

theorem findPath_two_segment_chain_witness:
  "findPath [7 \<mapsto> scenario_chain] (Fin 5) (Fin 0) (Fin 15) (Fin 0) (scenario_facade 7)
      = Some [(0, 0), (1, 0)]
   \<and> findPath [7 \<mapsto> scenario_apart] (Fin 5) (Fin 0) (Fin 15) (Fin 0) (scenario_facade 7) = Some []
   \<and> createPath True [7 \<mapsto> scenario_apart] 0 (Fin 5) (Fin 0) (Fin 15) (Fin 0) (scenario_facade 7)
      = Some (False, scenario_facade 7)
   \<and> findPath [7 \<mapsto> scenario_chain] (Fin 1010) (Fin 0) (Fin 15) (Fin 0) (scenario_facade 7) = Some []"
proof -
  have p: "m_roadNetwork (scenario_facade 7) = Some 7"
    by (simp add: scenario_facade_def setRoadNetwork_def)
  have c0: "findNearestRoadSegment (Fin 5) (Fin 0) (Fin 50) scenario_chain = 0"
    and c1: "findNearestRoadSegment (Fin 15) (Fin 0) (Fin 50) scenario_chain = 1"
    and cn: "findNearestRoadSegment (Fin 1010) (Fin 0) (Fin 50) scenario_chain = INVALID_ID"
    unfolding scenario_chain_def findNearestRoadSegment_connectWithIntersection
    by (rule apart_near_0 apart_near_1 apart_near_none)+
  have adj: "adjacent scenario_chain 0 1"
    by (simp add: adjacent_def chain_segments sharesIntersection_def attachIntersection_def
        addLane_def WasmRoadSegment_new_def Let_def)
  have only: "\<forall>i. getRoadSegment scenario_chain i \<noteq> None \<longrightarrow> i = 0 \<or> i = 1"
    by (simp add: chain_segments)
  have "\<not> adjacent scenario_apart x y" for x y
    by (simp add: adjacent_def apart_segments sharesIntersection_def
        addLane_def WasmRoadSegment_new_def Let_def)
  then have noroute: "\<forall>r. \<not> route scenario_apart 0 1 r"
    using route_needs_adjacent [of scenario_apart 0 1] by auto
  have h1: "[7 \<mapsto> scenario_chain] (7 :: nat) = Some scenario_chain"
    and h2: "[7 \<mapsto> scenario_apart] (7 :: nat) = Some scenario_apart" by simp_all
  show ?thesis
    using findPath_two_segment_chain [where h = "[7 \<mapsto> scenario_chain]" and dbg = True and v = 0,
        OF p h1 c0 c1]
      findPath_two_segment_chain [where h = "[7 \<mapsto> scenario_apart]" and dbg = True and v = 0,
        OF p h2 apart_near_0 apart_near_1]
      findPath_two_segment_chain [where h = "[7 \<mapsto> scenario_chain]" and dbg = True and v = 0,
        OF p h1 cn c1]
      adj only noroute
    by (simp add: INVALID_ID_def)
qed

text \<open>
  Claim C10, with the start segment left out of the condition.  The search takes a
  segment as a neighbour only if its identifier is below 100: \<^verbatim>\<open>findPath\<close> returns, and
  every segment of the returned path after the first one has an identifier below 100.
  So, when the start and the end resolve to distinct segments \<open>a\<close> and \<open>b\<close> and every
  route from \<open>a\<close> to \<open>b\<close> has, after \<open>a\<close>, a segment with identifier 100 or more,
  \<^verbatim>\<open>findPath\<close> returns the empty sequence, whether or not a route exists.  (Which of
  several nodes of least \<open>fScore\<close> the queue hands out plays no part in the proof.)
\<close>

theorem findPath_neighbours_below_100:
  assumes net: "m_roadNetwork sim = Some p" "h p = Some net"
    and s: "findNearestRoadSegment sx sy (Fin 50) net = a"
    and e: "findNearestRoadSegment ex ey (Fin 50) net = b"
  shows "\<exists>path. findPath h sx sy ex ey sim = Some path
       \<and> (\<forall>x \<in> set (tl (map fst path)). x < 100)
       \<and> (a \<noteq> b \<and> (\<forall>r. route net a b r \<longrightarrow> (\<exists>x \<in> set (tl r). 100 \<le> x)) \<longrightarrow> path = [])"
proof -
  from findPathOn_route [OF s e] obtain path where
    path: "findPathOn net sx sy ex ey = Some path"
      "path \<noteq> [] \<longrightarrow> route net a b (map fst path) \<and> (\<forall>x \<in> set (tl (map fst path)). x < 100)"
    by blast
  have "findPath h sx sy ex ey sim = Some path" using net path(1) by (simp add: findPath_def)
  moreover have "\<forall>x \<in> set (tl (map fst path)). x < 100" using path(2) by (cases path) auto
  moreover have "path = []" if "\<forall>r. route net a b r \<longrightarrow> (\<exists>x \<in> set (tl r). 100 \<le> x)"
  proof (rule ccontr)
    assume "path \<noteq> []"
    then have "route net a b (map fst path)" "\<forall>x \<in> set (tl (map fst path)). x < 100"
      using path(2) by auto
    then show False using that by fastforce
  qed
  ultimately show ?thesis by blast
qed

subsection \<open>A detour over segment 100\<close>

lemma umap_put_fresh: "k \<notin> fst ` set al \<Longrightarrow> umap_put k v al = al @ [(k, v)]"
  by (induction al) auto

lemma createRow_state:
  "m_roadSegments (createRow n WasmRoadNetwork_new) = map (\<lambda>i. (i, rowSegment i)) [0..<n]
   \<and> m_nextRoadId (createRow n WasmRoadNetwork_new) = n
   \<and> m_nextIntersectionId (createRow n WasmRoadNetwork_new) = 0"
proof (induction n)
  case 0
  then show ?case by (simp add: createRow_def WasmRoadNetwork_new_def)
next
  case (Suc n)
  have step: "createRow (Suc n) WasmRoadNetwork_new =
      snd (createRoadSegment (Fin (100 * real n)) (Fin 0) (Fin (100 * real n + 10)) (Fin 0)
             (createRow n WasmRoadNetwork_new))"
    by (simp add: createRow_def)
  have fresh: "n \<notin> fst ` set (map (\<lambda>i. (i, rowSegment i)) [0..<n])" by (auto simp: image_iff)
  show ?case
    unfolding step using Suc fresh
    by (simp add: createRoadSegment_def Let_def umap_put_fresh rowSegment_def)
qed

lemma createRow_segments:
  "getRoadSegment (createRow n WasmRoadNetwork_new) i = (if i < n then Some (rowSegment i) else None)"
  by (simp add: getRoadSegment_def createRow_state map_of_map_restrict restrict_map_def)

lemma segmentDistance_row:
  assumes "m_startPoint seg = Vector2D (Fin a) (Fin 0)"
    and "m_endPoint seg = Vector2D (Fin (a + 10)) (Fin 0)"
  shows "segmentDistance (Fin x) (Fin 0) seg =
     Fin (if x - a < 0 then \<bar>x - a\<bar> else if 10 < x - a then \<bar>x - a - 10\<bar> else 0)"
  using assms
  by (simp add: segmentDistance_def pointDistance_def Vector2D_def Let_def fgreater_def sqrt_100)

lemma rowSegment_points:
  "m_startPoint (rowSegment i) = Vector2D (Fin (100 * real i)) (Fin 0)"
  "m_endPoint (rowSegment i) = Vector2D (Fin (100 * real i + 10)) (Fin 0)"
  by (simp_all add: rowSegment_def addLane_def WasmRoadSegment_new_def Let_def)

lemma rowSegment_at:
  "segmentDistance (Fin (100 * real k + 5)) (Fin 0) (rowSegment k) = Fin 0"
  by (simp add: segmentDistance_row [OF rowSegment_points])

lemma rowSegment_far:
  assumes "i \<noteq> k"
  shows "\<exists>d. segmentDistance (Fin (100 * real k + 5)) (Fin 0) (rowSegment i) = Fin d \<and> 50 \<le> d"
proof (cases "i < k")
  case True
  then have "real i + 1 \<le> real k" by simp
  then show ?thesis by (simp add: segmentDistance_row [OF rowSegment_points])
next
  case False
  then have "real k + 1 \<le> real i" using assms by simp
  then show ?thesis by (simp add: segmentDistance_row [OF rowSegment_points])
qed

lemma nearest_skip:
  assumes "\<forall>i \<in> set xs. i \<noteq> k" and "c \<le> 50"
  shows "fold (\<lambda>(i, road) (nearestDistance, nearestId).
                  if fless (segmentDistance (Fin (100 * real k + 5)) (Fin 0) road) nearestDistance
                  then (segmentDistance (Fin (100 * real k + 5)) (Fin 0) road, i)
                  else (nearestDistance, nearestId))
           (map (\<lambda>i. (i, rowSegment i)) xs) (Fin c, j) = (Fin c, j)"
  using assms
proof (induction xs)
  case Nil
  then show ?case by simp
next
  case (Cons x xs)
  then have "x \<noteq> k" by simp
  from rowSegment_far [OF this] obtain d where
    d: "segmentDistance (Fin (100 * real k + 5)) (Fin 0) (rowSegment x) = Fin d" "50 \<le> d" by blast
  then show ?case using Cons by (simp add: Let_def)
qed

lemma createRow_nearest:
  assumes "k < n"
  shows "findNearestRoadSegment (Fin (100 * real k + 5)) (Fin 0) (Fin 50)
           (createRow n WasmRoadNetwork_new) = k"
proof -
  have "[0..<n] = [0..<k] @ [k..<n]" using assms upt_add_eq_append [of 0 k "n - k"] by simp
  then have split: "[0..<n] = [0..<k] @ k # [Suc k..<n]" using assms by (simp add: upt_conv_Cons)
  have a: "\<forall>i \<in> set [0..<k]. i \<noteq> k" and b: "\<forall>i \<in> set [Suc k..<n]. i \<noteq> k" by auto
  show ?thesis
    unfolding findNearestRoadSegment_def
    by (simp add: createRow_state split nearest_skip [OF a] nearest_skip [OF b] rowSegment_at Let_def)
qed

lemma rowSegment_unlinked:
  "m_startIntersection (rowSegment i) = None" "m_endIntersection (rowSegment i) = None"
  by (simp_all add: rowSegment_def addLane_def WasmRoadSegment_new_def Let_def)

lemma detour_segments:
  "getRoadSegment scenario_detour i =
     (if i = 1 then Some (attachIntersection 1 True (rowSegment 1))
      else if i = 100 then Some (attachIntersection 1 False (attachIntersection 0 True (rowSegment 100)))
      else if i = 0 then Some (attachIntersection 0 False (rowSegment 0))
      else if i < 101 then Some (rowSegment i) else None)"
proof -
  let ?net1 = "snd (connectWithIntersection 0 True 100 False scenario_row)"
  have r0: "getRoadSegment scenario_row 0 = Some (rowSegment 0)"
    and r100: "getRoadSegment scenario_row 100 = Some (rowSegment 100)"
    by (simp_all add: scenario_row_def createRow_segments)
  have n0: "m_nextIntersectionId scenario_row = 0" by (simp add: scenario_row_def createRow_state)
  have first: "getRoadSegment ?net1 j =
      (if j = 100 then Some (attachIntersection 0 True (rowSegment 100))
       else if j = 0 then Some (attachIntersection 0 False (rowSegment 0))
       else getRoadSegment scenario_row j)" for j
    by (subst getRoadSegment_connectWithIntersection [OF r0 r100]) (simp_all add: n0)
  have n1: "m_nextIntersectionId ?net1 = 1"
    using nextIntersectionId_connectWithIntersection [OF r0 r100] n0 by simp
  have row: "getRoadSegment scenario_row j = (if j < 101 then Some (rowSegment j) else None)" for j
    by (simp add: scenario_row_def createRow_segments)
  have s100: "getRoadSegment ?net1 100 = Some (attachIntersection 0 True (rowSegment 100))"
    and s1: "getRoadSegment ?net1 1 = Some (rowSegment 1)"
    by (simp_all add: first row)
  show ?thesis
    unfolding scenario_detour_def
    by (subst getRoadSegment_connectWithIntersection [OF s100 s1])
       (simp_all add: n1 first row)
qed

lemma detour_from_0:
  assumes "adjacent scenario_detour 0 y"
  shows "y = 0 \<or> y = 100"
  using assms
  by (auto simp: adjacent_def detour_segments sharesIntersection_def attachIntersection_def
      rowSegment_unlinked split: if_splits)

lemma detour_stays:
  assumes "successively (adjacent scenario_detour) (0 # xs)" and "\<forall>x \<in> set xs. x < 100"
  shows "last (0 # xs) = 0"
  using assms
proof (induction xs)
  case Nil
  then show ?case by simp
next
  case (Cons y ys)
  then have "adjacent scenario_detour 0 y" "y < 100" by simp_all
  then have y: "y = 0" using detour_from_0 by fastforce
  then have "successively (adjacent scenario_detour) (0 # ys)" using Cons.prems(1) by simp
  then have "last (0 # ys) = 0" using Cons.IH Cons.prems(2) by simp
  then show ?case using y by simp
qed

lemma detour_routes:
  assumes "route scenario_detour 0 1 r"
  shows "\<exists>x \<in> set (tl r). 100 \<le> x"
proof (rule ccontr)
  assume "\<not> (\<exists>x \<in> set (tl r). 100 \<le> x)"
  then have small: "\<forall>x \<in> set (tl r). x < 100" by auto
  obtain xs where r: "r = 0 # xs" using assms by (cases r) (auto simp: route_def)
  have "last (0 # xs) = 0" using detour_stays [of xs] assms small r by (simp add: route_def)
  then show False using assms r by (simp add: route_def)
qed

lemma detour_route: "route scenario_detour 0 1 [0, 100, 1]"
  by (simp add: route_def adjacent_def detour_segments sharesIntersection_def attachIntersection_def)

theorem findPath_neighbours_below_100_witness:
  "route scenario_detour 0 1 [0, 100, 1]
   \<and> findPath [7 \<mapsto> scenario_detour] (Fin 5) (Fin 0) (Fin 105) (Fin 0) (scenario_facade 7) = Some []"
proof -
  have p: "m_roadNetwork (scenario_facade 7) = Some 7"
    by (simp add: scenario_facade_def setRoadNetwork_def)
  have h: "[7 \<mapsto> scenario_detour] (7 :: nat) = Some scenario_detour" by simp
  have c0: "findNearestRoadSegment (Fin 5) (Fin 0) (Fin 50) scenario_detour = 0"
    using createRow_nearest [of 0 101]
    by (simp add: scenario_detour_def scenario_row_def findNearestRoadSegment_connectWithIntersection)
  have c1: "findNearestRoadSegment (Fin 105) (Fin 0) (Fin 50) scenario_detour = 1"
    using createRow_nearest [of 1 101]
    by (simp add: scenario_detour_def scenario_row_def findNearestRoadSegment_connectWithIntersection)
  show ?thesis
    using findPath_neighbours_below_100 [where h = "[7 \<mapsto> scenario_detour]", OF p h c0 c1]
      detour_routes detour_route
    by auto
qed

subsection \<open>A start on segment 100\<close>

lemma behind_segments:
  "getRoadSegment scenario_behind i =
     (if i = 0 then Some (attachIntersection 0 True (rowSegment 0))
      else if i = 100 then Some (attachIntersection 0 False (rowSegment 100))
      else if i < 101 then Some (rowSegment i) else None)"
proof -
  have r0: "getRoadSegment scenario_row 0 = Some (rowSegment 0)"
    and r100: "getRoadSegment scenario_row 100 = Some (rowSegment 100)"
    by (simp_all add: scenario_row_def createRow_segments)
  have n0: "m_nextIntersectionId scenario_row = 0" by (simp add: scenario_row_def createRow_state)
  have row: "getRoadSegment scenario_row j = (if j < 101 then Some (rowSegment j) else None)" for j
    by (simp add: scenario_row_def createRow_segments)
  show ?thesis
    unfolding scenario_behind_def
    by (subst getRoadSegment_connectWithIntersection [OF r100 r0]) (simp_all add: n0 row)
qed

text \<open>
  Claim C10 as stated fails when the segment with identifier 100 or more is the start
  segment itself.  In the row of 101 segments with segment 100 joined to segment 0,
  the point \<open>(10005, 0)\<close> resolves to segment 100 and the point \<open>(5, 0)\<close> to segment 0;
  every route from segment 100 to segment 0 begins with segment 100, and \<^verbatim>\<open>findPath\<close>
  returns \<open>[(100, 0), (0, 0)]\<close>, not the empty sequence: the loop over \<^verbatim>\<open>neighborId\<close>
  bounds the neighbours, and the start segment is never one.
\<close>

theorem findPath_from_segment_100:
  "findNearestRoadSegment (Fin 10005) (Fin 0) (Fin 50) scenario_behind = 100
   \<and> findNearestRoadSegment (Fin 5) (Fin 0) (Fin 50) scenario_behind = 0
   \<and> findPath [7 \<mapsto> scenario_behind] (Fin 10005) (Fin 0) (Fin 5) (Fin 0) (scenario_facade 7)
        = Some [(100, 0), (0, 0)]"
proof -
  have c0: "findNearestRoadSegment (Fin 10005) (Fin 0) (Fin 50) scenario_behind = 100"
    using createRow_nearest [of 100 101]
    by (simp add: scenario_behind_def scenario_row_def findNearestRoadSegment_connectWithIntersection)
  have c1: "findNearestRoadSegment (Fin 5) (Fin 0) (Fin 50) scenario_behind = 0"
    using createRow_nearest [of 0 101]
    by (simp add: scenario_behind_def scenario_row_def findNearestRoadSegment_connectWithIntersection)
  have adj: "adjacent scenario_behind 100 0"
    by (simp add: adjacent_def behind_segments sharesIntersection_def attachIntersection_def)
  have others: "\<forall>i < 100. i \<noteq> 0 \<longrightarrow> i = 100 \<or> \<not> adjacent scenario_behind 100 i"
    by (auto simp: adjacent_def behind_segments sharesIntersection_def attachIntersection_def
        rowSegment_unlinked)
  have "findPathOn scenario_behind (Fin 10005) (Fin 0) (Fin 5) (Fin 0) = Some [(100, 0), (0, 0)]"
    by (rule findPathOn_direct [OF c0 c1 _ _ _ others adj]) (simp_all add: INVALID_ID_def)
  then have "findPath [7 \<mapsto> scenario_behind] (Fin 10005) (Fin 0) (Fin 5) (Fin 0) (scenario_facade 7)
        = Some [(100, 0), (0, 0)]"
    by (simp add: findPath_def scenario_facade_def setRoadNetwork_def)
  then show ?thesis using c0 c1 by simp
qed

end
